(* ===== verification/Prelude.thy ===== *)
theory Prelude
  imports Complex_Main "HOL-Library.Word"
begin

text \<open>
  Shared vocabulary of the development: names for the machine integers and the
  fallible results of the Rust sources, the finite part of IEEE doubles with the
  comparisons the sources make on them, and the generic lemmas on words, masks,
  lists and maps that the component theories use.

  Conventions.  A \<open>Result<T, E>\<close> is a value of \<open>('e, 'a) result\<close>, with \<open>Inl\<close> the
  error.  An operation that can panic in every build profile returns an \<open>option\<close>
  around its result, with \<open>None\<close> the panic.  Unchecked arithmetic on unsigned
  integers is the wrapping arithmetic of the release profile wherever the value
  can reach the bound.
\<close>

section \<open>Type names\<close>

type_synonym u8 = "8 word"
type_synonym u16 = "16 word"
type_synonym u32 = "32 word"
type_synonym u64 = "64 word"

type_synonym ('e, 'a) result = "'e + 'a"

abbreviation (input) Ok :: "'a \<Rightarrow> ('e, 'a) result" where
  "Ok x \<equiv> Inr x"

abbreviation (input) Err :: "'e \<Rightarrow> ('e, 'a) result" where
  "Err e \<equiv> Inl e"

definition is_ok :: "('e, 'a) result \<Rightarrow> bool" where
  "is_ok r = (case r of Inl _ \<Rightarrow> False | Inr _ \<Rightarrow> True)"

lemma is_ok_simps [simp]: "is_ok (Inr x)" "\<not> is_ok (Inl e)"
  by (simp_all add: is_ok_def)

lemma is_ok_iff: "is_ok r \<longleftrightarrow> (\<exists>x. r = Inr x)"
  by (cases r) auto

section \<open>Collections\<close>

named_theorems inv_intro \<open>preservation of component invariants by single operations\<close>
named_theorems op_simps \<open>behaviour of component operations on their branches\<close>

section \<open>Double-precision comparisons\<close>

text \<open>
  The sources compare doubles with literals.  A finite double is a rational, so
  the model keeps the exact value; the comparisons with NaN are all false.
\<close>

datatype f64 = NaN | NegInf | PosInf | Fin rat

fun f64_ge :: "f64 \<Rightarrow> rat \<Rightarrow> bool" where
  "f64_ge NaN c = False"
| "f64_ge NegInf c = False"
| "f64_ge PosInf c = True"
| "f64_ge (Fin q) c = (q \<ge> c)"

fun f64_lt :: "f64 \<Rightarrow> rat \<Rightarrow> bool" where
  "f64_lt NaN c = False"
| "f64_lt NegInf c = True"
| "f64_lt PosInf c = False"
| "f64_lt (Fin q) c = (q < c)"

fun f64_le :: "f64 \<Rightarrow> f64 \<Rightarrow> bool" where
  "f64_le NaN _ = False"
| "f64_le _ NaN = False"
| "f64_le NegInf _ = True"
| "f64_le _ PosInf = True"
| "f64_le (Fin p) (Fin q) = (p \<le> q)"
| "f64_le _ _ = False"

lemma f64_ge_mono: "f64_le x y \<Longrightarrow> f64_ge x c \<Longrightarrow> f64_ge y c"
  by (cases x; cases y) auto

lemma f64_lt_mono: "f64_le x y \<Longrightarrow> f64_lt y c \<Longrightarrow> f64_lt x c"
  by (cases x; cases y) auto

lemma f64_lt_not_ge: "f64_lt x c \<Longrightarrow> c \<le> d \<Longrightarrow> \<not> f64_ge x d"
  by (cases x) auto

lemma f64_ge_weaken: "f64_ge x d \<Longrightarrow> c \<le> d \<Longrightarrow> f64_ge x c"
  by (cases x) auto

lemma f64_le_not_NaN: "f64_le x y \<Longrightarrow> f64_lt x c \<or> f64_ge x c" "f64_le x y \<Longrightarrow> f64_lt y c \<or> f64_ge y c"
  by (cases x; cases y; force)+

section \<open>Rounding to double precision\<close>

text \<open>
  The double nearest to a rational, ties to even, for magnitudes in the normal range: the
  significand keeps 53 bits.
\<close>

definition pow2 :: "int \<Rightarrow> rat" where
  "pow2 e = (if 0 \<le> e then 2 ^ nat e else 1 / 2 ^ nat (- e))"

function bit_length :: "int \<Rightarrow> int" where
  "bit_length n = (if n \<le> 0 then 0 else 1 + bit_length (n div 2))"
  by pat_completeness auto
termination
  by (relation "measure nat") auto

declare bit_length.simps [simp del]

definition flog2 :: "rat \<Rightarrow> int" where
  "flog2 q =
    (let (n, d) = quotient_of q; k = bit_length n - bit_length d
     in if q < pow2 k then k - 1 else k)"

definition round_even :: "rat \<Rightarrow> int" where
  "round_even q =
    (let f = floor q; r = q - of_int f in if r < 1 / 2 \<or> (r = 1 / 2 \<and> even f) then f else f + 1)"

definition f64_round :: "rat \<Rightarrow> rat" where
  "f64_round q =
    (if q = 0 then 0
     else let e = flog2 \<bar>q\<bar> - 52 in sgn q * of_int (round_even (\<bar>q\<bar> / pow2 e)) * pow2 e)"

definition f64_of_nat :: "nat \<Rightarrow> rat" where
  "f64_of_nat n = f64_round (of_nat n)"

section \<open>Words and masks\<close>

unbundle bit_operations_syntax

lemma nat_and_pow2_minus_1: "(n::nat) AND (2 ^ k - 1) = n mod 2 ^ k"
  by (simp add: take_bit_eq_mod [symmetric] take_bit_eq_mask mask_eq_exp_minus_1)

lemma unat_add_one_less:
  "unat (w::'a::len word) < 2 ^ LENGTH('a) - 1 \<Longrightarrow> unat (w + 1) = unat w + 1"
  by (simp add: unat_word_ariths)

section \<open>Batches\<close>

text \<open>Runs an operation over a list of arguments, threading the state and collecting the results.\<close>

fun map_state :: "('a \<Rightarrow> 's \<Rightarrow> 'b \<times> 's) \<Rightarrow> 'a list \<Rightarrow> 's \<Rightarrow> 'b list \<times> 's" where
  "map_state f [] s = ([], s)"
| "map_state f (x # xs) s =
    (fst (f x s) # fst (map_state f xs (snd (f x s))), snd (map_state f xs (snd (f x s))))"

lemma map_state_append:
  "fst (map_state f (xs @ ys) s) = fst (map_state f xs s) @ fst (map_state f ys (snd (map_state f xs s)))"
  "snd (map_state f (xs @ ys) s) = snd (map_state f ys (snd (map_state f xs s)))"
  by (induction xs arbitrary: s) auto

lemma length_map_state [simp]: "length (fst (map_state f xs s)) = length xs"
  by (induction xs arbitrary: s) auto

lemma map_state_invariant:
  assumes "\<And>x s. I s \<Longrightarrow> I (snd (f x s))" "I s"
  shows "I (snd (map_state f xs s))"
  using assms(2) by (induction xs arbitrary: s) (auto intro: assms(1))

end
