(* ===== verification/Precision.thy ===== *)
theory Precision
  imports Prelude
begin

text \<open>
  The precision crate: the packed policy word of a KV block
  (\<open>precision/src/policy.rs\<close>), the memory-pressure hysteresis machine
  (\<open>hysteresis.rs\<close>), the per-layer sensitivity table (\<open>lut.rs\<close>) and the
  allocation-time predictor (\<open>predictor.rs\<close>).
\<close>

section \<open>Policy words\<close>

datatype PrecisionLevel = Fp16 | Fp8 | Fp8Residual | Pruned

definition PrecisionLevel_from_u8 :: "u8 \<Rightarrow> PrecisionLevel" where
  "PrecisionLevel_from_u8 v =
     (if v = 0 then Fp16 else if v = 1 then Fp8 else if v = 2 then Fp8Residual else Pruned)"

text \<open>The cast \<open>precision as u32\<close> of the \<open>repr(u8)\<close> enumeration.\<close>

primrec PrecisionLevel_as_u32 :: "PrecisionLevel \<Rightarrow> u32" where
  "PrecisionLevel_as_u32 Fp16 = 0"
| "PrecisionLevel_as_u32 Fp8 = 1"
| "PrecisionLevel_as_u32 Fp8Residual = 2"
| "PrecisionLevel_as_u32 Pruned = 3"

datatype PackedBlockPolicy = PackedBlockPolicy (policy_word: u32)

definition PackedBlockPolicy_new :: "PrecisionLevel \<Rightarrow> bool \<Rightarrow> u32 \<Rightarrow> PackedBlockPolicy" where
  "PackedBlockPolicy_new precision residual head_mask =
     (let p_bits = PrecisionLevel_as_u32 precision;
          r_bit = (if residual then 1 else 0);
          mask = head_mask AND 0xFFFFFF
      in PackedBlockPolicy (p_bits OR push_bit 2 r_bit OR push_bit 8 mask))"

definition policy_from_raw :: "u32 \<Rightarrow> PackedBlockPolicy" where
  "policy_from_raw r = PackedBlockPolicy r"

definition policy_precision :: "PackedBlockPolicy \<Rightarrow> PrecisionLevel" where
  "policy_precision p = PrecisionLevel_from_u8 (ucast (policy_word p AND 0x3))"

definition policy_use_residual :: "PackedBlockPolicy \<Rightarrow> bool" where
  "policy_use_residual p \<longleftrightarrow> drop_bit 2 (policy_word p) AND 1 = 1"

definition policy_head_mask :: "PackedBlockPolicy \<Rightarrow> u32" where
  "policy_head_mask p = drop_bit 8 (policy_word p) AND 0xFFFFFF"

definition policy_raw :: "PackedBlockPolicy \<Rightarrow> u32" where
  "policy_raw p = policy_word p"

record LayerSensitivityProfile =
  base_bonus :: u8
  is_critical :: bool
  can_prune :: bool

section \<open>Memory-pressure hysteresis\<close>

datatype MemoryPressureState = Nominal | Elevated | Critical

text \<open>The thresholds are the doubles the literals 0.70, 0.78, 0.82 and 0.88 denote.\<close>

definition thr_070 :: rat where "thr_070 = 3152519739159347 / 4503599627370496"
definition thr_078 :: rat where "thr_078 = 3512807709348987 / 4503599627370496"
definition thr_082 :: rat where "thr_082 = 7385903388887613 / 9007199254740992"
definition thr_088 :: rat where "thr_088 = 7926335344172073 / 9007199254740992"

fun MemoryPressureState_update :: "MemoryPressureState \<Rightarrow> f64 \<Rightarrow> MemoryPressureState" where
  "MemoryPressureState_update Nominal mu =
     (if f64_ge mu thr_088 then Critical else if f64_ge mu thr_078 then Elevated else Nominal)"
| "MemoryPressureState_update Elevated mu =
     (if f64_ge mu thr_088 then Critical else if f64_lt mu thr_070 then Nominal else Elevated)"
| "MemoryPressureState_update Critical mu =
     (if f64_lt mu thr_082 then Elevated else Critical)"

primrec MemoryPressureState_as_u8 :: "MemoryPressureState \<Rightarrow> u8" where
  "MemoryPressureState_as_u8 Nominal = 0"
| "MemoryPressureState_as_u8 Elevated = 1"
| "MemoryPressureState_as_u8 Critical = 2"

text \<open>The derived order of the Rust enumeration.\<close>

instantiation MemoryPressureState :: linorder
begin

definition less_eq_MemoryPressureState :: "MemoryPressureState \<Rightarrow> MemoryPressureState \<Rightarrow> bool" where
  "less_eq_MemoryPressureState a b \<longleftrightarrow> MemoryPressureState_as_u8 a \<le> MemoryPressureState_as_u8 b"

definition less_MemoryPressureState :: "MemoryPressureState \<Rightarrow> MemoryPressureState \<Rightarrow> bool" where
  "less_MemoryPressureState a b \<longleftrightarrow> MemoryPressureState_as_u8 a < MemoryPressureState_as_u8 b"

instance
proof
  fix a b :: MemoryPressureState
  show "a \<le> b \<Longrightarrow> b \<le> a \<Longrightarrow> a = b"
    by (cases a; cases b) (simp_all add: less_eq_MemoryPressureState_def word_le_nat_alt)
qed (auto simp: less_eq_MemoryPressureState_def less_MemoryPressureState_def)

end

section \<open>Layer table and predictor\<close>

definition layer_profile :: "nat \<Rightarrow> nat \<Rightarrow> LayerSensitivityProfile" where
  "layer_profile total_layers l =
     \<lparr>base_bonus = (if l < 4 \<or> l \<ge> total_layers - 4 then 1 else 0),
      is_critical = (l < 2 \<or> l \<ge> total_layers - 2),
      can_prune = (l \<ge> total_layers div 4 \<and> l \<le> (3 * total_layers) div 4)\<rparr>"

definition build_layer_profiles :: "nat \<Rightarrow> LayerSensitivityProfile list" where
  "build_layer_profiles total_layers = map (layer_profile total_layers) [0..<total_layers]"

definition SINK_WINDOW :: u64 where "SINK_WINDOW = 16"
definition LOCAL_WINDOW :: u64 where "LOCAL_WINDOW = 64"
definition FULL_HEAD_MASK :: u32 where "FULL_HEAD_MASK = 0xFFFFFF"

record Predictor =
  profiles :: "LayerSensitivityProfile list"
  sink_window :: u64
  local_window :: u64

definition Predictor_new :: "nat \<Rightarrow> Predictor" where
  "Predictor_new total_layers =
     \<lparr>profiles = build_layer_profiles total_layers, sink_window = SINK_WINDOW,
      local_window = LOCAL_WINDOW\<rparr>"

definition Predictor_with_windows :: "nat \<Rightarrow> u64 \<Rightarrow> u64 \<Rightarrow> Predictor" where
  "Predictor_with_windows total_layers sink local =
     \<lparr>profiles = build_layer_profiles total_layers, sink_window = sink, local_window = local\<rparr>"

text \<open>
  \<open>predict\<close>: \<open>None\<close> is the out-of-bounds panic of \<open>self.profiles[layer_idx]\<close>.  The
  subtraction \<open>seq_len - token_start\<close> is the wrapping one of the release profile.
\<close>

definition predict ::
  "Predictor \<Rightarrow> nat \<Rightarrow> u64 \<Rightarrow> u64 \<Rightarrow> MemoryPressureState \<Rightarrow> u32 \<Rightarrow> bool \<Rightarrow> PackedBlockPolicy option"
where
  "predict self layer_idx token_start seq_len h_mem head_mask retrieval_flag =
    (if token_start < sink_window self \<or> seq_len - token_start < local_window self
     then Some (PackedBlockPolicy_new Fp16 False FULL_HEAD_MASK)
     else if layer_idx \<ge> length (profiles self) then None
     else
       (let prof = profiles self ! layer_idx in
        if is_critical prof
        then Some (PackedBlockPolicy_new (if h_mem = Critical then Fp8 else Fp16) False FULL_HEAD_MASK)
        else
          (let score = uint (base_bonus prof) + (if retrieval_flag then 2 else 0);
               precision =
                 (if score \<ge> 3 then (if h_mem = Nominal then Fp16 else Fp8Residual)
                  else if score = 0 \<and> h_mem = Critical \<and> can_prune prof then Pruned
                  else Fp8);
               use_residual = (precision = Fp8Residual);
               active_mask =
                 (if precision = Pruned then head_mask AND FULL_HEAD_MASK else FULL_HEAD_MASK)
           in Some (PackedBlockPolicy_new precision use_residual active_mask))))"

text \<open>\<open>predict_batch\<close>: \<open>None\<close> is a failed length assertion or a panic of one prediction.\<close>

definition predict_batch ::
  "Predictor \<Rightarrow> nat \<Rightarrow> u64 list \<Rightarrow> u64 \<Rightarrow> MemoryPressureState \<Rightarrow> u32 list \<Rightarrow> bool list
   \<Rightarrow> PackedBlockPolicy list option"
where
  "predict_batch self layer_idx token_starts seq_len h_mem head_masks retrieval_flags =
    (if length token_starts \<noteq> length head_masks \<or> length token_starts \<noteq> length retrieval_flags
     then None
     else those (map (\<lambda>((ts, hm), rf). predict self layer_idx ts seq_len h_mem hm rf)
                  (zip (zip token_starts head_masks) retrieval_flags)))"

section \<open>Lemmas\<close>

lemma u32_masks:
  "(0xFFFFFF::u32) = mask 24" "(0xF8::u32) = push_bit 3 (mask 5)"
  by (simp_all add: mask_eq_exp_minus_1 push_bit_eq_mult)

lemma bit_3_iff [simp]: "bit (3::int) n \<longleftrightarrow> n < 2"
proof -
  have "(3::int) = mask 2"
    by (simp add: mask_eq_exp_minus_1)
  show ?thesis
    unfolding \<open>3 = mask 2\<close> by (simp add: bit_mask_iff)
qed

lemma as_u32_in [simp]: "PrecisionLevel_as_u32 p \<in> {0, 1, 2, 3}"
  by (cases p) simp_all

definition packed_word :: "u32 \<Rightarrow> bool \<Rightarrow> u32 \<Rightarrow> u32" where
  "packed_word p r m = p OR push_bit 2 (if r then 1 else 0) OR push_bit 8 (m AND 0xFFFFFF)"

lemma policy_new_word:
  "policy_word (PackedBlockPolicy_new p r m) = packed_word (PrecisionLevel_as_u32 p) r m"
  by (simp add: PackedBlockPolicy_new_def packed_word_def Let_def)

lemma packed_fields:
  assumes "p \<in> {0, 1, 2, 3}"
  shows "packed_word p r m AND 3 = p"
    and "drop_bit 2 (packed_word p r m) AND 1 = (if r then 1 else 0)"
    and "drop_bit 8 (packed_word p r m) AND 0xFFFFFF = m AND 0xFFFFFF"
    and "packed_word p r m AND 0xF8 = 0"
  unfolding packed_word_def u32_masks
  using assms by - (rule bit_word_eqI; auto simp: bit_simps)+

lemma from_u8_as_u32 [simp]:
  "PrecisionLevel_from_u8 (ucast (PrecisionLevel_as_u32 p)) = p"
  by (cases p) (simp_all add: PrecisionLevel_from_u8_def)

lemma policy_new_fields [simp]:
  "policy_precision (PackedBlockPolicy_new p r m) = p"
  "policy_use_residual (PackedBlockPolicy_new p r m) = r"
  "policy_head_mask (PackedBlockPolicy_new p r m) = m AND 0xFFFFFF"
  by (simp_all add: policy_precision_def policy_use_residual_def policy_head_mask_def
      policy_new_word packed_fields [OF as_u32_in])

text \<open>
  Packing a policy and reading it back returns the precision level, the residual
  flag and the low 24 bits of the head mask, and the reserved bits 3 to 7 are zero.
\<close>

theorem policy_roundtrip:
  "policy_precision (policy_from_raw (policy_raw (PackedBlockPolicy_new p r m))) = p \<and>
   policy_use_residual (policy_from_raw (policy_raw (PackedBlockPolicy_new p r m))) = r \<and>
   policy_head_mask (policy_from_raw (policy_raw (PackedBlockPolicy_new p r m))) = m AND 0xFFFFFF \<and>
   policy_raw (PackedBlockPolicy_new p r m) AND 0xF8 = 0"
proof -
  have "policy_from_raw (policy_raw q) = q" for q
    by (simp add: policy_from_raw_def policy_raw_def)
  then show ?thesis
    by (simp add: policy_raw_def) (simp add: policy_new_word packed_fields [OF as_u32_in])
qed

lemmas pressure_order_simps = less_eq_MemoryPressureState_def less_MemoryPressureState_def word_le_nat_alt
  word_less_nat_alt

lemma thresholds_ordered: "thr_070 \<le> thr_078" "thr_078 \<le> thr_082" "thr_082 \<le> thr_088"
  by (simp_all add: thr_070_def thr_078_def thr_082_def thr_088_def)

lemma update_mono:
  assumes "s \<le> t" "f64_le mu nu"
  shows "MemoryPressureState_update s mu \<le> MemoryPressureState_update t nu"
  using assms thresholds_ordered
  by (cases s; cases t; cases mu; cases nu) (auto simp: pressure_order_simps)

text \<open>
  C38: the hysteresis machine is monotone over whole traces.  Two runs that start in
  ordered states and see pointwise ordered pressure readings end in ordered states.
\<close>

theorem hysteresis_trace_mono:
  assumes "s \<le> t" "list_all2 f64_le mus nus"
  shows "foldl MemoryPressureState_update s mus \<le> foldl MemoryPressureState_update t nus"
  using assms(2,1)
  by (induction mus nus arbitrary: s t rule: list_all2_induct) (simp_all add: update_mono)

theorem hysteresis_trace_mono_witness:
  "foldl MemoryPressureState_update Nominal [Fin (4/5), Fin (3/4)]
     \<le> foldl MemoryPressureState_update Elevated [Fin (9/10), Fin (3/4)]"
  by (rule hysteresis_trace_mono) (simp_all add: pressure_order_simps)

text \<open>
  The dead band.  While every reading lies in the band from 0.70 up to (not
  including) 0.78, a nominal node stays nominal and an elevated node stays elevated;
  a critical node drops to elevated at the first reading and stays there.  A node
  never falls from critical to nominal in one update, whatever the reading.
\<close>

theorem hysteresis_dead_band:
  assumes "\<forall>mu \<in> set mus. f64_ge mu thr_070 \<and> f64_lt mu thr_078"
  shows "foldl MemoryPressureState_update s mus = (if s = Critical \<and> mus \<noteq> [] then Elevated else s)
         \<and> MemoryPressureState_update Critical nu \<noteq> Nominal"
proof -
  have step: "MemoryPressureState_update t mu = (if t = Critical then Elevated else t)"
    if "f64_ge mu thr_070" "f64_lt mu thr_078" for t mu
    using that thresholds_ordered by (cases t; cases mu) auto
  show ?thesis
    using assms by (induction mus arbitrary: s) (auto simp: step)
qed

theorem hysteresis_dead_band_witness:
  "foldl MemoryPressureState_update Critical [Fin (3/4), Fin (71/100)] = Elevated"
  using hysteresis_dead_band [of "[Fin (3/4), Fin (71/100)]" Critical]
  by (simp add: thr_070_def thr_078_def)

subsection \<open>The predictor\<close>

lemma build_layer_profiles_nth [simp]:
  "l < n \<Longrightarrow> build_layer_profiles n ! l = layer_profile n l"
  "length (build_layer_profiles n) = n"
  by (simp_all add: build_layer_profiles_def)

text \<open>The precision a predictor built by \<open>with_windows\<close> chooses outside the lossless windows.\<close>

definition scored_precision :: "nat \<Rightarrow> nat \<Rightarrow> MemoryPressureState \<Rightarrow> bool \<Rightarrow> PrecisionLevel" where
  "scored_precision n l h rf =
     (if l < 2 \<or> n - 2 \<le> l then (if h = Critical then Fp8 else Fp16)
      else if l < 4 \<or> n - 4 \<le> l
      then (if rf then (if h = Nominal then Fp16 else Fp8Residual) else Fp8)
      else if \<not> rf \<and> h = Critical \<and> n div 4 \<le> l \<and> l \<le> 3 * n div 4 then Pruned
      else Fp8)"

lemma full_mask_and [simp]: "FULL_HEAD_MASK AND 0xFFFFFF = FULL_HEAD_MASK"
  by (simp add: FULL_HEAD_MASK_def)

lemma predict_with_windows:
  assumes "l < n"
  shows "predict (Predictor_with_windows n sw lw) l ts sl h hm rf =
    (let p = (if ts < sw \<or> sl - ts < lw then Fp16 else scored_precision n l h rf)
     in Some (PackedBlockPolicy_new p (p = Fp8Residual)
               (if p = Pruned then hm AND FULL_HEAD_MASK else FULL_HEAD_MASK)))"
  using assms
  by (simp add: predict_def Predictor_with_windows_def layer_profile_def scored_precision_def Let_def)

lemma Predictor_new_windows: "Predictor_new n = Predictor_with_windows n SINK_WINDOW LOCAL_WINDOW"
  by (simp add: Predictor_new_def Predictor_with_windows_def)

text \<open>
  For a layer of the model, \<open>predict\<close> never panics, and its policy is safe.  In the
  sink and local windows it is lossless; the first and last two layers are never pruned
  and never carry a residual; a block is pruned only under critical pressure, without a
  retrieval head, in the middle half and outside the four boundary layers at each end;
  the residual bit is set exactly for the residual level; and the head mask is the full
  one except for a pruned block, which keeps the low 24 bits of the given mask.
\<close>

theorem predict_safe:
  assumes "l < n"
  shows "\<exists>pol. predict (Predictor_with_windows n sw lw) l ts sl h hm rf = Some pol \<and>
    (ts < sw \<or> sl - ts < lw \<longrightarrow> policy_precision pol = Fp16) \<and>
    (l < 2 \<or> n - 2 \<le> l \<longrightarrow> policy_precision pol \<in> {Fp16, Fp8}) \<and>
    (policy_precision pol = Pruned \<longrightarrow>
       h = Critical \<and> \<not> rf \<and> n div 4 \<le> l \<and> l \<le> 3 * n div 4 \<and> 4 \<le> l \<and> l < n - 4) \<and>
    (policy_use_residual pol \<longleftrightarrow> policy_precision pol = Fp8Residual) \<and>
    policy_head_mask pol = (if policy_precision pol = Pruned then hm AND FULL_HEAD_MASK else FULL_HEAD_MASK)"
  unfolding predict_with_windows [OF assms] Let_def
  by (auto simp: scored_precision_def FULL_HEAD_MASK_def and.assoc)

theorem predict_safe_witness:
  "\<exists>pol. predict (Predictor_with_windows 32 16 64) 16 100 1000 Critical 0xFF000003 False = Some pol \<and>
     policy_head_mask pol = (if policy_precision pol = Pruned then 0xFF000003 AND FULL_HEAD_MASK
                             else FULL_HEAD_MASK)"
  using predict_safe [of 16 32 16 64 100 1000 Critical "0xFF000003" False] by auto

primrec precision_rank :: "PrecisionLevel \<Rightarrow> nat" where
  "precision_rank Pruned = 0"
| "precision_rank Fp8 = 1"
| "precision_rank Fp8Residual = 2"
| "precision_rank Fp16 = 3"

text \<open>
  Rising memory pressure never raises the precision of a block.  With the same
  position, heads and layer, a higher pressure state gives a precision of the same or
  a lower rank.
\<close>

theorem predict_antimono_pressure:
  assumes "h \<le> h'"
    and "predict (Predictor_new n) l ts sl h hm rf = Some pol"
    and "predict (Predictor_new n) l ts sl h' hm rf = Some pol'"
  shows "precision_rank (policy_precision pol') \<le> precision_rank (policy_precision pol)"
proof (cases "l < n")
  case True
  have "precision_rank (scored_precision n l h' rf) \<le> precision_rank (scored_precision n l h rf)"
    using assms(1) by (cases h; cases h') (simp_all add: scored_precision_def pressure_order_simps)
  with assms(2,3) show ?thesis
    unfolding Predictor_new_windows predict_with_windows [OF True]
    by (auto simp: Let_def)
next
  case False
  with assms(2,3) show ?thesis
    by (auto simp: predict_def Predictor_new_def split: if_splits)
qed

theorem predict_antimono_pressure_witness:
  "precision_rank (policy_precision (PackedBlockPolicy_new Pruned False 3))
     \<le> precision_rank (policy_precision (PackedBlockPolicy_new Fp8 False FULL_HEAD_MASK))"
proof (rule predict_antimono_pressure [of Nominal Critical 32 16 100 1000 3 False])
  show "Nominal \<le> Critical"
    by (simp add: pressure_order_simps)
qed (simp_all add: Predictor_new_windows predict_with_windows scored_precision_def SINK_WINDOW_def
      LOCAL_WINDOW_def FULL_HEAD_MASK_def Let_def)

lemma those_map_Some: "those (map f xs) = Some ys \<longleftrightarrow> list_all2 (\<lambda>x y. f x = Some y) xs ys"
  by (induction xs arbitrary: ys) (auto split: option.splits simp: list_all2_Cons1)

text \<open>
  A batch prediction is the pointwise prediction.  With slices of equal length and a
  layer of the model the batch returns one policy per block, and the policy at each
  position is the one \<open>predict\<close> returns for that block alone.
\<close>

theorem predict_batch_pointwise:
  assumes "l < n" "length hms = length tss" "length rfs = length tss"
  shows "\<exists>pols. predict_batch (Predictor_new n) l tss sl h hms rfs = Some pols \<and>
    length pols = length tss \<and>
    (\<forall>i < length tss. predict (Predictor_new n) l (tss ! i) sl h (hms ! i) (rfs ! i) = Some (pols ! i))"
proof -
  let ?f = "\<lambda>((ts, hm), rf). predict (Predictor_new n) l ts sl h hm rf"
  let ?xs = "zip (zip tss hms) rfs"
  have "\<exists>y. ?f x = Some y" for x
    unfolding Predictor_new_windows by (cases x) (auto simp: predict_with_windows [OF assms(1)] Let_def)
  then obtain g where g: "\<And>x. ?f x = Some (g x)"
    by metis
  have "those (map ?f ?xs) = Some (map g ?xs)"
    unfolding those_map_Some by (simp add: g list_all2_conv_all_nth del: split_paired_All)
  moreover have "predict (Predictor_new n) l (tss ! i) sl h (hms ! i) (rfs ! i) = Some (map g ?xs ! i)"
    if "i < length tss" for i
    using g [of "((tss ! i, hms ! i), rfs ! i)"] that assms(2,3) by simp
  ultimately show ?thesis
    using assms(2,3) by (simp add: predict_batch_def)
qed

theorem predict_batch_pointwise_witness:
  "\<exists>pols. predict_batch (Predictor_new 8) 3 [0, 100] 1000 Elevated [1, 2] [True, False] = Some pols \<and>
     length pols = 2"
  using predict_batch_pointwise [of 3 8 "[1, 2]" "[0, 100]" "[True, False]" 1000 Elevated] by auto

end
