(* ===== verification/Kv_Block.thy ===== *)
theory Kv_Block
  imports Precision
begin

text \<open>
  The block types of the store crate: block keys, headers and blocks with their
  checksum discipline (\<open>store/src/kv_block.rs\<close>), and the PSP-KV format tags and
  sidecar descriptors (\<open>store/src/psp_kv.rs\<close>).  The CRC32 function of \<open>crc32fast\<close>,
  the bincode encoder and decoder and the system allocator are parameters.
\<close>

section \<open>PSP-KV layouts\<close>

datatype PspKvFormat = Basic | Enhanced | BtKv

definition PspKvFormat_from_u8 :: "u8 \<Rightarrow> PspKvFormat" where
  "PspKvFormat_from_u8 v =
     (if v = 0 then Basic else if v = 1 then Enhanced else if v = 2 then BtKv else Basic)"

record PspKvSidecarDescriptor =
  data_page_base_ptr :: u64
  residual_page_ptr :: u64
  head_presence_mask :: u64
  base_precision :: u8
  compression_level :: u8
  head_group_size :: u8
  reserved_flags :: u8
  per_head_scale_e8m0 :: "u8 list"
  reserved_padding :: "u8 list"

definition sidecar_default :: PspKvSidecarDescriptor where
  "sidecar_default =
     \<lparr>data_page_base_ptr = 0, residual_page_ptr = 0, head_presence_mask = 0xFFFFFFFFFFFFFFFF,
      base_precision = 0, compression_level = 0, head_group_size = 1, reserved_flags = 0,
      per_head_scale_e8m0 = replicate 8 0, reserved_padding = replicate 28 0\<rparr>"

record BtKvTileContainer =
  quantized_data :: "u8 list"
  scale_exponents :: "u8 list"
  group_size :: nat

definition BtKvTileContainer_new :: "u8 list \<Rightarrow> u8 list \<Rightarrow> nat \<Rightarrow> BtKvTileContainer" where
  "BtKvTileContainer_new q s g = \<lparr>quantized_data = q, scale_exponents = s, group_size = g\<rparr>"

definition BtKvTileContainer_size_bytes :: "BtKvTileContainer \<Rightarrow> nat" where
  "BtKvTileContainer_size_bytes c = length (quantized_data c) + length (scale_exponents c)"

section \<open>Keys, headers and buffers\<close>

datatype KvBlockKey = KvBlockKey (namespace_id: u64) (block_id: u64)

definition KvBlockKey_new :: "u64 \<Rightarrow> u64 \<Rightarrow> KvBlockKey" where
  "KvBlockKey_new n b = KvBlockKey n b"

text \<open>The derived lexicographic order on keys.\<close>

instantiation KvBlockKey :: linorder
begin

definition less_eq_KvBlockKey :: "KvBlockKey \<Rightarrow> KvBlockKey \<Rightarrow> bool" where
  "less_eq_KvBlockKey a b \<longleftrightarrow>
     namespace_id a < namespace_id b \<or> namespace_id a = namespace_id b \<and> block_id a \<le> block_id b"

definition less_KvBlockKey :: "KvBlockKey \<Rightarrow> KvBlockKey \<Rightarrow> bool" where
  "less_KvBlockKey a b \<longleftrightarrow>
     namespace_id a < namespace_id b \<or> namespace_id a = namespace_id b \<and> block_id a < block_id b"

instance
  by standard (auto simp: less_eq_KvBlockKey_def less_KvBlockKey_def KvBlockKey.expand)

end

record KvBlockHeader =
  hdr_key :: KvBlockKey
  hdr_payload_len :: u32
  hdr_checksum :: u32
  hdr_flags :: u32

datatype 'e KvBlockError =
    AllocationFailed nat nat
  | OutOfBounds nat nat nat
  | ChecksumMismatch u32 u32
  | SerializationFailed 'e
  | InvalidBlockPointer

record RawBlockBuffer =
  rb_bytes :: "u8 list"
  rb_align :: nat

text \<open>\<open>usize::is_power_of_two\<close>: exactly one bit is set.\<close>

definition is_power_of_two :: "nat \<Rightarrow> bool" where
  "is_power_of_two n \<longleftrightarrow> n \<noteq> 0 \<and> n AND (n - 1) = 0"

text \<open>
  \<open>allocate\<close>: the allocator parameter says whether a layout is granted; \<open>Layout\<close>
  itself refuses a size that exceeds \<open>isize::MAX\<close> when rounded up to the alignment.
\<close>

definition RawBlockBuffer_allocate ::
  "(nat \<Rightarrow> nat \<Rightarrow> bool) \<Rightarrow> nat \<Rightarrow> nat \<Rightarrow> ('e KvBlockError, RawBlockBuffer) result" where
  "RawBlockBuffer_allocate alloc sz align =
     (if \<not> is_power_of_two align then Err (AllocationFailed sz align)
      else if sz = 0 then Err (AllocationFailed sz align)
      else if sz > 2 ^ 63 - align then Err (AllocationFailed sz align)
      else if \<not> alloc sz align then Err (AllocationFailed sz align)
      else Ok \<lparr>rb_bytes = replicate sz 0, rb_align = align\<rparr>)"

definition RawBlockBuffer_capacity :: "RawBlockBuffer \<Rightarrow> nat" where
  "RawBlockBuffer_capacity b = length (rb_bytes b)"

section \<open>Blocks\<close>

record KvBlock =
  kb_header :: KvBlockHeader
  kb_payload :: "u8 list"
  kb_ref_count :: u32
  kb_precision_policy :: "PackedBlockPolicy option"
  kb_sidecar :: "PspKvSidecarDescriptor option"

type_synonym wire_block =
  "KvBlockHeader \<times> u8 list \<times> PackedBlockPolicy option \<times> PspKvSidecarDescriptor option"

definition KvBlock_new :: "(u8 list \<Rightarrow> u32) \<Rightarrow> KvBlockKey \<Rightarrow> u8 list \<Rightarrow> KvBlock" where
  "KvBlock_new crc key payload =
     \<lparr>kb_header = \<lparr>hdr_key = key, hdr_payload_len = of_nat (length payload),
                    hdr_checksum = crc payload, hdr_flags = 0\<rparr>,
      kb_payload = payload, kb_ref_count = 1, kb_precision_policy = None, kb_sidecar = None\<rparr>"

definition KvBlock_new_with_policy ::
  "(u8 list \<Rightarrow> u32) \<Rightarrow> KvBlockKey \<Rightarrow> u8 list \<Rightarrow> PackedBlockPolicy option
   \<Rightarrow> PspKvSidecarDescriptor option \<Rightarrow> KvBlock" where
  "KvBlock_new_with_policy crc key payload pol sc =
     (KvBlock_new crc key payload)\<lparr>kb_precision_policy := pol, kb_sidecar := sc\<rparr>"

definition verify_checksum :: "(u8 list \<Rightarrow> u32) \<Rightarrow> KvBlock \<Rightarrow> ('e KvBlockError, unit) result" where
  "verify_checksum crc b =
     (let computed = crc (kb_payload b) in
      if computed \<noteq> hdr_checksum (kb_header b)
      then Err (ChecksumMismatch (hdr_checksum (kb_header b)) computed)
      else Ok ())"

text \<open>
  \<open>payload_mut\<close> hands out a mutable slice: the caller can change the bytes but not the
  length.  The model applies the caller's update and keeps the length.
\<close>

definition payload_mut :: "(u8 list \<Rightarrow> u8 list) \<Rightarrow> KvBlock \<Rightarrow> KvBlock" where
  "payload_mut f b =
     (let p = f (kb_payload b) in
      if length p = length (kb_payload b) then b\<lparr>kb_payload := p\<rparr> else b)"

definition update_checksum :: "(u8 list \<Rightarrow> u32) \<Rightarrow> KvBlock \<Rightarrow> KvBlock" where
  "update_checksum crc b =
     b\<lparr>kb_header := (kb_header b)\<lparr>hdr_checksum := crc (kb_payload b),
                                    hdr_payload_len := of_nat (length (kb_payload b))\<rparr>\<rparr>"

definition set_precision_policy :: "PackedBlockPolicy option \<Rightarrow> KvBlock \<Rightarrow> KvBlock" where
  "set_precision_policy p b = b\<lparr>kb_precision_policy := p\<rparr>"

definition set_sidecar :: "PspKvSidecarDescriptor option \<Rightarrow> KvBlock \<Rightarrow> KvBlock" where
  "set_sidecar s b = b\<lparr>kb_sidecar := s\<rparr>"

definition retain :: "KvBlock \<Rightarrow> KvBlock" where
  "retain b = b\<lparr>kb_ref_count := kb_ref_count b + 1\<rparr>"

text \<open>\<open>release\<close> returns the counter before the decrement.\<close>

definition release :: "KvBlock \<Rightarrow> u32 \<times> KvBlock" where
  "release b = (kb_ref_count b, b\<lparr>kb_ref_count := kb_ref_count b - 1\<rparr>)"

definition KvBlock_serialize ::
  "(wire_block \<Rightarrow> ('e, u8 list) result) \<Rightarrow> KvBlock \<Rightarrow> ('e KvBlockError, u8 list) result" where
  "KvBlock_serialize ser b =
     (case ser (kb_header b, kb_payload b, kb_precision_policy b, kb_sidecar b) of
        Inl e \<Rightarrow> Err (SerializationFailed e) | Inr bytes \<Rightarrow> Ok bytes)"

definition block_of_wire :: "wire_block \<Rightarrow> KvBlock" where
  "block_of_wire w =
     (case w of (h, p, pol, sc) \<Rightarrow>
        \<lparr>kb_header = h, kb_payload = p, kb_ref_count = 1, kb_precision_policy = pol, kb_sidecar = sc\<rparr>)"

definition KvBlock_deserialize ::
  "(u8 list \<Rightarrow> u32) \<Rightarrow> (u8 list \<Rightarrow> ('e, wire_block) result) \<Rightarrow> u8 list
   \<Rightarrow> ('e KvBlockError, KvBlock) result" where
  "KvBlock_deserialize crc deser bytes =
     (case deser bytes of
        Inl e \<Rightarrow> Err (SerializationFailed e)
      | Inr w \<Rightarrow>
          (case verify_checksum crc (block_of_wire w) of
             Inl e \<Rightarrow> Err e | Inr _ \<Rightarrow> Ok (block_of_wire w)))"

fun deserialize_all ::
  "(u8 list \<Rightarrow> u32) \<Rightarrow> wire_block list \<Rightarrow> KvBlock list \<Rightarrow> ('e KvBlockError, KvBlock list) result" where
  "deserialize_all crc [] acc = Ok (rev acc)"
| "deserialize_all crc (w # ws) acc =
     (case verify_checksum crc (block_of_wire w) of
        Inl e \<Rightarrow> Err e | Inr _ \<Rightarrow> deserialize_all crc ws (block_of_wire w # acc))"

definition deserialize_batch ::
  "(u8 list \<Rightarrow> u32) \<Rightarrow> (u8 list \<Rightarrow> ('e, wire_block list) result) \<Rightarrow> u8 list
   \<Rightarrow> ('e KvBlockError, KvBlock list) result" where
  "deserialize_batch crc deser bytes =
     (case deser bytes of
        Inl e \<Rightarrow> Err (SerializationFailed e) | Inr ws \<Rightarrow> deserialize_all crc ws [])"

section \<open>Lemmas\<close>

definition checksum_ok :: "(u8 list \<Rightarrow> u32) \<Rightarrow> KvBlock \<Rightarrow> bool" where
  "checksum_ok crc b \<longleftrightarrow> hdr_checksum (kb_header b) = crc (kb_payload b)"

lemma verify_checksum_eq:
  "verify_checksum crc b =
     (if checksum_ok crc b then Ok ()
      else Err (ChecksumMismatch (hdr_checksum (kb_header b)) (crc (kb_payload b))))"
  by (auto simp: verify_checksum_def checksum_ok_def Let_def)

lemma checksum_ok_intros [simp, inv_intro]:
  "checksum_ok crc (KvBlock_new crc k p)"
  "checksum_ok crc (KvBlock_new_with_policy crc k p pol sc)"
  "checksum_ok crc (update_checksum crc b)"
  "checksum_ok crc (set_precision_policy pol b) = checksum_ok crc b"
  "checksum_ok crc (set_sidecar sc b) = checksum_ok crc b"
  "checksum_ok crc (retain b) = checksum_ok crc b"
  "checksum_ok crc (snd (release b)) = checksum_ok crc b"
  by (simp_all add: checksum_ok_def KvBlock_new_def KvBlock_new_with_policy_def update_checksum_def
      set_precision_policy_def set_sidecar_def retain_def release_def)

text \<open>
  Block transport.  When the decoder inverts the encoder, deserializing a
  serialized block returns the same block with a fresh reference count of one if the
  stored checksum is the CRC of the payload, and otherwise the checksum error that
  carries both values; no block with a wrong checksum is ever returned.
\<close>

theorem block_roundtrip:
  assumes codec: "\<And>w bs. ser w = Inr bs \<Longrightarrow> deser bs = Inr w"
    and bs: "KvBlock_serialize ser b = Ok bs"
  shows "KvBlock_deserialize crc deser bs =
    (if hdr_checksum (kb_header b) = crc (kb_payload b) then Ok (b\<lparr>kb_ref_count := 1\<rparr>)
     else Err (ChecksumMismatch (hdr_checksum (kb_header b)) (crc (kb_payload b))))"
proof -
  have "ser (kb_header b, kb_payload b, kb_precision_policy b, kb_sidecar b) = Inr bs"
    using bs by (auto simp: KvBlock_serialize_def split: sum.splits)
  from codec [OF this] show ?thesis
    by (simp add: KvBlock_deserialize_def block_of_wire_def verify_checksum_def Let_def)
qed

theorem block_roundtrip_witness:
  "let b = KvBlock_new (\<lambda>p. of_nat (length p)) (KvBlockKey 1 2) [7, 8, 9];
       w0 = (kb_header b, kb_payload b, kb_precision_policy b, kb_sidecar b);
       ser = (\<lambda>w. if w = w0 then Inr [1, 2, 3] else Inl ())
   in KvBlock_deserialize (\<lambda>p. of_nat (length p)) (\<lambda>_. Inr w0) [1, 2, 3]
        = (Ok b :: (unit KvBlockError, KvBlock) result)"
proof -
  let ?b = "KvBlock_new (\<lambda>p. of_nat (length p)) (KvBlockKey 1 2) [7, 8, 9]"
  let ?w = "(kb_header ?b, kb_payload ?b, kb_precision_policy ?b, kb_sidecar ?b)"
  have "KvBlock_deserialize (\<lambda>p. of_nat (length p)) (\<lambda>_. Inr ?w) [1, 2, 3]
      = (if hdr_checksum (kb_header ?b) = of_nat (length (kb_payload ?b))
         then Ok (?b\<lparr>kb_ref_count := 1\<rparr>)
         else Err (ChecksumMismatch (hdr_checksum (kb_header ?b)) (of_nat (length (kb_payload ?b)))
                    :: unit KvBlockError))"
    by (rule block_roundtrip [where ser = "\<lambda>w. if w = ?w then Inr [1, 2, 3] else Inl ()"])
      (auto simp: KvBlock_serialize_def split: if_splits)
  then show ?thesis
    by (simp add: Let_def KvBlock_new_def)
qed

lemma deserialize_all_eq:
  "deserialize_all crc ws acc =
     (case find (\<lambda>w. \<not> checksum_ok crc (block_of_wire w)) ws of
        None \<Rightarrow> Ok (rev acc @ map block_of_wire ws)
      | Some w \<Rightarrow> Err (ChecksumMismatch (hdr_checksum (kb_header (block_of_wire w)))
                        (crc (kb_payload (block_of_wire w)))))"
  by (induction ws arbitrary: acc) (auto simp: verify_checksum_eq split: option.splits)

text \<open>
  A batch is all or nothing.  \<open>deserialize_batch\<close> returns the blocks of the batch in
  order when every one of them passes its checksum, and otherwise the mismatch of the
  first bad block and no blocks at all.
\<close>

theorem deserialize_batch_all_or_nothing:
  "deserialize_batch crc deser bytes =
     (case deser bytes of
        Inl e \<Rightarrow> Err (SerializationFailed e)
      | Inr ws \<Rightarrow>
          (case find (\<lambda>(h, p, pol, sc). hdr_checksum h \<noteq> crc p) ws of
             None \<Rightarrow> Ok (map block_of_wire ws)
           | Some (h, p, pol, sc) \<Rightarrow> Err (ChecksumMismatch (hdr_checksum h) (crc p))))"
proof -
  have "(\<lambda>w. \<not> checksum_ok crc (block_of_wire w)) = (\<lambda>(h, p, pol, sc). hdr_checksum h \<noteq> crc p)"
    by (auto simp: checksum_ok_def block_of_wire_def fun_eq_iff)
  then show ?thesis
    by (auto simp: deserialize_batch_def deserialize_all_eq block_of_wire_def
        split: sum.splits option.splits)
qed

end
