(* ===== verification/Index_Spec.thy ===== *)
theory Index_Spec
  imports Prelude
begin

text \<open>
  The contract of the block indexes: an insertion that succeeds behaves as a map
  update, and where the index has a removal it behaves as a map deletion.  The lemmas
  on sequences of operations are proved once, from the laws alone.
\<close>

locale block_index =
  fixes invar :: "'s \<Rightarrow> bool"
    and ins :: "'k \<Rightarrow> 'v \<Rightarrow> 's \<Rightarrow> 's option"
    and look :: "'s \<Rightarrow> 'k \<Rightarrow> 'v option"
  assumes ins_invar: "invar s \<Longrightarrow> ins k v s = Some s' \<Longrightarrow> invar s'"
    and look_ins: "invar s \<Longrightarrow> ins k v s = Some s' \<Longrightarrow> look s' = (look s)(k \<mapsto> v)"
begin

fun ins_all :: "('k \<times> 'v) list \<Rightarrow> 's \<Rightarrow> 's option" where
  "ins_all [] s = Some s"
| "ins_all ((k, v) # kvs) s = Option.bind (ins k v s) (ins_all kvs)"

lemma ins_all_correct:
  assumes "invar s" "ins_all kvs s = Some s'"
  shows "invar s' \<and> look s' = look s ++ map_of (rev kvs)"
  using assms
proof (induction kvs s rule: ins_all.induct)
  case (2 k v kvs s)
  from 2(3) obtain t where t: "ins k v s = Some t" "ins_all kvs t = Some s'"
    by (auto simp: Option.bind_eq_Some_conv)
  from "2.IH" [OF t(1) ins_invar [OF "2.prems"(1) t(1)] t(2)]
  show ?case
    unfolding look_ins [OF "2.prems"(1) t(1)] by (auto simp: fun_eq_iff map_add_def split: option.splits)
qed simp

lemma ins_overwrites:
  assumes "invar s" "ins k v s = Some s1" "ins k w s1 = Some s2" "ins k w s = Some s3"
  shows "look s2 = look s3"
  using assms(1) look_ins [OF assms(1,2)] look_ins [OF ins_invar [OF assms(1,2)] assms(3)]
    look_ins [OF assms(1,4)]
  by simp

lemma ins_commute:
  assumes "invar s" "k \<noteq> l"
    and "ins k v s = Some s1" "ins l w s1 = Some s2" "ins l w s = Some t1" "ins k v t1 = Some t2"
  shows "look s2 = look t2"
  using look_ins [OF assms(1,3)] look_ins [OF ins_invar [OF assms(1,3)] assms(4)]
    look_ins [OF assms(1,5)] look_ins [OF ins_invar [OF assms(1,5)] assms(6)] assms(2)
  by (simp add: fun_upd_twist)

end

locale block_index_del = block_index invar ins look
  for invar :: "'s \<Rightarrow> bool" and ins :: "'k \<Rightarrow> 'v \<Rightarrow> 's \<Rightarrow> 's option" and look :: "'s \<Rightarrow> 'k \<Rightarrow> 'v option" +
  fixes del :: "'k \<Rightarrow> 's \<Rightarrow> ('v \<times> 's) option"
  assumes del_none: "invar s \<Longrightarrow> del k s = None \<longleftrightarrow> look s k = None"
    and del_val: "invar s \<Longrightarrow> del k s = Some (v, s') \<Longrightarrow> look s k = Some v"
    and del_invar: "invar s \<Longrightarrow> del k s = Some (v, s') \<Longrightarrow> invar s'"
    and look_del: "invar s \<Longrightarrow> del k s = Some (v, s') \<Longrightarrow> look s' = (look s)(k := None)"
begin

lemma ins_del:
  assumes "invar s" "look s k = None" "ins k v s = Some s1"
  shows "\<exists>s2. del k s1 = Some (v, s2) \<and> invar s2 \<and> look s2 = look s"
proof -
  have i1: "invar s1" and l1: "look s1 = (look s)(k \<mapsto> v)"
    using assms by (simp_all add: ins_invar look_ins)
  then obtain w s2 where d: "del k s1 = Some (w, s2)"
    using del_none by (metis fun_upd_same not_None_eq option.distinct(1) surj_pair)
  with del_val [OF i1 d] l1 have "w = v"
    by simp
  with d i1 l1 assms(2) show ?thesis
    by (auto simp: del_invar look_del fun_upd_idem)
qed

lemma del_twice:
  assumes "invar s" "del k s = Some (v, s1)"
  shows "del k s1 = None"
  using assms by (simp add: del_none del_invar look_del)

end

end
