(* ===== verification/Robin_Hood.thy ===== *)
theory Robin_Hood
  imports Prelude
begin

text \<open>
  The combinatorics of Robin Hood probing, independent of the bucket layout.  A table
  maps a slot number below the capacity to an optional key, value and probe distance.
  The invariant has three parts: an entry sits at its distance from its home slot, no key
  occurs twice, and an entry at a positive distance follows an entry that is at most one
  step closer to its own home.
\<close>

type_synonym ('k, 'v) rh_table = "nat \<Rightarrow> ('k \<times> 'v \<times> nat) option"

definition rh_placed :: "('k \<Rightarrow> nat) \<Rightarrow> nat \<Rightarrow> ('k, 'v) rh_table \<Rightarrow> bool" where
  "rh_placed home c T \<longleftrightarrow> (\<forall>i<c. \<forall>k v d. T i = Some (k, v, d) \<longrightarrow> d < c \<and> (home k + d) mod c = i)"

definition rh_distinct :: "nat \<Rightarrow> ('k, 'v) rh_table \<Rightarrow> bool" where
  "rh_distinct c T \<longleftrightarrow>
     (\<forall>i<c. \<forall>j<c. \<forall>k v d v' d'. T i = Some (k, v, d) \<longrightarrow> T j = Some (k, v', d') \<longrightarrow> i = j)"

definition rh_ordered :: "nat \<Rightarrow> ('k, 'v) rh_table \<Rightarrow> bool" where
  "rh_ordered c T \<longleftrightarrow>
     (\<forall>i<c. \<forall>k v d. T (Suc i mod c) = Some (k, v, Suc d) \<longrightarrow> (\<exists>k' v' d'. T i = Some (k', v', d') \<and> d \<le> d'))"

definition rh_ok :: "('k \<Rightarrow> nat) \<Rightarrow> nat \<Rightarrow> ('k, 'v) rh_table \<Rightarrow> bool" where
  "rh_ok home c T \<longleftrightarrow> 0 < c \<and> rh_placed home c T \<and> rh_distinct c T \<and> rh_ordered c T"

definition rh_in :: "nat \<Rightarrow> ('k, 'v) rh_table \<Rightarrow> 'k \<Rightarrow> 'v \<Rightarrow> bool" where
  "rh_in c T k v \<longleftrightarrow> (\<exists>i<c. \<exists>d. T i = Some (k, v, d))"

definition rh_occ :: "nat \<Rightarrow> ('k, 'v) rh_table \<Rightarrow> nat set" where
  "rh_occ c T = {i. i < c \<and> T i \<noteq> None}"

text \<open>What a probing insertion knows of the entry it carries when it looks at slot \<open>i\<close>.\<close>

definition rh_carry :: "('k \<Rightarrow> nat) \<Rightarrow> nat \<Rightarrow> ('k, 'v) rh_table \<Rightarrow> 'k \<Rightarrow> nat \<Rightarrow> nat \<Rightarrow> bool" where
  "rh_carry home c T k d i \<longleftrightarrow>
     (home k + d) mod c = i \<and>
     (\<forall>n. d = Suc n \<longrightarrow> (\<exists>k' v' d'. T ((home k + n) mod c) = Some (k', v', d') \<and> n \<le> d')) \<and>
     (\<forall>j<c. \<forall>v' d'. T j = Some (k, v', d') \<longrightarrow> d \<le> d')"

text \<open>A table with a hole at \<open>p\<close>: what the backward shift maintains.\<close>

definition rh_hole :: "('k \<Rightarrow> nat) \<Rightarrow> nat \<Rightarrow> ('k, 'v) rh_table \<Rightarrow> nat \<Rightarrow> bool" where
  "rh_hole home c T p \<longleftrightarrow>
     p < c \<and> T p \<noteq> None \<and> rh_placed home c (T(p := None)) \<and> rh_distinct c (T(p := None)) \<and>
     (\<exists>k v g. rh_ordered c (T(p \<mapsto> (k, v, g))))"

section \<open>Modular steps\<close>

lemma Suc_mod_inj: "i < c \<Longrightarrow> j < c \<Longrightarrow> Suc i mod c = Suc j mod c \<Longrightarrow> i = (j::nat)"
  by (cases "Suc i = c"; cases "Suc j = c") auto

lemma mod_add_inj: "a < c \<Longrightarrow> b < c \<Longrightarrow> (x + a) mod c = (x + b) mod c \<Longrightarrow> a = (b::nat)"
proof (induction x)
  case (Suc x)
  then have "Suc ((x + a) mod c) mod c = Suc ((x + b) mod c) mod c"
    by (simp add: mod_Suc_eq)
  with Suc Suc_mod_inj [of "(x + a) mod c" c "(x + b) mod c"] show ?case
    by simp
qed simp

lemma mod_reach: "0 < c \<Longrightarrow> e < c \<Longrightarrow> \<exists>j<c. (x + j) mod c = (e::nat)"
proof -
  assume c: "0 < c" "e < c"
  let ?j = "(e + (c - x mod c)) mod c"
  have "(x + ?j) mod c = (x mod c + (e + (c - x mod c))) mod c"
    by (simp add: mod_simps)
  also have "x mod c + (e + (c - x mod c)) = e + c"
    using mod_less_divisor [OF c(1), of x] by arith
  finally show ?thesis
    using c by (intro exI [of _ ?j]) simp
qed

lemma step_mod: "(x + n) mod c = i \<Longrightarrow> (x + Suc n) mod c = Suc i mod (c::nat)"
  by (auto simp: mod_Suc_eq)

section \<open>Consequences of the order\<close>

lemma rh_okD:
  assumes "rh_ok home c T"
  shows "0 < c" "rh_placed home c T" "rh_distinct c T" "rh_ordered c T"
  using assms by (simp_all add: rh_ok_def)

lemma rh_placedD: "rh_placed home c T \<Longrightarrow> i < c \<Longrightarrow> T i = Some (k, v, d) \<Longrightarrow> d < c \<and> (home k + d) mod c = i"
  by (auto simp: rh_placed_def)

lemma rh_distinctD:
  "rh_distinct c T \<Longrightarrow> i < c \<Longrightarrow> j < c \<Longrightarrow> T i = Some (k, v, d) \<Longrightarrow> T j = Some (k, v', d') \<Longrightarrow> i = j"
  by (auto simp: rh_distinct_def)

lemma rh_orderedD:
  "rh_ordered c T \<Longrightarrow> i < c \<Longrightarrow> T (Suc i mod c) = Some (k, v, Suc d)
   \<Longrightarrow> \<exists>k' v' d'. T i = Some (k', v', d') \<and> d \<le> d'"
  by (auto simp: rh_ordered_def)

lemma rh_path:
  assumes "rh_ordered c T" "0 < c" "T ((x + m) mod c) = Some (k, v, d)" "m \<le> d" "j \<le> m"
  shows "\<exists>k' v' d'. T ((x + j) mod c) = Some (k', v', d') \<and> j \<le> d'"
  using assms(3-5)
proof (induction m arbitrary: k v d)
  case (Suc m)
  show ?case
  proof (cases "j = Suc m")
    case False
    obtain d1 where d1: "d = Suc d1" "m \<le> d1"
      using Suc.prems(2) by (cases d) auto
    have "T (Suc ((x + m) mod c) mod c) = Some (k, v, Suc d1)"
      using Suc.prems(1) d1 by (simp add: mod_Suc_eq)
    from rh_orderedD [OF assms(1) _ this] assms(2)
    obtain k' v' d' where "T ((x + m) mod c) = Some (k', v', d')" "d1 \<le> d'"
      by auto
    with Suc.IH [OF this(1)] d1 Suc.prems(3) False show ?thesis
      by auto
  qed (use Suc.prems in auto)
qed auto

lemma rh_in_path:
  assumes "rh_ok home c T" "i < c" "T i = Some (k, v, d)" "j \<le> d"
  shows "\<exists>k' v' d'. T ((home k + j) mod c) = Some (k', v', d') \<and> j \<le> d'"
  using rh_path [of c T "home k" d k v d j] rh_placedD [of home c T i k v d] rh_okD [OF assms(1)] assms
  by auto

lemma rh_carry_less:
  assumes "rh_ordered c T" "rh_carry home c T k d i" "e < c" "T e = None"
  shows "d < c"
proof (rule ccontr)
  assume "\<not> d < c"
  with assms(3) obtain n where n: "d = Suc n" "c - 1 \<le> n"
    by (cases d) auto
  from assms(2) n(1) obtain k' v' d' where "T ((home k + n) mod c) = Some (k', v', d')" "n \<le> d'"
    by (auto simp: rh_carry_def)
  moreover obtain j where "j < c" "(home k + j) mod c = e"
    using mod_reach [of c e "home k"] assms(3) by auto
  ultimately show False
    using rh_path [OF assms(1), of "home k" n k' v' d' j] n(2) assms(3,4) by fastforce
qed

lemma rh_carry_absent:
  assumes "rh_ok home c T" "rh_carry home c T k d i"
    and "\<forall>k' v' d'. T i = Some (k', v', d') \<longrightarrow> d' < d" "j < c"
  shows "T j \<noteq> Some (k, v', d')"
proof
  assume k: "T j = Some (k, v', d')"
  with assms(2,4) have "d \<le> d'" "(home k + d) mod c = i"
    by (auto simp: rh_carry_def)
  with rh_in_path [OF assms(1,4) k this(1)] assms(3) show False
    by auto
qed

section \<open>Insertion steps\<close>

lemma rh_put:
  assumes ok: "rh_ok home c T" and carry: "rh_carry home c T k d i" and i: "i < c" "d < c"
    and below: "\<forall>k' v' d'. T i = Some (k', v', d') \<longrightarrow> d' < d"
  shows "rh_ok home c (T(i \<mapsto> (k, v, d)))"
proof -
  note absent = rh_carry_absent [OF ok carry below]
  have "rh_placed home c (T(i \<mapsto> (k, v, d)))"
    using rh_okD(2) [OF ok] carry i by (auto simp: rh_placed_def rh_carry_def)
  moreover have "rh_distinct c (T(i \<mapsto> (k, v, d)))"
    using rh_okD(3) [OF ok] absent by (auto simp: rh_distinct_def)
  moreover have "rh_ordered c (T(i \<mapsto> (k, v, d)))"
    unfolding rh_ordered_def
  proof (intro allI impI)
    fix j k1 v1 d1
    assume j: "j < c" and e: "(T(i \<mapsto> (k, v, d))) (Suc j mod c) = Some (k1, v1, Suc d1)"
    show "\<exists>k' v' d'. (T(i \<mapsto> (k, v, d))) j = Some (k', v', d') \<and> d1 \<le> d'"
    proof (cases "j = i")
      case True
      with e rh_orderedD [OF rh_okD(4) [OF ok] j, of k1 v1 d1] below show ?thesis
        by (cases "Suc i mod c = i") fastforce+
    next
      case False
      show ?thesis
      proof (cases "Suc j mod c = i")
        case True
        with e have d: "d = Suc d1"
          by simp
        have "j = (home k + d1) mod c"
          using carry d True j by - (rule Suc_mod_inj [of _ c], auto simp: rh_carry_def mod_Suc_eq)
        with carry d False show ?thesis
          by (auto simp: rh_carry_def)
      next
        case False
        with e \<open>j \<noteq> i\<close> rh_orderedD [OF rh_okD(4) [OF ok] j, of k1 v1 d1] show ?thesis
          by simp
      qed
    qed
  qed
  ultimately show ?thesis
    using rh_okD(1) [OF ok] by (simp add: rh_ok_def)
qed

lemma rh_update:
  assumes "rh_ok home c T" "T i = Some (k, w, d)"
  shows "rh_ok home c (T(i \<mapsto> (k, v, d)))"
proof -
  let ?T = "T(i \<mapsto> (k, v, d))"
  have same: "\<exists>v2. T j = Some (k1, v2, d1)" if "?T j = Some (k1, v1, d1)" for j k1 v1 d1
    using that assms(2) by (auto split: if_splits)
  have keep: "\<exists>v2. ?T j = Some (k1, v2, d1)" if "T j = Some (k1, v1, d1)" for j k1 v1 d1
    using that assms(2) by auto
  have "rh_placed home c ?T"
    unfolding rh_placed_def using same rh_placedD [OF rh_okD(2) [OF assms(1)]] by blast
  moreover have "rh_distinct c ?T"
    unfolding rh_distinct_def using same rh_distinctD [OF rh_okD(3) [OF assms(1)]] by meson
  moreover have "rh_ordered c ?T"
    unfolding rh_ordered_def using same keep rh_orderedD [OF rh_okD(4) [OF assms(1)]] by meson
  ultimately show ?thesis
    using rh_okD(1) [OF assms(1)] by (simp add: rh_ok_def)
qed

lemma rh_carry_start:
  "rh_carry home c T k 0 (home k mod c)"
  by (simp add: rh_carry_def)

lemma rh_carry_advance:
  assumes "rh_ok home c T" "rh_carry home c T k d i" "i < c" "T i = Some (k1, v1, d1)" "k1 \<noteq> k" "d \<le> d1"
  shows "rh_carry home c T k (Suc d) (Suc i mod c)"
proof -
  have i: "(home k + d) mod c = i" and le: "\<forall>j<c. \<forall>v' d'. T j = Some (k, v', d') \<longrightarrow> d \<le> d'"
    using assms(2) by (auto simp: rh_carry_def)
  have "Suc d \<le> d'" if "j < c" "T j = Some (k, v', d')" for j v' d'
  proof -
    have "d \<noteq> d'"
      using rh_placedD [OF rh_okD(2) [OF assms(1)] that] i assms(4,5) that(2) by auto
    with le that show ?thesis
      by force
  qed
  with step_mod [OF i] i assms(4,6) show ?thesis
    by (auto simp: rh_carry_def)
qed

lemma rh_carry_swap:
  assumes "rh_ok home c T" "i < c" "T i = Some (k1, v1, d1)" "k1 \<noteq> k" "d1 < d"
  shows "rh_carry home c (T(i \<mapsto> (k, v, d))) k1 (Suc d1) (Suc i mod c)"
proof -
  have i: "(home k1 + d1) mod c = i"
    using rh_placedD [OF rh_okD(2) [OF assms(1)] assms(2,3)] by simp
  with step_mod [OF i] rh_distinctD [OF rh_okD(3) [OF assms(1)] assms(2) _ assms(3)] assms(4,5)
  show ?thesis
    by (fastforce simp: rh_carry_def)
qed

lemma rh_in_upd:
  "i < c \<Longrightarrow> rh_in c (T(i \<mapsto> (k, v, d))) x y \<longleftrightarrow>
     x = k \<and> y = v \<or> (\<exists>j<c. j \<noteq> i \<and> (\<exists>d'. T j = Some (x, y, d')))"
  by (auto simp: rh_in_def)

lemma rh_in_del:
  "rh_in c (T(i := None)) x y \<longleftrightarrow> (\<exists>j<c. j \<noteq> i \<and> (\<exists>d'. T j = Some (x, y, d')))"
  by (auto simp: rh_in_def split: if_splits)

lemma rh_in_unique: "rh_ok home c T \<Longrightarrow> rh_in c T k v \<Longrightarrow> rh_in c T k w \<Longrightarrow> v = w"
  unfolding rh_in_def by (metis rh_distinctD rh_okD(3) option.inject prod.inject)

section \<open>Removal steps\<close>

lemma rh_placed_del: "rh_placed home c T \<Longrightarrow> rh_placed home c (T(i := None))"
  by (simp add: rh_placed_def)

lemma rh_distinct_del: "rh_distinct c T \<Longrightarrow> rh_distinct c (T(i := None))"
  unfolding rh_distinct_def by (metis fun_upd_apply option.distinct(1))

lemma rh_hole_start:
  assumes "rh_ok home c T" "i < c" "T i = Some (k, v, d)"
  shows "rh_hole home c T i"
proof -
  have "T(i \<mapsto> (k, v, d)) = T"
    using assms(3) by (simp add: fun_upd_idem)
  then have "rh_ordered c (T(i \<mapsto> (k, v, d)))"
    using rh_okD(4) [OF assms(1)] by simp
  moreover have "rh_placed home c (T(i := None))" "rh_distinct c (T(i := None))"
    using rh_okD(2,3) [OF assms(1)] by (simp_all add: rh_placed_del rh_distinct_del)
  ultimately show ?thesis
    using assms(2,3) by (auto simp: rh_hole_def)
qed

lemma rh_hole_done:
  assumes "rh_hole home c T p" "\<forall>k v d. T (Suc p mod c) \<noteq> Some (k, v, Suc d)"
  shows "rh_ok home c (T(p := None))"
proof -
  obtain k0 v0 g where ord: "rh_ordered c (T(p \<mapsto> (k0, v0, g)))"
    using assms(1) by (auto simp: rh_hole_def)
  have "rh_ordered c (T(p := None))"
    unfolding rh_ordered_def
  proof (intro allI impI)
    fix i k v d
    assume i: "i < c" "(T(p := None)) (Suc i mod c) = Some (k, v, Suc d)"
    then have "Suc i mod c \<noteq> p" "T (Suc i mod c) = Some (k, v, Suc d)"
      by (auto split: if_splits)
    with rh_orderedD [OF ord i(1), of k v d] assms(2) show "\<exists>k' v' d'. (T(p := None)) i = Some (k', v', d') \<and> d \<le> d'"
      by (cases "i = p") auto
  qed
  with assms(1) show ?thesis
    by (auto simp: rh_hole_def rh_ok_def)
qed

lemma rh_hole_shift:
  assumes hole: "rh_hole home c T p" and q: "q = Suc p mod c" "q \<noteq> p"
    and Tq: "T q = Some (k, v, Suc d)"
  shows "rh_hole home c (T(q \<mapsto> (k, v, d), p \<mapsto> (k, v, d))) q"
proof -
  obtain k0 v0 g where ord: "rh_ordered c (T(p \<mapsto> (k0, v0, g)))" and p: "p < c"
    and placed: "rh_placed home c (T(p := None))" and dist: "rh_distinct c (T(p := None))"
    using hole by (auto simp: rh_hole_def)
  have qc: "q < c"
    using p q by simp
  have home: "Suc d < c" "(home k + Suc d) mod c = q"
    using rh_placedD [OF placed qc, of k v "Suc d"] Tq q(2) by auto
  have hp: "(home k + d) mod c = p"
    using home p q by - (rule Suc_mod_inj [of _ c], auto simp: mod_Suc_eq)
  have g: "d \<le> g"
    using rh_orderedD [OF ord p, of k v d] q Tq by auto
  have "rh_placed home c (T(q \<mapsto> (k, v, d), p \<mapsto> (k, v, d), q := None))"
    using placed hp home q(2) by (auto simp: rh_placed_def)
  moreover have "rh_distinct c (T(q \<mapsto> (k, v, d), p \<mapsto> (k, v, d), q := None))"
    unfolding rh_distinct_def
  proof (intro allI impI)
    let ?T = "T(q \<mapsto> (k, v, d), p \<mapsto> (k, v, d), q := None)"
    let ?r = "\<lambda>i. if i = p then q else i"
    fix i j k1 v1 d1 v2 d2
    assume ij: "i < c" "j < c" and e: "?T i = Some (k1, v1, d1)" "?T j = Some (k1, v2, d2)"
    have "\<exists>v' d'. (T(p := None)) (?r l) = Some (k1, v', d')" if "?T l = Some (k1, w, x)" for l w x
      using that Tq q(2) by (cases "l = p"; cases "l = q") auto
    from this [OF e(1)] this [OF e(2)] have "?r i = ?r j"
      using rh_distinctD [OF dist, of "?r i" "?r j"] ij qc by (auto simp del: fun_upd_apply)
    moreover have "i \<noteq> q" "j \<noteq> q"
      using e by auto
    ultimately show "i = j"
      by (auto split: if_splits)
  qed
  moreover have "rh_ordered c (T(q \<mapsto> (k, v, d), p \<mapsto> (k, v, d), q \<mapsto> (k, v, Suc d)))"
    unfolding rh_ordered_def
  proof (intro allI impI)
    fix i k1 v1 d1
    let ?T = "T(q \<mapsto> (k, v, d), p \<mapsto> (k, v, d), q \<mapsto> (k, v, Suc d))"
    assume i: "i < c" and e: "?T (Suc i mod c) = Some (k1, v1, Suc d1)"
    show "\<exists>k' v' d'. ?T i = Some (k', v', d') \<and> d1 \<le> d'"
    proof (cases "i = p")
      case True
      with e q show ?thesis by auto
    next
      case ip: False
      then have nq: "Suc i mod c \<noteq> q"
        using Suc_mod_inj [OF i p] q(1) by auto
      obtain k2 v2 d2 where "(T(p \<mapsto> (k0, v0, g))) (Suc i mod c) = Some (k2, v2, Suc d2)" "d1 \<le> d2"
      proof (cases "Suc i mod c = p")
        case True
        with e q(2) have "d = Suc d1" by auto
        with g obtain g1 where "g = Suc g1" "d1 \<le> g1" by (cases g) auto
        with that True show ?thesis by auto
      qed (use e nq that in auto)
      from rh_orderedD [OF ord i this(1)] this(2) ip Tq show ?thesis
        by (cases "i = q") auto
    qed
  qed
  ultimately show ?thesis
    using qc q(2) by (auto simp: rh_hole_def)
qed

lemma rh_in_shift:
  assumes "p < c" "q < c" "q \<noteq> p" "T q = Some (k, v, d')"
  shows "rh_in c (T(q \<mapsto> (k, v, d), p \<mapsto> (k, v, d), q := None)) x y \<longleftrightarrow> rh_in c (T(p := None)) x y"
proof
  let ?T = "T(q \<mapsto> (k, v, d), p \<mapsto> (k, v, d), q := None)"
  assume "rh_in c ?T x y"
  then obtain i d1 where i: "i < c" "?T i = Some (x, y, d1)"
    by (auto simp: rh_in_def simp del: fun_upd_apply)
  then show "rh_in c (T(p := None)) x y"
    using assms by (cases "i = p"; cases "i = q") (auto simp: rh_in_def)
next
  let ?T = "T(q \<mapsto> (k, v, d), p \<mapsto> (k, v, d), q := None)"
  assume "rh_in c (T(p := None)) x y"
  then obtain i d1 where i: "i < c" "(T(p := None)) i = Some (x, y, d1)"
    by (auto simp: rh_in_def simp del: fun_upd_apply)
  then have "?T (if i = q then p else i) = Some (x, y, if i = q then d else d1)"
    using assms by (cases "i = p"; cases "i = q") auto
  then show "rh_in c ?T x y"
    unfolding rh_in_def using assms(1) i(1)
    by (intro exI [of _ "if i = q then p else i"] conjI exI [of _ "if i = q then d else d1"]) auto
qed

lemma rh_occ_shift:
  assumes "p < c" "q < c" "q \<noteq> p" "T q = Some (k, v, d')"
  shows "card (rh_occ c (T(q \<mapsto> (k, v, d), p \<mapsto> (k, v, d), q := None))) = card (rh_occ c (T(p := None)))"
proof -
  have "rh_occ c (T(q \<mapsto> (k, v, d), p \<mapsto> (k, v, d), q := None)) = insert p (rh_occ c (T(p := None)) - {q})"
    using assms by (auto simp: rh_occ_def)
  moreover have "q \<in> rh_occ c (T(p := None))" "p \<notin> rh_occ c (T(p := None))" "finite (rh_occ c (T(p := None)))"
    using assms by (auto simp: rh_occ_def)
  ultimately show ?thesis
    by (metis card_insert_disjoint card_Suc_Diff1 finite_Diff insert_iff Diff_iff)
qed

end
