(* ===== verification/Hash_Index.thy ===== *)
theory Hash_Index
  imports Kv_Block Index_Spec Robin_Hood
begin

text \<open>
  The Robin Hood hash index of \<open>index/src/hash_index.rs\<close>: FNV-1a hashing, linear
  probing with displacement, lookup with early exit and backward-shift removal.  The
  read-write lock serialises the operations, so each is one atomic transition.  The
  loops are partial functions into \<open>option\<close>, with \<open>None\<close> for a loop that does not end;
  that they end on every well-formed index is proved.
\<close>

section \<open>Definitions\<close>

definition DEFAULT_INITIAL_CAPACITY :: nat where "DEFAULT_INITIAL_CAPACITY = 1024"

datatype HashIndexError =
    KeyNotFound KvBlockKey
  | CapacityExceeded nat
  | AllocationError nat nat
  | IndexUninitialized

record IndexSlotValue =
  tier_id :: u8
  block_offset :: u64
  payload_len :: u32

record HashIndexBucket =
  hb_key :: KvBlockKey
  hb_value :: IndexSlotValue
  hb_occupied :: bool
  hb_probe_distance :: u16

definition bucket_empty :: HashIndexBucket where
  "bucket_empty =
     \<lparr>hb_key = KvBlockKey_new 0 0, hb_value = \<lparr>tier_id = 0, block_offset = 0, payload_len = 0\<rparr>,
      hb_occupied = False, hb_probe_distance = 0\<rparr>"

record ConcurrentHashIndex =
  hi_buckets :: "HashIndexBucket list"
  hi_capacity :: nat
  hi_mask :: nat
  hi_count :: nat

text \<open>\<open>usize::next_power_of_two\<close>: the smallest power of two that is at least the argument.\<close>

function next_power_of_two :: "nat \<Rightarrow> nat" where
  "next_power_of_two n = (if n \<le> 1 then 1 else 2 * next_power_of_two ((n + 1) div 2))"
  by pat_completeness auto
termination
  by (relation "measure id") auto

declare next_power_of_two.simps [simp del]

definition HashIndex_new :: "nat \<Rightarrow> ConcurrentHashIndex" where
  "HashIndex_new capacity =
     (let cap = max (next_power_of_two capacity) 16 in
      \<lparr>hi_buckets = replicate cap bucket_empty, hi_capacity = cap, hi_mask = cap - 1, hi_count = 0\<rparr>)"

definition u64_to_le_bytes :: "u64 \<Rightarrow> u8 list" where
  "u64_to_le_bytes w = map (\<lambda>i. ucast (drop_bit (8 * i) w)) [0..<8]"

definition fnv_step :: "u64 \<Rightarrow> u8 \<Rightarrow> u64" where
  "fnv_step h b = (h XOR ucast b) * 0x100000001b3"

definition hash_key :: "KvBlockKey \<Rightarrow> nat" where
  "hash_key key =
     unat (foldl fnv_step 0xcbf29ce484222325
             (u64_to_le_bytes (namespace_id key) @ u64_to_le_bytes (block_id key)))"

text \<open>
  \<open>check_capacity\<close> compares \<open>count as f64 / capacity as f64\<close> with 0.75.  The capacity is
  a power of two, so the quotient is exact for every count below \<open>2 ^ 53\<close>.
\<close>

definition check_capacity :: "ConcurrentHashIndex \<Rightarrow> (HashIndexError, unit) result" where
  "check_capacity h =
     (if 4 * hi_count h > 3 * hi_capacity h then Err (CapacityExceeded (hi_capacity h)) else Ok ())"

text \<open>
  The probe loop of \<open>insert\<close>; the boolean of the result says whether a free bucket was
  filled, which is when the counter is incremented.
\<close>

partial_function (option) insert_loop ::
  "nat \<Rightarrow> nat \<Rightarrow> HashIndexBucket list \<Rightarrow> KvBlockKey \<Rightarrow> IndexSlotValue \<Rightarrow> u16 \<Rightarrow> nat
   \<Rightarrow> (HashIndexError, bool \<times> HashIndexBucket list) result option"
where
  "insert_loop capacity msk buckets curr_key curr_val curr_dist idx =
    (let bucket = buckets ! idx in
     if \<not> hb_occupied bucket
     then Some (Ok (True, buckets[idx := \<lparr>hb_key = curr_key, hb_value = curr_val,
                                           hb_occupied = True, hb_probe_distance = curr_dist\<rparr>]))
     else if hb_key bucket = curr_key
     then Some (Ok (False, buckets[idx := bucket\<lparr>hb_value := curr_val\<rparr>]))
     else
       (let swap = (hb_probe_distance bucket < curr_dist);
            buckets' = (if swap then buckets[idx := bucket\<lparr>hb_key := curr_key, hb_value := curr_val,
                                                          hb_probe_distance := curr_dist\<rparr>]
                        else buckets);
            key' = (if swap then hb_key bucket else curr_key);
            val' = (if swap then hb_value bucket else curr_val);
            dst' = (if swap then hb_probe_distance bucket else curr_dist) + 1
        in if dst' > of_nat capacity then Some (Err (CapacityExceeded capacity))
           else insert_loop capacity msk buckets' key' val' dst' ((idx + 1) AND msk)))"

definition HashIndex_insert ::
  "KvBlockKey \<Rightarrow> IndexSlotValue \<Rightarrow> ConcurrentHashIndex
   \<Rightarrow> (HashIndexError, ConcurrentHashIndex) result option"
where
  "HashIndex_insert key val h =
    (case check_capacity h of
       Inl e \<Rightarrow> Some (Err e)
     | Inr _ \<Rightarrow>
         (case insert_loop (hi_capacity h) (hi_mask h) (hi_buckets h) key val 0
                 (hash_key key AND hi_mask h) of
            None \<Rightarrow> None
          | Some (Inl e) \<Rightarrow> Some (Err e)
          | Some (Inr (fresh, bs)) \<Rightarrow>
              Some (Ok (h\<lparr>hi_buckets := bs, hi_count := hi_count h + (if fresh then 1 else 0)\<rparr>))))"

partial_function (option) get_loop ::
  "nat \<Rightarrow> nat \<Rightarrow> HashIndexBucket list \<Rightarrow> KvBlockKey \<Rightarrow> u16 \<Rightarrow> nat
   \<Rightarrow> (HashIndexError, IndexSlotValue) result option"
where
  "get_loop capacity msk buckets key dst idx =
    (let bucket = buckets ! idx in
     if \<not> hb_occupied bucket \<or> dst > hb_probe_distance bucket then Some (Err (KeyNotFound key))
     else if hb_key bucket = key then Some (Ok (hb_value bucket))
     else if dst + 1 > of_nat capacity then Some (Err (KeyNotFound key))
     else get_loop capacity msk buckets key (dst + 1) ((idx + 1) AND msk))"

definition HashIndex_get ::
  "KvBlockKey \<Rightarrow> ConcurrentHashIndex \<Rightarrow> (HashIndexError, IndexSlotValue) result option" where
  "HashIndex_get key h =
     get_loop (hi_capacity h) (hi_mask h) (hi_buckets h) key 0 (hash_key key AND hi_mask h)"

text \<open>The backward-shift loop of \<open>remove\<close>; the shifted bucket is decremented in place and copied.\<close>

partial_function (option) shift_loop ::
  "nat \<Rightarrow> HashIndexBucket list \<Rightarrow> nat \<Rightarrow> nat \<Rightarrow> HashIndexBucket list option"
where
  "shift_loop msk buckets prev_idx curr_idx =
    (let next_bucket = buckets ! curr_idx in
     if \<not> hb_occupied next_bucket \<or> hb_probe_distance next_bucket = 0
     then Some (buckets[prev_idx := bucket_empty])
     else
       (let nb = next_bucket\<lparr>hb_probe_distance := hb_probe_distance next_bucket - 1\<rparr>
        in shift_loop msk ((buckets[curr_idx := nb])[prev_idx := nb]) curr_idx ((curr_idx + 1) AND msk)))"

partial_function (option) remove_loop ::
  "nat \<Rightarrow> HashIndexBucket list \<Rightarrow> KvBlockKey \<Rightarrow> u16 \<Rightarrow> nat
   \<Rightarrow> (HashIndexError, IndexSlotValue \<times> HashIndexBucket list) result option"
where
  "remove_loop msk buckets key dst idx =
    (let bucket = buckets ! idx in
     if \<not> hb_occupied bucket \<or> dst > hb_probe_distance bucket then Some (Err (KeyNotFound key))
     else if hb_key bucket = key
     then (case shift_loop msk buckets idx ((idx + 1) AND msk) of
             None \<Rightarrow> None
           | Some bs \<Rightarrow> Some (Ok (hb_value bucket, bs)))
     else remove_loop msk buckets key (dst + 1) ((idx + 1) AND msk))"

definition HashIndex_remove ::
  "KvBlockKey \<Rightarrow> ConcurrentHashIndex
   \<Rightarrow> (HashIndexError, IndexSlotValue \<times> ConcurrentHashIndex) result option" where
  "HashIndex_remove key h =
    (case remove_loop (hi_mask h) (hi_buckets h) key 0 (hash_key key AND hi_mask h) of
       None \<Rightarrow> None
     | Some (Inl e) \<Rightarrow> Some (Err e)
     | Some (Inr (v, bs)) \<Rightarrow> Some (Ok (v, h\<lparr>hi_buckets := bs, hi_count := hi_count h - 1\<rparr>)))"

definition HashIndex_len :: "ConcurrentHashIndex \<Rightarrow> nat" where
  "HashIndex_len h = hi_count h"

definition HashIndex_is_empty :: "ConcurrentHashIndex \<Rightarrow> bool" where
  "HashIndex_is_empty h \<longleftrightarrow> HashIndex_len h = 0"

definition HashIndex_iter :: "ConcurrentHashIndex \<Rightarrow> (KvBlockKey \<times> IndexSlotValue) list" where
  "HashIndex_iter h = map (\<lambda>b. (hb_key b, hb_value b)) (filter hb_occupied (hi_buckets h))"

section \<open>The table of a bucket array\<close>

definition slot :: "HashIndexBucket list \<Rightarrow> (KvBlockKey, IndexSlotValue) rh_table" where
  "slot bs i =
     (if i < length bs \<and> hb_occupied (bs ! i)
      then Some (hb_key (bs ! i), hb_value (bs ! i), unat (hb_probe_distance (bs ! i))) else None)"

lemma slot_update:
  "i < length bs \<Longrightarrow> slot (bs[i := b]) =
     (slot bs)(i := if hb_occupied b then Some (hb_key b, hb_value b, unat (hb_probe_distance b)) else None)"
  by (auto simp: slot_def fun_eq_iff nth_list_update)

lemma slot_SomeD:
  assumes "slot bs i = Some (k, v, d)"
  shows "i < length bs" "hb_occupied (bs ! i)" "hb_key (bs ! i) = k" "hb_value (bs ! i) = v"
    "unat (hb_probe_distance (bs ! i)) = d"
  using assms by (auto simp: slot_def split: if_splits)

lemma slot_NoneD: "slot bs i = None \<Longrightarrow> i < length bs \<Longrightarrow> \<not> hb_occupied (bs ! i)"
  by (auto simp: slot_def split: if_splits)

lemma rh_occ_upd_Some:
  "i < c \<Longrightarrow> card (rh_occ c (T(i \<mapsto> x))) = card (rh_occ c T) + (if T i = None then 1 else 0)"
proof -
  assume "i < c"
  then have "rh_occ c (T(i \<mapsto> x)) = insert i (rh_occ c T)" "finite (rh_occ c T)" "i \<in> rh_occ c T \<longleftrightarrow> T i \<noteq> None"
    by (cases x; auto simp: rh_occ_def)+
  then show ?thesis
    by (auto simp: insert_absorb)
qed

lemma rh_occ_upd_None:
  "i < c \<Longrightarrow> T i \<noteq> None \<Longrightarrow> card (rh_occ c (T(i := None))) = card (rh_occ c T) - 1"
proof -
  assume "i < c" "T i \<noteq> None"
  then have "rh_occ c (T(i := None)) = rh_occ c T - {i}" "finite (rh_occ c T)" "i \<in> rh_occ c T"
    by (auto simp: rh_occ_def)
  then show ?thesis
    by simp
qed

text \<open>A bucket array of a supported capacity: a power of two that a \<open>u16\<close> can hold.\<close>

definition small_table :: "nat \<Rightarrow> HashIndexBucket list \<Rightarrow> bool" where
  "small_table c bs \<longleftrightarrow> (\<exists>n\<le>15. c = 2 ^ n) \<and> length bs = c \<and> rh_ok hash_key c (slot bs)"

lemma small_tableD:
  assumes "small_table c bs"
  shows "0 < c" "c \<le> 32768" "x AND (c - 1) = x mod c" "length bs = c" "rh_ok hash_key c (slot bs)"
    "unat (of_nat c :: u16) = c"
proof -
  obtain n where n: "n \<le> 15" "c = 2 ^ n" "length bs = c" "rh_ok hash_key c (slot bs)"
    using assms by (auto simp: small_table_def)
  from n(1) have "(2::nat) ^ n \<le> 2 ^ 15"
    by (rule power_increasing) simp
  with n show "c \<le> 32768"
    by simp
  then show "unat (of_nat c :: u16) = c"
    by (simp add: unat_of_nat)
  show "0 < c" "x AND (c - 1) = x mod c" "length bs = c" "rh_ok hash_key c (slot bs)"
    using n nat_and_pow2_minus_1 [of x n] by simp_all
qed

lemma small_table_update:
  "small_table c bs \<Longrightarrow> rh_ok hash_key c (slot (bs[i := b])) \<Longrightarrow> small_table c (bs[i := b])"
  by (simp add: small_table_def)

section \<open>Insertion\<close>

definition insert_post ::
  "nat \<Rightarrow> HashIndexBucket list \<Rightarrow> KvBlockKey \<Rightarrow> IndexSlotValue \<Rightarrow> bool \<Rightarrow> HashIndexBucket list \<Rightarrow> bool" where
  "insert_post c bs k v fresh bs' \<longleftrightarrow>
     small_table c bs' \<and>
     (\<forall>x y. rh_in c (slot bs') x y \<longleftrightarrow> (if x = k then y = v else rh_in c (slot bs) x y)) \<and>
     (fresh \<longleftrightarrow> \<not> (\<exists>y. rh_in c (slot bs) k y)) \<and>
     card (rh_occ c (slot bs')) = card (rh_occ c (slot bs)) + (if fresh then 1 else 0)"

lemma insert_post_place:
  assumes t: "small_table c bs" and carry: "rh_carry hash_key c (slot bs) k (unat d) i" and i: "i < c"
    and e: "slot bs i = None"
  shows "insert_post c bs k v True
    (bs[i := \<lparr>hb_key = k, hb_value = v, hb_occupied = True, hb_probe_distance = d\<rparr>])"
proof -
  let ?bs = "bs[i := \<lparr>hb_key = k, hb_value = v, hb_occupied = True, hb_probe_distance = d\<rparr>]"
  note ok = small_tableD(5) [OF t]
  have s: "slot ?bs = (slot bs)(i \<mapsto> (k, v, unat d))"
    using i small_tableD(4) [OF t] by (simp add: slot_update)
  have d: "unat d < c"
    using rh_carry_less [OF rh_okD(4) [OF ok] carry i e] .
  have "rh_ok hash_key c (slot ?bs)"
    unfolding s by (rule rh_put [OF ok carry i d]) (simp add: e)
  then have t': "small_table c ?bs"
    by (rule small_table_update [OF t])
  have no: "slot bs j \<noteq> Some (k, v', d')" if "j < c" for j v' d'
    using rh_carry_absent [OF ok carry _ that] e by simp
  have "rh_in c (slot ?bs) x y \<longleftrightarrow> (if x = k then y = v else rh_in c (slot bs) x y)" for x y
    unfolding s rh_in_upd [OF i] using e no by (auto simp: rh_in_def)
  moreover have "\<not> (\<exists>y. rh_in c (slot bs) k y)"
    using no by (auto simp: rh_in_def)
  moreover have "card (rh_occ c (slot ?bs)) = card (rh_occ c (slot bs)) + 1"
    unfolding s using e by (simp add: rh_occ_upd_Some [OF i])
  ultimately show ?thesis
    using t' by (simp add: insert_post_def)
qed

lemma insert_post_same:
  assumes t: "small_table c bs" and i: "i < c" and e: "slot bs i = Some (k, w, d)"
  shows "insert_post c bs k v False (bs[i := (bs ! i)\<lparr>hb_value := v\<rparr>])"
proof -
  let ?bs = "bs[i := (bs ! i)\<lparr>hb_value := v\<rparr>]"
  note ok = small_tableD(5) [OF t]
  have s: "slot ?bs = (slot bs)(i \<mapsto> (k, v, d))"
    using slot_SomeD [OF e] by (simp add: slot_update)
  have "rh_ok hash_key c (slot ?bs)"
    unfolding s by (rule rh_update [OF ok e])
  then have t': "small_table c ?bs"
    by (rule small_table_update [OF t])
  have only: "j = i" if "j < c" "slot bs j = Some (k, v', d')" for j v' d'
    using rh_distinctD [OF rh_okD(3) [OF ok] that(1) i that(2) e] .
  have "rh_in c (slot ?bs) x y \<longleftrightarrow> (if x = k then y = v else rh_in c (slot bs) x y)" for x y
    unfolding s rh_in_upd [OF i] using e only by (auto simp: rh_in_def)
  moreover have "\<exists>y. rh_in c (slot bs) k y"
    using e i by (auto simp: rh_in_def)
  moreover have "card (rh_occ c (slot ?bs)) = card (rh_occ c (slot bs))"
    unfolding s using e by (simp add: rh_occ_upd_Some [OF i])
  ultimately show ?thesis
    using t' by (simp add: insert_post_def)
qed

lemma insert_post_swap:
  assumes t: "small_table c bs" and carry: "rh_carry hash_key c (slot bs) k (unat d) i" and i: "i < c"
    and e: "slot bs i = Some (k1, v1, d1)" "k1 \<noteq> k" "d1 < unat d" and d: "unat d < c"
    and bs1: "bs1 = bs[i := (bs ! i)\<lparr>hb_key := k, hb_value := v, hb_probe_distance := d\<rparr>]"
  shows "small_table c bs1" "slot bs1 = (slot bs)(i \<mapsto> (k, v, unat d))"
    "rh_carry hash_key c (slot bs1) k1 (Suc d1) (Suc i mod c)"
    "insert_post c bs1 k1 v1 fresh bs2 \<Longrightarrow> insert_post c bs k v fresh bs2"
proof -
  note ok = small_tableD(5) [OF t]
  show s: "slot bs1 = (slot bs)(i \<mapsto> (k, v, unat d))"
    using slot_SomeD [OF e(1)] by (simp add: slot_update bs1)
  have "rh_ok hash_key c (slot bs1)"
    unfolding s by (rule rh_put [OF ok carry i d]) (simp add: e)
  then show "small_table c bs1"
    using small_table_update [OF t] bs1 by simp
  show "rh_carry hash_key c (slot bs1) k1 (Suc d1) (Suc i mod c)"
    unfolding s by (rule rh_carry_swap [OF ok i e])
  assume post: "insert_post c bs1 k1 v1 fresh bs2"
  have no: "slot bs j \<noteq> Some (k, v', d')" if "j < c" for j v' d'
    using rh_carry_absent [OF ok carry _ that] e by simp
  have only: "j = i" if "j < c" "slot bs j = Some (k1, v', d')" for j v' d'
    using rh_distinctD [OF rh_okD(3) [OF ok] that(1) i that(2) e(1)] .
  have in1: "rh_in c (slot bs1) x y \<longleftrightarrow> x = k \<and> y = v \<or> x \<noteq> k1 \<and> rh_in c (slot bs) x y" for x y
    unfolding s rh_in_upd [OF i] using e(1) only by (auto simp: rh_in_def)
  have nok: "\<not> rh_in c (slot bs) k y" for y
    using no by (simp add: rh_in_def)
  have k1: "rh_in c (slot bs) k1 y \<longleftrightarrow> y = v1" for y
    using rh_in_unique [OF ok, of k1 y v1] e(1) i by (auto simp: rh_in_def)
  from nok k1 have "(if x = k1 then y = v1 else rh_in c (slot bs1) x y) \<longleftrightarrow> (if x = k then y = v else rh_in c (slot bs) x y)"
    for x y
    using e(2) by (auto simp: in1)
  moreover have fr: "fresh" "\<not> (\<exists>y. rh_in c (slot bs) k y)"
    using post in1 e(2) nok by (simp_all add: insert_post_def)
  moreover have "card (rh_occ c (slot bs1)) = card (rh_occ c (slot bs))"
    unfolding s using e(1) by (simp add: rh_occ_upd_Some [OF i])
  ultimately show "insert_post c bs k v fresh bs2"
    using post by (simp add: insert_post_def)
qed

lemma u16_succ:
  assumes "unat (d::u16) < c" "c \<le> 32768"
  shows "unat (d + 1) = Suc (unat d)"
  using assms by (subst unat_add_one_less) auto

lemma u16_bound:
  assumes "unat (d::u16) < c" "c \<le> 32768" "unat (of_nat c :: u16) = c"
  shows "\<not> of_nat c < d + 1"
  using assms u16_succ [OF assms(1,2)] by (simp add: word_less_nat_alt)

lemma insert_loop_correct:
  assumes "small_table c bs" "rh_carry hash_key c (slot bs) k (unat d) i" "i < c"
    and "(i + m) mod c = e" "slot bs e = None"
  shows "\<exists>fresh bs'. insert_loop c (c - 1) bs k v d i = Some (Ok (fresh, bs')) \<and> insert_post c bs k v fresh bs'"
  using assms
proof (induction m arbitrary: bs k v d i)
  case 0
  have i: "slot bs i = None" "\<not> hb_occupied (bs ! i)"
    using 0 slot_NoneD [of bs i] small_tableD(4) by auto
  then have "insert_loop c (c - 1) bs k v d i = Some (Ok (True,
      bs[i := \<lparr>hb_key = k, hb_value = v, hb_occupied = True, hb_probe_distance = d\<rparr>]))"
    by (subst insert_loop.simps) (simp add: Let_def)
  with insert_post_place [OF "0.prems"(1-3) i(1)] show ?case
    by blast
next
  case (Suc m)
  note t = small_tableD [OF Suc.prems(1)]
  have e: "(Suc i mod c + m) mod c = e" "e < c"
    using Suc.prems(4) t(1) by (auto simp: mod_simps)
  have d: "unat d < c"
    by (rule rh_carry_less [OF rh_okD(4) [OF t(5)] Suc.prems(2) e(2) Suc.prems(5)])
  note nb = u16_bound [OF d t(2,6)] and sd = u16_succ [OF d t(2)]
  have idx: "(i + 1) AND (c - 1) = Suc i mod c" "Suc i mod c < c"
    using t(1) t(3) [of "i + 1"] by simp_all
  show ?case
  proof (cases "slot bs i")
    case None
    then have "insert_loop c (c - 1) bs k v d i = Some (Ok (True,
        bs[i := \<lparr>hb_key = k, hb_value = v, hb_occupied = True, hb_probe_distance = d\<rparr>]))"
      using slot_NoneD [OF None] t(4) Suc.prems(3) by (subst insert_loop.simps) (simp add: Let_def)
    with insert_post_place [OF Suc.prems(1-3) None] show ?thesis
      by blast
  next
    case (Some a)
    then obtain k1 v1 d1 where s: "slot bs i = Some (k1, v1, d1)"
      by (cases a) auto
    note b = slot_SomeD [OF s]
    show ?thesis
    proof (cases "k1 = k")
      case True
      then have "insert_loop c (c - 1) bs k v d i = Some (Ok (False, bs[i := (bs ! i)\<lparr>hb_value := v\<rparr>]))"
        using b by (subst insert_loop.simps) (simp add: Let_def)
      with insert_post_same [OF Suc.prems(1,3), of k v1 d1 v] s True show ?thesis
        by blast
    next
      case False
      have le: "hb_probe_distance (bs ! i) < d \<longleftrightarrow> d1 < unat d"
        using b(5) by (simp add: word_less_nat_alt)
      show ?thesis
      proof (cases "d1 < unat d")
        case True
        let ?bs = "bs[i := (bs ! i)\<lparr>hb_key := k, hb_value := v, hb_probe_distance := d\<rparr>]"
        note sw = insert_post_swap [where v = v, OF Suc.prems(1-3) s False True d refl]
        have d1: "unat (hb_probe_distance (bs ! i)) < c"
          using True d b(5) by simp
        have "insert_loop c (c - 1) bs k v d i
            = insert_loop c (c - 1) ?bs k1 v1 (hb_probe_distance (bs ! i) + 1) (Suc i mod c)"
          using b False True u16_bound [OF d1 t(2,6)] idx
          by (subst insert_loop.simps) (simp add: Let_def le)
        moreover have "slot ?bs e = None"
          using sw(2) Suc.prems(5) s by auto
        moreover have "rh_carry hash_key c (slot ?bs) k1 (unat (hb_probe_distance (bs ! i) + 1)) (Suc i mod c)"
          using sw(3) u16_succ [OF d1 t(2)] b(5) by simp
        ultimately obtain fresh bs2 where "insert_loop c (c - 1) bs k v d i = Some (Ok (fresh, bs2))"
          "insert_post c ?bs k1 v1 fresh bs2"
          using Suc.IH [OF sw(1) _ idx(2) e(1), where v = v1] by metis
        with sw(4) show ?thesis
          by blast
      next
        case ge: False
        have "insert_loop c (c - 1) bs k v d i = insert_loop c (c - 1) bs k v (d + 1) (Suc i mod c)"
          using b False ge nb idx by (subst insert_loop.simps) (simp add: Let_def le)
        with Suc.IH [OF Suc.prems(1) _ idx(2) e(1) Suc.prems(5), where k = k and d = "d + 1" and v = v]
          rh_carry_advance [OF t(5) Suc.prems(2,3) s False] ge sd show ?thesis
          by auto
      qed
    qed
  qed
qed

section \<open>Lookup\<close>

lemma get_loop_found:
  assumes "small_table c bs" "i0 < c" "slot bs i0 = Some (k, v, d0)" "unat d + m = d0"
  shows "get_loop c (c - 1) bs k d ((hash_key k + unat d) mod c) = Some (Ok v)"
  using assms(4)
proof (induction m arbitrary: d)
  case 0
  note t = small_tableD [OF assms(1)]
  have "(hash_key k + unat d) mod c = i0"
    using rh_placedD [OF rh_okD(2) [OF t(5)] assms(2,3)] 0 by simp
  then show ?case
    using slot_SomeD [OF assms(3)] 0 by (subst get_loop.simps) (simp add: word_less_nat_alt Let_def)
next
  case (Suc m)
  note t = small_tableD [OF assms(1)]
  let ?i = "(hash_key k + unat d) mod c"
  obtain k1 v1 d1 where s: "slot bs ?i = Some (k1, v1, d1)" "unat d \<le> d1"
    using rh_in_path [OF t(5) assms(2,3), of "unat d"] Suc.prems by auto
  have pl: "d0 < c" "(hash_key k + d0) mod c = i0"
    using rh_placedD [OF rh_okD(2) [OF t(5)] assms(2,3)] by simp_all
  have dc: "unat d < c"
    using Suc.prems pl by simp
  have "k1 \<noteq> k"
  proof
    assume "k1 = k"
    with s rh_distinctD [OF rh_okD(3) [OF t(5)] _ assms(2) _ assms(3)] t(1) have "?i = i0"
      by auto
    with mod_add_inj [OF dc pl(1), of "hash_key k"] pl(2) Suc.prems show False
      by simp
  qed
  then have "get_loop c (c - 1) bs k d ?i = get_loop c (c - 1) bs k (d + 1) (Suc ?i mod c)"
    using slot_SomeD [OF s(1)] s(2) u16_bound [OF dc t(2,6)] t(3) [of "?i + 1"]
    by (subst get_loop.simps) (auto simp: word_less_nat_alt Let_def)
  with Suc.IH [of "d + 1"] Suc.prems u16_succ [OF dc t(2)] show ?case
    by (simp add: mod_Suc_eq)
qed

text \<open>
  A probe for an absent key stops: it meets a free slot or an entry closer to its home
  before it has travelled the whole table.
\<close>

lemma probe_absent_step:
  assumes "small_table c bs" "\<forall>y. \<not> rh_in c (slot bs) k y" "i < c"
    and "hb_occupied (bs ! i)" "\<not> d > hb_probe_distance (bs ! i)"
  shows "hb_key (bs ! i) \<noteq> k" "unat d < c"
proof -
  note t = small_tableD [OF assms(1)]
  have s: "slot bs i = Some (hb_key (bs ! i), hb_value (bs ! i), unat (hb_probe_distance (bs ! i)))"
    using assms(3,4) t(4) by (simp add: slot_def)
  with assms(2,3) show "hb_key (bs ! i) \<noteq> k"
    by (auto simp: rh_in_def)
  show "unat d < c"
    using rh_placedD [OF rh_okD(2) [OF t(5)] assms(3) s] assms(5) by (simp add: word_less_nat_alt)
qed

lemma get_loop_absent:
  assumes "small_table c bs" "\<forall>y. \<not> rh_in c (slot bs) k y" "i < c"
  shows "get_loop c (c - 1) bs k d i = Some (Err (KeyNotFound k))"
  using assms(3)
proof (induction "c - unat d" arbitrary: d i rule: less_induct)
  case less
  note t = small_tableD [OF assms(1)]
  show ?case
  proof (cases "\<not> hb_occupied (bs ! i) \<or> d > hb_probe_distance (bs ! i)")
    case True
    then show ?thesis
      by (subst get_loop.simps) (simp add: Let_def)
  next
    case False
    note st = probe_absent_step [OF assms(1,2) less.prems, of d]
    have "get_loop c (c - 1) bs k (d + 1) (Suc i mod c) = Some (Err (KeyNotFound k))"
      using less.hyps [of "d + 1" "Suc i mod c"] False st u16_succ [OF _ t(2), of d] t(1) by auto
    with False st u16_bound [OF _ t(2,6)] t(3) [of "i + 1"] show ?thesis
      by (subst get_loop.simps) (auto simp: Let_def)
  qed
qed

section \<open>Removal\<close>

definition remove_post ::
  "nat \<Rightarrow> HashIndexBucket list \<Rightarrow> KvBlockKey \<Rightarrow> HashIndexBucket list \<Rightarrow> bool" where
  "remove_post c bs k bs' \<longleftrightarrow>
     small_table c bs' \<and>
     (\<forall>x y. rh_in c (slot bs') x y \<longleftrightarrow> x \<noteq> k \<and> rh_in c (slot bs) x y) \<and>
     card (rh_occ c (slot bs')) = card (rh_occ c (slot bs)) - 1"

lemma shift_loop_correct:
  assumes "\<exists>n\<le>15. c = 2 ^ n" "length bs = c" "rh_hole hash_key c (slot bs) p"
    and "(Suc p mod c + m) mod c = e" "slot bs e = None"
  shows "\<exists>bs'. shift_loop (c - 1) bs p (Suc p mod c) = Some bs' \<and> small_table c bs' \<and>
    (\<forall>x y. rh_in c (slot bs') x y \<longleftrightarrow> rh_in c ((slot bs)(p := None)) x y) \<and>
    card (rh_occ c (slot bs')) = card (rh_occ c ((slot bs)(p := None)))"
  using assms(2-)
proof (induction m arbitrary: bs p)
  case 0
  let ?q = "Suc p mod c"
  have pc: "p < c"
    using "0.prems"(2) by (simp add: rh_hole_def)
  then have q: "slot bs ?q = None" "?q < c"
    using "0.prems"(3,4) by auto
  have s: "slot (bs[p := bucket_empty]) = (slot bs)(p := None)"
    using pc "0.prems"(1) by (simp add: slot_update bucket_empty_def)
  have "rh_ok hash_key c (slot (bs[p := bucket_empty]))"
    unfolding s by (rule rh_hole_done [OF "0.prems"(2)]) (simp add: q)
  then have "small_table c (bs[p := bucket_empty])"
    using assms(1) "0.prems"(1) by (simp add: small_table_def)
  moreover have "shift_loop (c - 1) bs p ?q = Some (bs[p := bucket_empty])"
    using slot_NoneD [OF q(1)] q(2) "0.prems"(1) by (subst shift_loop.simps) (simp add: Let_def)
  ultimately show ?case
    by (intro exI conjI allI) (assumption | simp only: s)+
next
  case (Suc m)
  let ?q = "Suc p mod c"
  have pc: "p < c" and pn: "slot bs p \<noteq> None"
    using Suc.prems(2) by (simp_all add: rh_hole_def)
  then have qc: "?q < c"
    by simp
  obtain n where n: "c = 2 ^ n"
    using assms(1) by auto
  have s: "slot (bs[p := bucket_empty]) = (slot bs)(p := None)"
    using pc Suc.prems(1) by (simp add: slot_update bucket_empty_def)
  show ?case
  proof (cases "\<exists>k v d. slot bs ?q = Some (k, v, Suc d)")
    case False
    have "\<not> hb_occupied (bs ! ?q) \<or> hb_probe_distance (bs ! ?q) = 0"
    proof (rule ccontr)
      assume "\<not> (\<not> hb_occupied (bs ! ?q) \<or> hb_probe_distance (bs ! ?q) = 0)"
      then obtain d where "hb_occupied (bs ! ?q)" "unat (hb_probe_distance (bs ! ?q)) = Suc d"
        using not0_implies_Suc unat_eq_zero by blast
      with False qc Suc.prems(1) show False
        by (simp add: slot_def)
    qed
    then have "shift_loop (c - 1) bs p ?q = Some (bs[p := bucket_empty])"
      by (subst shift_loop.simps) (simp add: Let_def)
    moreover have "rh_ok hash_key c (slot (bs[p := bucket_empty]))"
      unfolding s by (rule rh_hole_done [OF Suc.prems(2)]) (use False in simp)
    then have "small_table c (bs[p := bucket_empty])"
      using assms(1) Suc.prems(1) by (simp add: small_table_def)
    ultimately show ?thesis
      by (intro exI conjI allI) (assumption | simp only: s)+
  next
    case True
    then obtain k v d where q: "slot bs ?q = Some (k, v, Suc d)"
      by blast
    have qp: "?q \<noteq> p"
    proof
      assume "?q = p"
      with pc have "c = 1"
        by (cases "Suc p = c") auto
      with Suc.prems(3,4) pn pc show False
        by simp
    qed
    note b = slot_SomeD [OF q]
    let ?nb = "(bs ! ?q)\<lparr>hb_probe_distance := hb_probe_distance (bs ! ?q) - 1\<rparr>"
    let ?bs = "(bs[?q := ?nb])[p := ?nb]"
    have nz: "hb_probe_distance (bs ! ?q) \<noteq> 0"
      using b(5) by auto
    have dec: "unat (hb_probe_distance (bs ! ?q) - 1) = d"
      using unat_minus_one [OF nz] b(5) by simp
    have s': "slot ?bs = (slot bs)(?q \<mapsto> (k, v, d), p \<mapsto> (k, v, d))"
      using pc qc Suc.prems(1) b dec by (simp add: slot_update)
    have hole: "rh_hole hash_key c (slot ?bs) ?q"
      unfolding s' by (rule rh_hole_shift [OF Suc.prems(2) refl qp q])
    have e: "(Suc ?q mod c + m) mod c = e"
      using Suc.prems(3) by (metis add_Suc add_Suc_right mod_add_left_eq)
    have "slot ?bs e = None"
      unfolding s' using Suc.prems(4) q pn by auto
    moreover have "length ?bs = c"
      using Suc.prems(1) by simp
    ultimately
    obtain bs' where r: "shift_loop (c - 1) ?bs ?q (Suc ?q mod c) = Some bs'" "small_table c bs'"
      "\<forall>x y. rh_in c (slot bs') x y \<longleftrightarrow> rh_in c ((slot ?bs)(?q := None)) x y"
      "card (rh_occ c (slot bs')) = card (rh_occ c ((slot ?bs)(?q := None)))"
      using Suc.IH [OF _ hole e] by blast
    have "shift_loop (c - 1) bs p ?q = shift_loop (c - 1) ?bs ?q (Suc ?q mod c)"
      using b nz nat_and_pow2_minus_1 [of "?q + 1" n] n by (subst shift_loop.simps) (simp add: Let_def)
    then show ?thesis
      using r unfolding s' rh_in_shift [where T = "slot bs", OF pc qc qp q]
        rh_occ_shift [where T = "slot bs", OF pc qc qp q] by metis
  qed
qed

lemma remove_loop_found:
  assumes t: "small_table c bs" and i0: "i0 < c" "slot bs i0 = Some (k, v, d0)" "unat d + m = d0"
    and e: "e < c" "slot bs e = None"
  shows "\<exists>bs'. remove_loop (c - 1) bs k d ((hash_key k + unat d) mod c) = Some (Ok (v, bs')) \<and> remove_post c bs k bs'"
  using i0(3)
proof (induction m arbitrary: d)
  case 0
  note t' = small_tableD [OF t]
  have i: "(hash_key k + unat d) mod c = i0"
    using rh_placedD [OF rh_okD(2) [OF t'(5)] i0(1,2)] 0 by simp
  obtain j where "(Suc i0 mod c + j) mod c = e"
    using mod_reach [OF t'(1) e(1)] by blast
  with shift_loop_correct [of c bs i0 j e] rh_hole_start [OF t'(5) i0(1,2)] e(2) t
  obtain bs' where sh: "shift_loop (c - 1) bs i0 (Suc i0 mod c) = Some bs'" "small_table c bs'"
    "\<forall>x y. rh_in c (slot bs') x y \<longleftrightarrow> rh_in c ((slot bs)(i0 := None)) x y"
    "card (rh_occ c (slot bs')) = card (rh_occ c ((slot bs)(i0 := None)))"
    by (auto simp: small_table_def)
  have only: "j = i0" if "j < c" "slot bs j = Some (k, v', d')" for j v' d'
    using rh_distinctD [OF rh_okD(3) [OF t'(5)] that(1) i0(1) that(2) i0(2)] .
  have "rh_in c ((slot bs)(i0 := None)) x y \<longleftrightarrow> x \<noteq> k \<and> rh_in c (slot bs) x y" for x y
    unfolding rh_in_del using only i0(2) by (fastforce simp: rh_in_def)
  with sh rh_occ_upd_None [OF i0(1), of "slot bs"] i0(2) have "remove_post c bs k bs'"
    by (simp add: remove_post_def)
  moreover have "remove_loop (c - 1) bs k d i0 = Some (Ok (v, bs'))"
    using slot_SomeD [OF i0(2)] 0 sh(1) t'(3) [of "i0 + 1"]
    by (subst remove_loop.simps) (simp add: word_less_nat_alt Let_def)
  ultimately show ?case
    using i by blast
next
  case (Suc m)
  note t' = small_tableD [OF t]
  let ?i = "(hash_key k + unat d) mod c"
  obtain k1 v1 d1 where s: "slot bs ?i = Some (k1, v1, d1)" "unat d \<le> d1"
    using rh_in_path [OF t'(5) i0(1,2), of "unat d"] Suc.prems by auto
  have pl: "d0 < c" "(hash_key k + d0) mod c = i0"
    using rh_placedD [OF rh_okD(2) [OF t'(5)] i0(1,2)] by simp_all
  have dc: "unat d < c"
    using Suc.prems pl by simp
  have "k1 \<noteq> k"
  proof
    assume "k1 = k"
    with s rh_distinctD [OF rh_okD(3) [OF t'(5)] _ i0(1) _ i0(2)] t'(1) have "?i = i0"
      by auto
    with mod_add_inj [OF dc pl(1), of "hash_key k"] pl(2) Suc.prems show False
      by simp
  qed
  then have "remove_loop (c - 1) bs k d ?i = remove_loop (c - 1) bs k (d + 1) (Suc ?i mod c)"
    using slot_SomeD [OF s(1)] s(2) t'(3) [of "?i + 1"]
    by (subst remove_loop.simps) (auto simp: word_less_nat_alt Let_def)
  with Suc.IH [of "d + 1"] Suc.prems u16_succ [OF dc t'(2)] show ?case
    by (simp add: mod_Suc_eq)
qed

lemma remove_loop_absent:
  assumes "small_table c bs" "\<forall>y. \<not> rh_in c (slot bs) k y" "i < c"
  shows "remove_loop (c - 1) bs k d i = Some (Err (KeyNotFound k))"
  using assms(3)
proof (induction "c - unat d" arbitrary: d i rule: less_induct)
  case less
  note t = small_tableD [OF assms(1)]
  show ?case
  proof (cases "\<not> hb_occupied (bs ! i) \<or> d > hb_probe_distance (bs ! i)")
    case True
    then show ?thesis
      by (subst remove_loop.simps) (simp add: Let_def)
  next
    case False
    note st = probe_absent_step [OF assms(1,2) less.prems, of d]
    have "remove_loop (c - 1) bs k (d + 1) (Suc i mod c) = Some (Err (KeyNotFound k))"
      using less.hyps [of "d + 1" "Suc i mod c"] False st u16_succ [OF _ t(2), of d] t(1) by auto
    with False st t(3) [of "i + 1"] show ?thesis
      by (subst remove_loop.simps) (auto simp: Let_def)
  qed
qed

section \<open>The index invariant and its map\<close>

definition hi_inv :: "ConcurrentHashIndex \<Rightarrow> bool" where
  "hi_inv h \<longleftrightarrow>
     16 \<le> hi_capacity h \<and> hi_mask h = hi_capacity h - 1 \<and> small_table (hi_capacity h) (hi_buckets h) \<and>
     hi_count h = card (rh_occ (hi_capacity h) (slot (hi_buckets h))) \<and>
     4 * hi_count h \<le> 3 * hi_capacity h + 4"

text \<open>The map an index stands for: what its iterator lists.\<close>

definition hi_map :: "ConcurrentHashIndex \<Rightarrow> KvBlockKey \<Rightarrow> IndexSlotValue option" where
  "hi_map h = map_of (HashIndex_iter h)"

lemma iter_in:
  assumes "length (hi_buckets h) = hi_capacity h"
  shows "(k, v) \<in> set (HashIndex_iter h) \<longleftrightarrow> rh_in (hi_capacity h) (slot (hi_buckets h)) k v"
  using assms by (force simp: HashIndex_iter_def rh_in_def slot_def in_set_conv_nth image_iff
      split: if_splits)

lemma hi_map_iff:
  assumes "hi_inv h"
  shows "hi_map h k = Some v \<longleftrightarrow> rh_in (hi_capacity h) (slot (hi_buckets h)) k v"
proof -
  note t = small_tableD [of "hi_capacity h" "hi_buckets h"]
  have ok: "rh_ok hash_key (hi_capacity h) (slot (hi_buckets h))" "length (hi_buckets h) = hi_capacity h"
    using assms t by (auto simp: hi_inv_def)
  have "hi_map h k = Some v" if "(k, v) \<in> set (HashIndex_iter h)"
  proof (cases "hi_map h k")
    case (Some w)
    then have "(k, w) \<in> set (HashIndex_iter h)"
      unfolding hi_map_def by (rule map_of_SomeD)
    with that rh_in_unique [OF ok(1), of k v w] Some show ?thesis
      by (simp add: iter_in [OF ok(2)])
  qed (use that in \<open>auto simp: hi_map_def map_of_eq_None_iff image_iff\<close>)
  then show ?thesis
    using map_of_SomeD [of "HashIndex_iter h" k v] by (auto simp: hi_map_def iter_in [OF ok(2), symmetric])
qed

lemma hi_map_None:
  assumes "hi_inv h"
  shows "hi_map h k = None \<longleftrightarrow> (\<forall>y. \<not> rh_in (hi_capacity h) (slot (hi_buckets h)) k y)"
  using hi_map_iff [OF assms, of k] by (metis not_Some_eq)

lemma hi_free_slot:
  assumes "hi_inv h"
  shows "\<exists>e<hi_capacity h. slot (hi_buckets h) e = None"
proof (rule ccontr)
  assume "\<not> ?thesis"
  then have "rh_occ (hi_capacity h) (slot (hi_buckets h)) = {..<hi_capacity h}"
    by (auto simp: rh_occ_def)
  with assms have "hi_count h = hi_capacity h" "16 \<le> hi_capacity h" "4 * hi_count h \<le> 3 * hi_capacity h + 4"
    by (simp_all add: hi_inv_def)
  then show False
    by linarith
qed

lemma next_power_of_two_pow: "\<exists>k. next_power_of_two n = 2 ^ k"
proof (induction n rule: next_power_of_two.induct)
  case (1 n)
  show ?case
  proof (cases "n \<le> 1")
    case True
    then have "next_power_of_two n = 2 ^ 0"
      by (subst next_power_of_two.simps) simp
    then show ?thesis ..
  next
    case False
    with 1 obtain k where "next_power_of_two ((n + 1) div 2) = 2 ^ k"
      by blast
    with False have "next_power_of_two n = 2 ^ Suc k"
      by (subst next_power_of_two.simps) simp
    then show ?thesis ..
  qed
qed

lemma next_power_of_two_ge: "n \<le> next_power_of_two n"
proof (induction n rule: next_power_of_two.induct)
  case (1 n)
  then show ?case
    by (subst next_power_of_two.simps) auto
qed

lemma next_power_of_two_less: "1 < n \<Longrightarrow> next_power_of_two n < 2 * n"
proof (induction n rule: next_power_of_two.induct)
  case (1 n)
  have "next_power_of_two ((n + 1) div 2) < n"
  proof (cases "(n + 1) div 2 = 1")
    case True
    then show ?thesis
      using 1(2) by (subst next_power_of_two.simps) simp
  next
    case False
    obtain k where k: "next_power_of_two ((n + 1) div 2) = 2 ^ k"
      using next_power_of_two_pow by blast
    have "next_power_of_two ((n + 1) div 2) < 2 * ((n + 1) div 2)"
      using 1 False by simp
    then have "2 ^ k \<le> n"
      unfolding k by simp
    show ?thesis
    proof (cases "even n")
      case True
      with \<open>next_power_of_two ((n + 1) div 2) < 2 * ((n + 1) div 2)\<close> show ?thesis
        by simp
    next
      case False
      with 1(2) have "2 ^ k \<noteq> n"
        by (cases k) auto
      with \<open>2 ^ k \<le> n\<close> show ?thesis
        unfolding k by simp
    qed
  qed
  with 1(2) show ?case
    by (subst next_power_of_two.simps) simp
qed

lemma pow2_le_15: "(2::nat) ^ k \<le> 32768 \<Longrightarrow> k \<le> 15"
  using power_le_imp_le_exp [of "2::nat" k 15] by simp

lemma slot_replicate_empty [simp]: "slot (replicate n bucket_empty) = (\<lambda>_. None)"
  by (auto simp: slot_def bucket_empty_def)

lemma hi_inv_new:
  assumes "capacity \<le> 32768"
  shows "hi_inv (HashIndex_new capacity)" "hi_map (HashIndex_new capacity) = Map.empty"
proof -
  define cap where "cap = max (next_power_of_two capacity) 16"
  obtain k where k: "next_power_of_two capacity = 2 ^ k"
    using next_power_of_two_pow by blast
  have "next_power_of_two capacity < 65536"
    using next_power_of_two_less [of capacity] assms
    by (cases "capacity \<le> 1") (simp_all add: next_power_of_two.simps)
  then have "(2::nat) ^ k < 2 ^ 16"
    unfolding k by simp
  then have "k \<le> 15"
    using power_less_imp_less_exp [of "2::nat" k 16] by simp
  then have "\<exists>n\<le>15. cap = 2 ^ n"
    unfolding cap_def k by (cases "16 \<le> (2::nat) ^ k") (auto simp: max_def intro: exI [of _ 4])
  then show "hi_inv (HashIndex_new capacity)"
    by (simp add: hi_inv_def HashIndex_new_def small_table_def rh_ok_def rh_placed_def rh_distinct_def
        rh_ordered_def rh_occ_def Let_def cap_def [symmetric]) (simp add: cap_def)
  show "hi_map (HashIndex_new capacity) = Map.empty"
    by (simp add: hi_map_def HashIndex_iter_def HashIndex_new_def Let_def bucket_empty_def)
qed

lemma hi_inv_insert:
  assumes inv: "hi_inv h"
  shows "HashIndex_insert k v h =
      (if 4 * hi_count h > 3 * hi_capacity h then Some (Err (CapacityExceeded (hi_capacity h)))
       else HashIndex_insert k v h)"
    and "4 * hi_count h \<le> 3 * hi_capacity h \<Longrightarrow>
      \<exists>h'. HashIndex_insert k v h = Some (Ok h') \<and> hi_inv h' \<and> hi_map h' = (hi_map h)(k \<mapsto> v) \<and>
        hi_count h' = hi_count h + (if hi_map h k = None then 1 else 0)"
proof -
  let ?c = "hi_capacity h" and ?bs = "hi_buckets h"
  have t: "small_table ?c ?bs" and m: "hi_mask h = ?c - 1" and cnt: "hi_count h = card (rh_occ ?c (slot ?bs))"
    using inv by (simp_all add: hi_inv_def)
  show "HashIndex_insert k v h =
      (if 4 * hi_count h > 3 * ?c then Some (Err (CapacityExceeded ?c)) else HashIndex_insert k v h)"
    by (simp add: HashIndex_insert_def check_capacity_def)
  assume load: "4 * hi_count h \<le> 3 * ?c"
  obtain e where e: "e < ?c" "slot ?bs e = None"
    using hi_free_slot [OF inv] by blast
  obtain j where j: "(hash_key k mod ?c + j) mod ?c = e"
    using mod_reach [OF small_tableD(1) [OF t] e(1)] by blast
  obtain fresh bs' where r: "insert_loop ?c (?c - 1) ?bs k v 0 (hash_key k mod ?c) = Some (Ok (fresh, bs'))"
    "insert_post ?c ?bs k v fresh bs'"
    using insert_loop_correct [OF t _ _ j e(2), of k 0 v] rh_carry_start [of hash_key ?c "slot ?bs" k]
      small_tableD(1) [OF t] by auto
  let ?h = "h\<lparr>hi_buckets := bs', hi_count := hi_count h + (if fresh then 1 else 0)\<rparr>"
  have ins: "HashIndex_insert k v h = Some (Ok ?h)"
    using load r(1) small_tableD(3) [OF t, of "hash_key k"] by (simp add: HashIndex_insert_def check_capacity_def m)
  have inv': "hi_inv ?h"
    using inv r(2) load cnt by (auto simp: hi_inv_def insert_post_def)
  have map': "hi_map ?h = (hi_map h)(k \<mapsto> v)"
  proof
    fix x
    have "hi_map ?h x = Some y \<longleftrightarrow> ((hi_map h)(k \<mapsto> v)) x = Some y" for y
      unfolding hi_map_iff [OF inv'] fun_upd_apply
      using r(2) hi_map_iff [OF inv, of x y] by (auto simp: insert_post_def)
    then show "hi_map ?h x = ((hi_map h)(k \<mapsto> v)) x"
      by (metis not_Some_eq)
  qed
  have "fresh \<longleftrightarrow> hi_map h k = None"
    using r(2) hi_map_None [OF inv, of k] by (simp add: insert_post_def)
  with ins inv' map' show "\<exists>h'. HashIndex_insert k v h = Some (Ok h') \<and> hi_inv h' \<and>
      hi_map h' = (hi_map h)(k \<mapsto> v) \<and> hi_count h' = hi_count h + (if hi_map h k = None then 1 else 0)"
    by auto
qed

lemma hi_get_correct:
  assumes "hi_inv h"
  shows "HashIndex_get k h = Some (case hi_map h k of None \<Rightarrow> Err (KeyNotFound k) | Some v \<Rightarrow> Ok v)"
proof -
  let ?c = "hi_capacity h" and ?bs = "hi_buckets h"
  have t: "small_table ?c ?bs" and m: "hi_mask h = ?c - 1"
    using assms by (simp_all add: hi_inv_def)
  have g: "HashIndex_get k h = get_loop ?c (?c - 1) ?bs k 0 (hash_key k mod ?c)"
    using small_tableD(3) [OF t, of "hash_key k"] by (simp add: HashIndex_get_def m)
  show ?thesis
  proof (cases "hi_map h k")
    case None
    with get_loop_absent [OF t, of k "hash_key k mod ?c" 0] hi_map_None [OF assms, of k] small_tableD(1) [OF t]
    show ?thesis
      by (simp add: g)
  next
    case (Some v)
    then obtain i d where "i < ?c" "slot ?bs i = Some (k, v, d)"
      using hi_map_iff [OF assms] by (auto simp: rh_in_def)
    from get_loop_found [OF t this, of 0 d] Some show ?thesis
      by (simp add: g)
  qed
qed

lemma hi_remove_correct:
  assumes inv: "hi_inv h"
  shows "hi_map h k = None \<Longrightarrow> HashIndex_remove k h = Some (Err (KeyNotFound k))"
    and "hi_map h k = Some v \<Longrightarrow>
      \<exists>h'. HashIndex_remove k h = Some (Ok (v, h')) \<and> hi_inv h' \<and> hi_map h' = (hi_map h)(k := None) \<and>
        hi_count h = hi_count h' + 1"
proof -
  let ?c = "hi_capacity h" and ?bs = "hi_buckets h"
  have t: "small_table ?c ?bs" and m: "hi_mask h = ?c - 1" and cnt: "hi_count h = card (rh_occ ?c (slot ?bs))"
    using inv by (simp_all add: hi_inv_def)
  have s: "hash_key k AND hi_mask h = hash_key k mod ?c"
    using small_tableD(3) [OF t, of "hash_key k"] by (simp add: m)
  show "HashIndex_remove k h = Some (Err (KeyNotFound k))" if "hi_map h k = None"
    using remove_loop_absent [OF t, of k "hash_key k mod ?c" 0] that hi_map_None [OF inv, of k]
      small_tableD(1) [OF t] unfolding HashIndex_remove_def s unfolding m by simp
  assume v: "hi_map h k = Some v"
  then obtain i d where i: "i < ?c" "slot ?bs i = Some (k, v, d)"
    using hi_map_iff [OF inv] by (auto simp: rh_in_def)
  obtain e where e: "e < ?c" "slot ?bs e = None"
    using hi_free_slot [OF inv] by blast
  from remove_loop_found [OF t i, of 0 d e] e obtain bs' where
    r: "remove_loop (?c - 1) ?bs k 0 (hash_key k mod ?c) = Some (Ok (v, bs'))" "remove_post ?c ?bs k bs'"
    by auto
  let ?h = "h\<lparr>hi_buckets := bs', hi_count := hi_count h - 1\<rparr>"
  have rm: "HashIndex_remove k h = Some (Ok (v, ?h))"
    using r(1) unfolding HashIndex_remove_def s unfolding m by simp
  have inv': "hi_inv ?h"
    using inv r(2) cnt by (auto simp: hi_inv_def remove_post_def)
  have "hi_map ?h = (hi_map h)(k := None)"
  proof
    fix x
    have "hi_map ?h x = Some y \<longleftrightarrow> ((hi_map h)(k := None)) x = Some y" for y
      unfolding hi_map_iff [OF inv'] fun_upd_apply
      using r(2) hi_map_iff [OF inv, of x y] by (auto simp: remove_post_def)
    then show "hi_map ?h x = ((hi_map h)(k := None)) x"
      by (metis not_Some_eq)
  qed
  moreover have "i \<in> rh_occ ?c (slot ?bs)"
    using i by (simp add: rh_occ_def)
  then have "0 < hi_count h"
    unfolding cnt by (auto simp: rh_occ_def card_gt_0_iff)
  ultimately show "\<exists>h'. HashIndex_remove k h = Some (Ok (v, h')) \<and> hi_inv h' \<and>
      hi_map h' = (hi_map h)(k := None) \<and> hi_count h = hi_count h' + 1"
    using rm inv' by auto
qed

section \<open>The index as a map\<close>

definition hi_ins :: "KvBlockKey \<Rightarrow> IndexSlotValue \<Rightarrow> ConcurrentHashIndex \<Rightarrow> ConcurrentHashIndex option" where
  "hi_ins k v h = (case HashIndex_insert k v h of Some (Inr h') \<Rightarrow> Some h' | _ \<Rightarrow> None)"

definition hi_look :: "ConcurrentHashIndex \<Rightarrow> KvBlockKey \<Rightarrow> IndexSlotValue option" where
  "hi_look h k = (case HashIndex_get k h of Some (Inr v) \<Rightarrow> Some v | _ \<Rightarrow> None)"

definition hi_del :: "KvBlockKey \<Rightarrow> ConcurrentHashIndex \<Rightarrow> (IndexSlotValue \<times> ConcurrentHashIndex) option" where
  "hi_del k h = (case HashIndex_remove k h of Some (Inr r) \<Rightarrow> Some r | _ \<Rightarrow> None)"

lemma hi_look_map: "hi_inv h \<Longrightarrow> hi_look h = hi_map h"
  by (auto simp: hi_look_def hi_get_correct fun_eq_iff split: option.splits)

lemma hi_ins_cases:
  assumes "hi_inv h" "hi_ins k v h = Some h'"
  shows "hi_inv h' \<and> hi_map h' = (hi_map h)(k \<mapsto> v)"
proof -
  have "HashIndex_insert k v h = Some (Ok h')"
    using assms(2) by (auto simp: hi_ins_def split: option.splits sum.splits)
  then have "4 * hi_count h \<le> 3 * hi_capacity h"
    by (auto simp: HashIndex_insert_def check_capacity_def split: if_splits)
  from hi_inv_insert(2) [OF assms(1) this, of k v] \<open>HashIndex_insert k v h = Some (Ok h')\<close> show ?thesis
    by auto
qed

lemma hi_del_cases:
  assumes "hi_inv h"
  shows "hi_map h k = None \<Longrightarrow> hi_del k h = None"
    and "hi_map h k = Some v \<Longrightarrow>
      \<exists>h'. hi_del k h = Some (v, h') \<and> hi_inv h' \<and> hi_map h' = (hi_map h)(k := None)"
  using hi_remove_correct [OF assms, of k] by (auto simp: hi_del_def)

interpretation hidx: block_index_del hi_inv hi_ins hi_look hi_del
proof unfold_locales
  fix s k v s'
  assume inv: "hi_inv s"
  show "hi_inv s'" if "hi_ins k v s = Some s'"
    using hi_ins_cases [OF inv that] by simp
  show "hi_look s' = (hi_look s)(k \<mapsto> v)" if "hi_ins k v s = Some s'"
    using hi_ins_cases [OF inv that] inv by (simp add: hi_look_map)
  show "hi_del k s = None \<longleftrightarrow> hi_look s k = None"
    unfolding hi_look_map [OF inv] using hi_del_cases [OF inv, of k] by (cases "hi_map s k") auto
  show "hi_look s k = Some v" if "hi_del k s = Some (v, s')"
    unfolding hi_look_map [OF inv] using hi_del_cases [OF inv, of k] that by (cases "hi_map s k") auto
  show i': "hi_inv s'" if "hi_del k s = Some (v, s')"
    using hi_del_cases [OF inv, of k] that by (cases "hi_map s k") auto
  show "hi_look s' = (hi_look s)(k := None)" if "hi_del k s = Some (v, s')"
    unfolding hi_look_map [OF inv] hi_look_map [OF i' [OF that]]
    using hi_del_cases [OF inv, of k] that by (cases "hi_map s k") auto
qed

section \<open>Properties\<close>

subsection \<open>Sequences of operations\<close>

text \<open>A value for the examples below.\<close>

definition sample_value :: IndexSlotValue where
  "sample_value = \<lparr>tier_id = 0, block_offset = 5, payload_len = 9\<rparr>"

datatype HiOp = OpInsert KvBlockKey IndexSlotValue | OpGet KvBlockKey | OpRemove KvBlockKey

datatype HiResp = RespOk | RespVal IndexSlotValue | RespErr HashIndexError

definition hi_step :: "HiOp \<Rightarrow> ConcurrentHashIndex \<Rightarrow> (HiResp \<times> ConcurrentHashIndex) option" where
  "hi_step op h =
     (case op of
        OpInsert k v \<Rightarrow>
          map_option (\<lambda>r. case r of Inl e \<Rightarrow> (RespErr e, h) | Inr h' \<Rightarrow> (RespOk, h')) (HashIndex_insert k v h)
      | OpGet k \<Rightarrow>
          map_option (\<lambda>r. case r of Inl e \<Rightarrow> (RespErr e, h) | Inr v \<Rightarrow> (RespVal v, h)) (HashIndex_get k h)
      | OpRemove k \<Rightarrow>
          map_option (\<lambda>r. case r of Inl e \<Rightarrow> (RespErr e, h) | Inr (v, h') \<Rightarrow> (RespVal v, h')) (HashIndex_remove k h))"

fun hi_run :: "HiOp list \<Rightarrow> ConcurrentHashIndex \<Rightarrow> (HiResp list \<times> ConcurrentHashIndex) option" where
  "hi_run [] h = Some ([], h)"
| "hi_run (op # ops) h =
     (case hi_step op h of
        None \<Rightarrow> None
      | Some (r, h') \<Rightarrow> map_option (\<lambda>(rs, h''). (r # rs, h'')) (hi_run ops h'))"

text \<open>The specification: a finite map with its size, refusing an insertion above the load bound.\<close>

type_synonym spec_index = "(KvBlockKey \<rightharpoonup> IndexSlotValue) \<times> nat"

fun spec_step :: "nat \<Rightarrow> HiOp \<Rightarrow> spec_index \<Rightarrow> HiResp \<times> spec_index" where
  "spec_step cap (OpInsert k v) (m, n) =
     (if 4 * n > 3 * cap then (RespErr (CapacityExceeded cap), (m, n))
      else (RespOk, (m(k \<mapsto> v), n + (if m k = None then 1 else 0))))"
| "spec_step cap (OpGet k) (m, n) =
     ((case m k of None \<Rightarrow> RespErr (KeyNotFound k) | Some v \<Rightarrow> RespVal v), (m, n))"
| "spec_step cap (OpRemove k) (m, n) =
     (case m k of None \<Rightarrow> (RespErr (KeyNotFound k), (m, n)) | Some v \<Rightarrow> (RespVal v, (m(k := None), n - 1)))"

fun spec_run :: "nat \<Rightarrow> HiOp list \<Rightarrow> spec_index \<Rightarrow> HiResp list \<times> spec_index" where
  "spec_run cap [] s = ([], s)"
| "spec_run cap (op # ops) s =
     (let (r, s') = spec_step cap op s; (rs, s'') = spec_run cap ops s' in (r # rs, s''))"

definition hi_abs :: "ConcurrentHashIndex \<Rightarrow> spec_index" where
  "hi_abs h = (hi_map h, hi_count h)"

lemma capacity_const:
  "HashIndex_insert k v h = Some (Inr h') \<Longrightarrow> hi_capacity h' = hi_capacity h"
  "HashIndex_remove k h = Some (Inr (w, h')) \<Longrightarrow> hi_capacity h' = hi_capacity h"
  by (auto simp: HashIndex_insert_def HashIndex_remove_def split: option.splits sum.splits)

lemma hi_step_refines:
  assumes "hi_inv h"
  shows "\<exists>r h'. hi_step op h = Some (r, h') \<and> hi_inv h' \<and> hi_capacity h' = hi_capacity h \<and>
    spec_step (hi_capacity h) op (hi_abs h) = (r, hi_abs h')"
proof (cases op)
  case (OpInsert k v)
  show ?thesis
  proof (cases "4 * hi_count h > 3 * hi_capacity h")
    case True
    with hi_inv_insert(1) [OF assms, of k v] assms show ?thesis
      by (auto simp: OpInsert hi_step_def hi_abs_def)
  next
    case False
    then obtain h' where "HashIndex_insert k v h = Some (Ok h')" "hi_inv h'" "hi_map h' = (hi_map h)(k \<mapsto> v)"
      "hi_count h' = hi_count h + (if hi_map h k = None then 1 else 0)"
      using hi_inv_insert(2) [OF assms, of k v] by auto
    with False capacity_const(1) [of k v h h'] show ?thesis
      by (simp add: OpInsert hi_step_def hi_abs_def)
  qed
next
  case (OpGet k)
  with assms hi_get_correct [OF assms, of k] show ?thesis
    by (auto simp: hi_step_def hi_abs_def split: option.splits)
next
  case (OpRemove k)
  show ?thesis
  proof (cases "hi_map h k")
    case None
    with hi_remove_correct(1) [OF assms] assms show ?thesis
      by (simp add: OpRemove hi_step_def hi_abs_def)
  next
    case (Some v)
    with hi_remove_correct(2) [OF assms] obtain h' where "HashIndex_remove k h = Some (Ok (v, h'))" "hi_inv h'"
      "hi_map h' = (hi_map h)(k := None)" "hi_count h = hi_count h' + 1"
      by blast
    with Some capacity_const(2) [of k h v h'] show ?thesis
      by (simp add: OpRemove hi_step_def hi_abs_def)
  qed
qed

lemma hi_run_refines:
  assumes "hi_inv h"
  shows "\<exists>rs h'. hi_run ops h = Some (rs, h') \<and> hi_inv h' \<and> hi_capacity h' = hi_capacity h \<and>
    spec_run (hi_capacity h) ops (hi_abs h) = (rs, hi_abs h')"
  using assms
proof (induction ops arbitrary: h)
  case (Cons op ops)
  obtain r h1 where s: "hi_step op h = Some (r, h1)" "hi_inv h1" "hi_capacity h1 = hi_capacity h"
    "spec_step (hi_capacity h) op (hi_abs h) = (r, hi_abs h1)"
    using hi_step_refines [OF Cons.prems] by blast
  with Cons.IH [OF s(2)] show ?case
    by auto
qed simp

text \<open>
  C1: the Robin Hood index refines a finite map.  On an index created with a capacity of
  at most 32768, every sequence of insertions, lookups and removals terminates without
  an out-of-range access, and answers exactly as the map specification does: an
  insertion fails only when the load factor exceeds three quarters, a lookup returns the
  last value stored, and a removal returns and forgets it.
\<close>

theorem hash_index_refines_map:
  assumes "capacity \<le> 32768"
  shows "\<exists>h'. hi_run ops (HashIndex_new capacity) =
      Some (fst (spec_run (hi_capacity (HashIndex_new capacity)) ops (Map.empty, 0)), h') \<and>
    hi_abs h' = snd (spec_run (hi_capacity (HashIndex_new capacity)) ops (Map.empty, 0))"
proof -
  have "hi_abs (HashIndex_new capacity) = (Map.empty, 0)"
    using hi_inv_new(2) [OF assms] by (simp add: hi_abs_def) (simp add: HashIndex_new_def Let_def)
  with hi_run_refines [OF hi_inv_new(1) [OF assms], of ops] show ?thesis
    by auto
qed

theorem hash_index_refines_map_witness:
  "\<exists>h'. hi_run [OpInsert (KvBlockKey 1 2) \<lparr>tier_id = 0, block_offset = 5, payload_len = 9\<rparr>,
                OpGet (KvBlockKey 1 2), OpGet (KvBlockKey 3 4), OpRemove (KvBlockKey 1 2)] (HashIndex_new 16)
     = Some ([RespOk, RespVal \<lparr>tier_id = 0, block_offset = 5, payload_len = 9\<rparr>,
              RespErr (KeyNotFound (KvBlockKey 3 4)),
              RespVal \<lparr>tier_id = 0, block_offset = 5, payload_len = 9\<rparr>], h')"
  using hash_index_refines_map [of 16
      "[OpInsert (KvBlockKey 1 2) \<lparr>tier_id = 0, block_offset = 5, payload_len = 9\<rparr>,
        OpGet (KvBlockKey 1 2), OpGet (KvBlockKey 3 4), OpRemove (KvBlockKey 1 2)]"]
  by auto

text \<open>
  Iteration agrees with lookup.  After any sequence of operations on a fresh index the
  iterator lists every key once, lists as many entries as \<open>len\<close> reports, and lists a pair
  exactly when \<open>get\<close> returns that value for that key.
\<close>

theorem hash_index_iter_agrees:
  assumes "capacity \<le> 32768" "hi_run ops (HashIndex_new capacity) = Some (rs, h)"
  shows "distinct (map fst (HashIndex_iter h)) \<and> length (HashIndex_iter h) = HashIndex_len h \<and>
    ((k, v) \<in> set (HashIndex_iter h) \<longleftrightarrow> HashIndex_get k h = Some (Ok v))"
proof -
  have inv: "hi_inv h"
    using hi_run_refines [OF hi_inv_new(1) [OF assms(1)], of ops] assms(2) by auto
  let ?bs = "hi_buckets h" and ?c = "hi_capacity h"
  have t: "small_table ?c ?bs"
    using inv by (simp add: hi_inv_def)
  note len = small_tableD(4) [OF t]
  have occ: "rh_occ ?c (slot ?bs) = {i. i < length ?bs \<and> hb_occupied (?bs ! i)}"
    using len by (auto simp: rh_occ_def slot_def split: if_splits)
  have l: "length (HashIndex_iter h) = HashIndex_len h"
    using inv by (simp add: HashIndex_iter_def HashIndex_len_def hi_inv_def occ length_filter_conv_card)
  have "inj_on (\<lambda>i. hb_key (?bs ! i)) {i. i < length ?bs \<and> hb_occupied (?bs ! i)}"
  proof (rule inj_onI)
    fix i j
    assume "i \<in> {i. i < length ?bs \<and> hb_occupied (?bs ! i)}" "j \<in> {i. i < length ?bs \<and> hb_occupied (?bs ! i)}"
      "hb_key (?bs ! i) = hb_key (?bs ! j)"
    with rh_distinctD [OF rh_okD(3) [OF small_tableD(5) [OF t]], of i j] len show "i = j"
      by (auto simp: slot_def)
  qed
  then have "card ((\<lambda>i. hb_key (?bs ! i)) ` {i. i < length ?bs \<and> hb_occupied (?bs ! i)}) = length (HashIndex_iter h)"
    using card_image l inv by (fastforce simp: HashIndex_len_def hi_inv_def occ)
  moreover have "(\<lambda>i. hb_key (?bs ! i)) ` {i. i < length ?bs \<and> hb_occupied (?bs ! i)} = set (map fst (HashIndex_iter h))"
    by (force simp: HashIndex_iter_def in_set_conv_nth image_iff)
  ultimately have "distinct (map fst (HashIndex_iter h))"
    by (intro card_distinct) simp
  moreover have "(k, v) \<in> set (HashIndex_iter h) \<longleftrightarrow> HashIndex_get k h = Some (Ok v)"
    using iter_in [OF len] hi_map_iff [OF inv, of k v] hi_get_correct [OF inv, of k]
    by (auto split: option.splits)
  ultimately show ?thesis
    using l by simp
qed

theorem hash_index_iter_agrees_witness:
  "\<exists>rs h. hi_run [OpInsert (KvBlockKey 1 2) sample_value, OpInsert (KvBlockKey 3 4) sample_value] (HashIndex_new 16) = Some (rs, h) \<and>
     length (HashIndex_iter h) = HashIndex_len h"
proof -
  let ?ops = "[OpInsert (KvBlockKey 1 2) sample_value, OpInsert (KvBlockKey 3 4) sample_value]"
  have "hi_inv (HashIndex_new 16)"
    by (simp add: hi_inv_new)
  then obtain rs h where r: "hi_run ?ops (HashIndex_new 16) = Some (rs, h)"
    using hi_run_refines by blast
  have "length (HashIndex_iter h) = HashIndex_len h"
    using hash_index_iter_agrees [OF _ r, of "KvBlockKey 1 2" sample_value] by simp
  with r show ?thesis
    by blast
qed

text \<open>
  Removal undoes an insertion.  If a well-formed index does not hold a key, then
  inserting it and removing it returns the inserted value and leaves every lookup as it
  was before.
\<close>

theorem hash_index_insert_remove:
  assumes "hi_inv h" "HashIndex_get k h = Some (Err (KeyNotFound k))" "HashIndex_insert k v h = Some (Ok h1)"
  shows "\<exists>h2. HashIndex_remove k h1 = Some (Ok (v, h2)) \<and> (\<forall>x. HashIndex_get x h2 = HashIndex_get x h)"
proof -
  have "hi_look h k = None" "hi_ins k v h = Some h1"
    using assms(2,3) by (simp_all add: hi_look_def hi_ins_def)
  with hidx.ins_del [OF assms(1)] obtain h2 where h2: "hi_del k h1 = Some (v, h2)" "hi_inv h2" "hi_look h2 = hi_look h"
    by blast
  then have "HashIndex_remove k h1 = Some (Ok (v, h2))"
    by (auto simp: hi_del_def split: option.splits sum.splits)
  moreover have "HashIndex_get x h2 = HashIndex_get x h" for x
    using h2(3) by (simp add: hi_get_correct [OF h2(2)] hi_get_correct [OF assms(1)]
        hi_look_map [OF h2(2)] hi_look_map [OF assms(1)])
  ultimately show ?thesis
    by blast
qed

theorem hash_index_insert_remove_witness:
  "\<exists>h1 h2. HashIndex_insert (KvBlockKey 7 8) sample_value (HashIndex_new 100) = Some (Ok h1) \<and>
     HashIndex_remove (KvBlockKey 7 8) h1 = Some (Ok (sample_value, h2))"
proof -
  have inv: "hi_inv (HashIndex_new 100)" and m: "hi_map (HashIndex_new 100) = Map.empty"
    by (simp_all add: hi_inv_new)
  have "hi_count (HashIndex_new 100) = 0"
    by (simp add: HashIndex_new_def Let_def)
  then obtain h1 where "HashIndex_insert (KvBlockKey 7 8) sample_value (HashIndex_new 100) = Some (Ok h1)"
    using hi_inv_insert(2) [OF inv, of "KvBlockKey 7 8" sample_value] by auto
  with hash_index_insert_remove [OF inv _ this] m show ?thesis
    by (auto simp: hi_get_correct [OF inv])
qed

text \<open>
  Capacities from 65536 up do not work.  The probe bound is the capacity cast to 16
  bits, which is zero for every power of two from 65536 on, so the first collision ends
  in an error: inserting a key whose home slot holds another key fails with
  \<open>CapacityExceeded\<close> however empty the table is, and a key stored behind its home slot
  cannot be looked up.
\<close>

theorem hash_index_large_capacity_fails:
  assumes "hi_capacity h = 2 ^ n" "16 \<le> n" "4 * hi_count h \<le> 3 * hi_capacity h"
    and "hi_buckets h ! (hash_key k AND hi_mask h) = b" "hb_occupied b" "hb_key b \<noteq> k"
  shows "HashIndex_insert k v h = Some (Err (CapacityExceeded (hi_capacity h))) \<and>
    HashIndex_get k h = Some (Err (KeyNotFound k))"
proof -
  have z: "(of_nat (hi_capacity h) :: u16) = 0"
    using assms(1,2) by (simp add: word_exp_length_eq_0 exp_eq_zero_iff)
  have "insert_loop (hi_capacity h) (hi_mask h) (hi_buckets h) k v 0 (hash_key k AND hi_mask h)
      = Some (Err (CapacityExceeded (hi_capacity h)))"
    using assms(4-6) z by (subst insert_loop.simps) (simp add: Let_def)
  moreover have "get_loop (hi_capacity h) (hi_mask h) (hi_buckets h) k 0 (hash_key k AND hi_mask h)
      = Some (Err (KeyNotFound k))"
    using assms(4-6) z by (subst get_loop.simps) (simp add: Let_def)
  ultimately show ?thesis
    using assms(3) by (simp add: HashIndex_insert_def HashIndex_get_def check_capacity_def)
qed

theorem hash_index_large_capacity_fails_witness:
  "\<exists>h1. HashIndex_insert (KvBlockKey 1 15273) sample_value (HashIndex_new 65536) = Some (Ok h1) \<and> hi_count h1 = 1 \<and>
     HashIndex_insert (KvBlockKey 1 32768) sample_value h1 = Some (Err (CapacityExceeded 65536))"
proof -
  have np: "next_power_of_two 65536 = 65536"
    by (simp add: next_power_of_two.simps)
  have "hash_key (KvBlockKey 1 15273) = unat (2520544595665084068 :: u64)"
    unfolding hash_key_def by (rule arg_cong [of _ _ unat]) code_simp
  then have k1: "hash_key (KvBlockKey 1 15273) AND 65535 = 56996"
    by simp
  have "hash_key (KvBlockKey 1 32768) = unat (10368487869575650980 :: u64)"
    unfolding hash_key_def by (rule arg_cong [of _ _ unat]) code_simp
  then have k2: "hash_key (KvBlockKey 1 32768) AND 65535 = 56996"
    by simp
  let ?h = "HashIndex_new 65536"
  let ?b = "\<lparr>hb_key = KvBlockKey 1 15273, hb_value = sample_value, hb_occupied = True, hb_probe_distance = 0\<rparr>"
  let ?h1 = "?h\<lparr>hi_buckets := (hi_buckets ?h)[56996 := ?b], hi_count := 1\<rparr>"
  have h: "hi_capacity ?h = 65536" "hi_mask ?h = 65535" "hi_buckets ?h = replicate 65536 bucket_empty" "hi_count ?h = 0"
    by (simp_all add: HashIndex_new_def np Let_def)
  have "insert_loop 65536 65535 (replicate 65536 bucket_empty) (KvBlockKey 1 15273) sample_value 0 56996
      = Some (Ok (True, (replicate 65536 bucket_empty)[56996 := ?b]))"
    by (subst insert_loop.simps) (simp add: bucket_empty_def Let_def)
  then have "HashIndex_insert (KvBlockKey 1 15273) sample_value ?h = Some (Ok ?h1)"
    by (simp add: HashIndex_insert_def check_capacity_def h k1)
  moreover have "HashIndex_insert (KvBlockKey 1 32768) sample_value ?h1 = Some (Err (CapacityExceeded (hi_capacity ?h1)))"
    using hash_index_large_capacity_fails [of ?h1 16 "KvBlockKey 1 32768" ?b sample_value]
    by (simp add: h k2)
  ultimately show ?thesis
    by (simp add: h)
qed

end
