(* ===== verification/Radix_Tree.thy ===== *)
theory Radix_Tree
  imports Kv_Block Index_Spec
begin

text \<open>
  The virtual-address radix tree of \<open>index/src/radix_tree.rs\<close>: four levels of sixteen
  bits, exact-address insertion and lookup, and the stepping range query.  A branch's
  hash map is a partial function from chunks to child nodes.
\<close>

section \<open>Definitions\<close>

datatype RadixTreeError =
    AddressUnmapped u64
  | RadixAllocationFailed
  | InvalidRange u64 u64

record RadixLeafValue =
  rl_block_key :: KvBlockKey
  rl_frame_offset :: u64
  rl_flags :: u32

datatype Node = Branch "u16 \<Rightarrow> Node option" | Leaf RadixLeafValue

definition new_branch :: Node where
  "new_branch = Branch (\<lambda>_. None)"

record ConcurrentRadixTree =
  rt_root :: Node
  rt_entry_count :: nat

definition RadixTree_new :: ConcurrentRadixTree where
  "RadixTree_new = \<lparr>rt_root = new_branch, rt_entry_count = 0\<rparr>"

definition RADIX_BITS_PER_LEVEL :: nat where "RADIX_BITS_PER_LEVEL = 16"

definition extract_chunk :: "u64 \<Rightarrow> nat \<Rightarrow> u16" where
  "extract_chunk vaddr level = ucast (drop_bit ((3 - level) * RADIX_BITS_PER_LEVEL) vaddr AND 0xFFFF)"

text \<open>
  The loops over \<open>level in 0..4\<close> recurse on the number of remaining levels \<open>n\<close>; the
  current level is \<open>4 - n\<close>.  The boolean of \<open>insert_at\<close> says whether the leaf is new.
\<close>

fun insert_at :: "nat \<Rightarrow> u64 \<Rightarrow> RadixLeafValue \<Rightarrow> Node \<Rightarrow> (RadixTreeError, bool \<times> Node) result" where
  "insert_at 0 vaddr v node = Ok (False, node)"
| "insert_at (Suc n) vaddr v (Leaf x) = Err (AddressUnmapped vaddr)"
| "insert_at (Suc n) vaddr v (Branch children) =
     (let chunk = extract_chunk vaddr (3 - n) in
      if n = 0 then Ok (children chunk = None, Branch (children(chunk \<mapsto> Leaf v)))
      else
        (let child = (case children chunk of None \<Rightarrow> new_branch | Some c \<Rightarrow> c) in
         case insert_at n vaddr v child of
           Inl e \<Rightarrow> Err e
         | Inr (fresh, child') \<Rightarrow> Ok (fresh, Branch (children(chunk \<mapsto> child')))))"

definition RadixTree_insert ::
  "u64 \<Rightarrow> RadixLeafValue \<Rightarrow> ConcurrentRadixTree \<Rightarrow> (RadixTreeError, ConcurrentRadixTree) result" where
  "RadixTree_insert vaddr v t =
     (case insert_at 4 vaddr v (rt_root t) of
        Inl e \<Rightarrow> Err e
      | Inr (fresh, node) \<Rightarrow>
          Ok (t\<lparr>rt_root := node, rt_entry_count := rt_entry_count t + (if fresh then 1 else 0)\<rparr>))"

fun lookup_at :: "nat \<Rightarrow> u64 \<Rightarrow> Node \<Rightarrow> (RadixTreeError, RadixLeafValue) result" where
  "lookup_at 0 vaddr (Leaf v) = Ok v"
| "lookup_at 0 vaddr (Branch children) = Err (AddressUnmapped vaddr)"
| "lookup_at (Suc n) vaddr (Leaf v) = Err (AddressUnmapped vaddr)"
| "lookup_at (Suc n) vaddr (Branch children) =
     (case children (extract_chunk vaddr (3 - n)) of
        Some child \<Rightarrow> lookup_at n vaddr child
      | None \<Rightarrow> Err (AddressUnmapped vaddr))"

definition RadixTree_lookup ::
  "u64 \<Rightarrow> ConcurrentRadixTree \<Rightarrow> (RadixTreeError, RadixLeafValue) result" where
  "RadixTree_lookup vaddr t = lookup_at 4 vaddr (rt_root t)"

text \<open>The range loop; \<open>None\<close> is a loop that does not end, and the addition wraps.\<close>

partial_function (option) lookup_range_loop ::
  "ConcurrentRadixTree \<Rightarrow> u64 \<Rightarrow> u64 \<Rightarrow> u64 \<Rightarrow> (u64 \<times> RadixLeafValue) list
   \<Rightarrow> (u64 \<times> RadixLeafValue) list option"
where
  "lookup_range_loop t cur end_vaddr step results =
     (if cur < end_vaddr
      then lookup_range_loop t (cur + step) end_vaddr step
             (case RadixTree_lookup cur t of Inr v \<Rightarrow> results @ [(cur, v)] | Inl _ \<Rightarrow> results)
      else Some results)"

definition lookup_range ::
  "u64 \<Rightarrow> u64 \<Rightarrow> u64 \<Rightarrow> ConcurrentRadixTree \<Rightarrow> (u64 \<times> RadixLeafValue) list option" where
  "lookup_range start_vaddr end_vaddr step t = lookup_range_loop t start_vaddr end_vaddr step []"

definition RadixTree_len :: "ConcurrentRadixTree \<Rightarrow> nat" where
  "RadixTree_len t = rt_entry_count t"

section \<open>Addresses and chunks\<close>

lemma bit_extract_chunk:
  "l < 4 \<Longrightarrow> j < 16 \<Longrightarrow> bit (extract_chunk a l) j \<longleftrightarrow> bit a ((3 - l) * 16 + j)"
proof -
  have m: "(0xFFFF::u64) = mask 16"
    by (simp add: mask_eq_exp_minus_1)
  assume "l < 4" "j < 16"
  then show ?thesis
    unfolding extract_chunk_def RADIX_BITS_PER_LEVEL_def m
    by (auto simp: bit_simps add.commute)
qed

lemma extract_chunk_inject:
  assumes "\<And>l. l < 4 \<Longrightarrow> extract_chunk a l = extract_chunk b l"
  shows "a = b"
proof (rule bit_word_eqI)
  fix n
  assume "n < LENGTH(64)"
  then have l: "3 - n div 16 < 4" "n mod 16 < 16" "(3 - (3 - n div 16)) * 16 + n mod 16 = n"
    by (auto simp: less_mult_imp_div_less)
  from assms [OF l(1)] show "bit a n = bit b n"
    using bit_extract_chunk [OF l(1,2), of a] bit_extract_chunk [OF l(1,2), of b] l(3) by simp
qed

text \<open>The addresses agree on the last \<open>n\<close> chunks.\<close>

definition same_tail :: "nat \<Rightarrow> u64 \<Rightarrow> u64 \<Rightarrow> bool" where
  "same_tail n a b \<longleftrightarrow> (\<forall>l<n. extract_chunk a (3 - l) = extract_chunk b (3 - l))"

lemma same_tail_Suc:
  "same_tail (Suc n) a b \<longleftrightarrow> extract_chunk a (3 - n) = extract_chunk b (3 - n) \<and> same_tail n a b"
  by (auto simp: same_tail_def less_Suc_eq)

lemma same_tail_4: "same_tail 4 a b \<longleftrightarrow> a = b"
proof
  assume "same_tail 4 a b"
  then have "extract_chunk a l = extract_chunk b l" if "l < 4" for l
    using that by (auto simp: same_tail_def dest: spec [of _ "3 - l"])
  then show "a = b"
    by (rule extract_chunk_inject)
qed (simp add: same_tail_def)

section \<open>Trees of the right depth\<close>

fun depth_ok :: "nat \<Rightarrow> Node \<Rightarrow> bool" where
  "depth_ok 0 (Leaf v) = True"
| "depth_ok 0 (Branch ch) = False"
| "depth_ok (Suc n) (Leaf v) = False"
| "depth_ok (Suc n) (Branch ch) = (\<forall>c x. ch c = Some x \<longrightarrow> depth_ok n x)"

definition look_at :: "nat \<Rightarrow> Node \<Rightarrow> u64 \<Rightarrow> RadixLeafValue option" where
  "look_at n t a = (case lookup_at n a t of Inl _ \<Rightarrow> None | Inr v \<Rightarrow> Some v)"

lemma look_at_simps [simp]:
  "look_at 0 (Leaf v) a = Some v"
  "look_at (Suc n) (Branch ch) a = (case ch (extract_chunk a (3 - n)) of None \<Rightarrow> None | Some c \<Rightarrow> look_at n c a)"
  by (auto simp: look_at_def split: option.splits)

lemma look_at_new_branch [simp]: "look_at (Suc n) new_branch a = None"
  by (simp add: new_branch_def)

lemma insert_at_correct:
  assumes "depth_ok (Suc n) t"
  shows "\<exists>fresh t'. insert_at (Suc n) a v t = Ok (fresh, t') \<and> depth_ok (Suc n) t' \<and>
    (\<forall>b. look_at (Suc n) t' b = (if same_tail (Suc n) a b then Some v else look_at (Suc n) t b)) \<and>
    (fresh \<longleftrightarrow> look_at (Suc n) t a = None)"
  using assms
proof (induction n arbitrary: t)
  case 0
  then obtain ch where t: "t = Branch ch"
    by (cases t) auto
  have leaf: "\<exists>w. x = Leaf w" if "ch c = Some x" for c x
    using 0 that by (cases x) (fastforce simp: t)+
  then have "ch c = None \<longleftrightarrow> look_at (Suc 0) t b = None" if "c = extract_chunk b 3" for b c
    using that by (fastforce simp: t split: option.splits)
  with 0 show ?case
    by (auto simp: t Let_def same_tail_def split: option.splits)
next
  case (Suc n)
  then obtain ch where t: "t = Branch ch"
    by (cases t) auto
  let ?k = "extract_chunk a (3 - Suc n)"
  let ?c = "case ch ?k of None \<Rightarrow> new_branch | Some c \<Rightarrow> c"
  have "depth_ok (Suc n) ?c"
    using Suc.prems by (auto simp: t new_branch_def split: option.splits)
  from Suc.IH [OF this] obtain fresh c' where c': "insert_at (Suc n) a v ?c = Ok (fresh, c')" "depth_ok (Suc n) c'"
    "\<And>b. look_at (Suc n) c' b = (if same_tail (Suc n) a b then Some v else look_at (Suc n) ?c b)"
    "fresh \<longleftrightarrow> look_at (Suc n) ?c a = None"
    by blast
  have ins: "insert_at (Suc (Suc n)) a v t = Ok (fresh, Branch (ch(?k \<mapsto> c')))"
    using c'(1) by (simp add: t Let_def)
  have "depth_ok (Suc (Suc n)) (Branch (ch(?k \<mapsto> c')))"
    using Suc.prems c'(2) by (auto simp: t)
  moreover have "look_at (Suc (Suc n)) (Branch (ch(?k \<mapsto> c'))) b =
      (if same_tail (Suc (Suc n)) a b then Some v else look_at (Suc (Suc n)) t b)" for b
    unfolding same_tail_Suc [of "Suc n"] t look_at_simps(2) [of "Suc n"]
    by (auto simp: c'(3) split: option.splits)
  moreover have "fresh \<longleftrightarrow> look_at (Suc (Suc n)) t a = None"
    unfolding t look_at_simps(2) [of "Suc n"] using c'(4) by (auto split: option.splits)
  ultimately show ?case
    using ins by blast
qed

definition rt_look :: "ConcurrentRadixTree \<Rightarrow> u64 \<Rightarrow> RadixLeafValue option" where
  "rt_look t a = (case RadixTree_lookup a t of Inl _ \<Rightarrow> None | Inr v \<Rightarrow> Some v)"

definition rt_inv :: "ConcurrentRadixTree \<Rightarrow> bool" where
  "rt_inv t \<longleftrightarrow> depth_ok 4 (rt_root t) \<and> rt_entry_count t = card (dom (rt_look t))"

lemma rt_look_at: "rt_look t = look_at 4 (rt_root t)"
  by (auto simp: rt_look_def RadixTree_lookup_def look_at_def)

lemma lookup_at_error: "lookup_at n a t = Inl e \<Longrightarrow> e = AddressUnmapped a"
  by (induction n a t rule: lookup_at.induct) (auto split: option.splits)

lemma RadixTree_lookup_eq:
  "RadixTree_lookup a t = (case rt_look t a of None \<Rightarrow> Err (AddressUnmapped a) | Some v \<Rightarrow> Ok v)"
  by (auto simp: rt_look_def RadixTree_lookup_def dest: lookup_at_error split: sum.splits)

lemma rt_inv_new [simp]: "rt_inv RadixTree_new" "rt_look RadixTree_new = Map.empty"
proof -
  show e: "rt_look RadixTree_new = Map.empty"
    by (auto simp: rt_look_at RadixTree_new_def numeral_eq_Suc)
  then show "rt_inv RadixTree_new"
    by (simp add: rt_inv_def) (simp add: RadixTree_new_def new_branch_def numeral_eq_Suc)
qed

lemma rt_insert_correct:
  assumes "rt_inv t"
  shows "\<exists>t'. RadixTree_insert a v t = Ok t' \<and> rt_inv t' \<and> rt_look t' = (rt_look t)(a \<mapsto> v)"
proof -
  have "depth_ok (Suc 3) (rt_root t)"
    using assms by (simp add: rt_inv_def numeral_eq_Suc)
  from insert_at_correct [OF this, of a v] obtain fresh r where r: "insert_at 4 a v (rt_root t) = Ok (fresh, r)"
    "depth_ok 4 r" "\<And>b. look_at 4 r b = (if same_tail 4 a b then Some v else look_at 4 (rt_root t) b)"
    "fresh \<longleftrightarrow> look_at 4 (rt_root t) a = None"
    by (auto simp: numeral_eq_Suc)
  let ?t = "t\<lparr>rt_root := r, rt_entry_count := rt_entry_count t + (if fresh then 1 else 0)\<rparr>"
  have m: "rt_look ?t = (rt_look t)(a \<mapsto> v)"
    using r(3) by (auto simp: rt_look_at same_tail_4)
  have "card (dom ((rt_look t)(a \<mapsto> v))) = card (dom (rt_look t)) + (if fresh then 1 else 0)"
    using r(4) by (auto simp: rt_look_at card_insert_if domIff)
  then have "rt_inv ?t"
    using assms r(2) m by (simp add: rt_inv_def)
  with m r(1) show ?thesis
    by (simp add: RadixTree_insert_def)
qed

definition rt_ins :: "u64 \<Rightarrow> RadixLeafValue \<Rightarrow> ConcurrentRadixTree \<Rightarrow> ConcurrentRadixTree option" where
  "rt_ins a v t = (case RadixTree_insert a v t of Inl _ \<Rightarrow> None | Inr t' \<Rightarrow> Some t')"

interpretation radix: block_index rt_inv rt_ins rt_look
proof unfold_locales
  fix s k v s'
  assume "rt_inv s" "rt_ins k v s = Some s'"
  with rt_insert_correct [of s k v] show "rt_inv s'" "rt_look s' = (rt_look s)(k \<mapsto> v)"
    by (auto simp: rt_ins_def)
qed

section \<open>Properties\<close>

fun radix_insert_all :: "(u64 \<times> RadixLeafValue) list \<Rightarrow> ConcurrentRadixTree \<Rightarrow> (RadixTreeError, ConcurrentRadixTree) result" where
  "radix_insert_all [] t = Ok t"
| "radix_insert_all ((a, v) # avs) t =
     (case RadixTree_insert a v t of Inl e \<Rightarrow> Err e | Inr t' \<Rightarrow> radix_insert_all avs t')"

lemma radix_insert_all_ok:
  assumes "rt_inv t"
  shows "\<exists>t'. radix_insert_all avs t = Ok t' \<and> radix.ins_all avs t = Some t'"
  using assms
proof (induction avs t rule: radix_insert_all.induct)
  case (2 a v avs t)
  obtain t1 where "RadixTree_insert a v t = Ok t1" "rt_inv t1"
    using rt_insert_correct [OF "2.prems"] by blast
  moreover from this(1) have "rt_ins a v t = Some t1"
    by (simp add: rt_ins_def)
  ultimately show ?case
    using "2.IH" by simp
qed simp

text \<open>
  C8: the radix tree is a map on 64-bit addresses.  Inserting any list of address-value
  pairs into a new tree succeeds; a lookup then returns the last value inserted at exactly
  that address and reports every other address unmapped, so no two addresses share an
  entry; and the entry count is the number of distinct addresses inserted.
\<close>

theorem radix_tree_is_map:
  "\<exists>t. radix_insert_all avs RadixTree_new = Ok t \<and>
     (\<forall>a. RadixTree_lookup a t =
        (case map_of (rev avs) a of None \<Rightarrow> Err (AddressUnmapped a) | Some v \<Rightarrow> Ok v)) \<and>
     RadixTree_len t = card (fst ` set avs)"
proof -
  obtain t where t: "radix_insert_all avs RadixTree_new = Ok t" "radix.ins_all avs RadixTree_new = Some t"
    using radix_insert_all_ok [OF rt_inv_new(1)] by blast
  from radix.ins_all_correct [OF rt_inv_new(1) t(2)] have "rt_inv t" "rt_look t = map_of (rev avs)"
    by simp_all
  then show ?thesis
    using t(1) by (auto simp: RadixTree_lookup_eq rt_inv_def RadixTree_len_def dom_map_of_conv_image_fst)
qed

lemma range_loop_correct:
  assumes "0 < unat step" "unat en + unat step \<le> 2 ^ 64"
  shows "\<exists>rs. lookup_range_loop t cur en step acc = Some (acc @ rs) \<and>
    sorted_wrt (<) (map fst rs) \<and>
    set rs = {(a, v). unat cur \<le> unat a \<and> unat a < unat en \<and> unat step dvd (unat a - unat cur) \<and> rt_look t a = Some v}"
proof (induction "unat en - unat cur" arbitrary: cur acc rule: less_induct)
  case less
  show ?case
  proof (cases "cur < en")
    case False
    then have "lookup_range_loop t cur en step acc = Some (acc @ [])"
      by (subst lookup_range_loop.simps) simp
    with False show ?thesis
      by (intro exI [of _ "[]"]) (auto simp: word_less_nat_alt)
  next
    case True
    then have lt: "unat cur < unat en"
      by (simp add: word_less_nat_alt)
    have nx: "unat (cur + step) = unat cur + unat step"
      using lt assms(2) by (simp add: unat_word_ariths)
    have dec: "unat en - unat (cur + step) < unat en - unat cur"
      using nx lt assms(1) by linarith
    let ?hd = "case rt_look t cur of None \<Rightarrow> [] | Some v \<Rightarrow> [(cur, v)]"
    have st: "lookup_range_loop t cur en step acc = lookup_range_loop t (cur + step) en step (acc @ ?hd)"
      using True by (subst lookup_range_loop.simps) (simp add: RadixTree_lookup_eq split: option.splits)
    obtain rs where rs: "lookup_range_loop t (cur + step) en step (acc @ ?hd) = Some ((acc @ ?hd) @ rs)"
      "sorted_wrt (<) (map fst rs)"
      "set rs = {(a, v). unat (cur + step) \<le> unat a \<and> unat a < unat en \<and>
                  unat step dvd (unat a - unat (cur + step)) \<and> rt_look t a = Some v}"
      using less [OF dec, of "acc @ ?hd"] by blast
    have "sorted_wrt (<) (map fst (?hd @ rs))"
      using rs(2,3) nx assms(1) by (auto simp: word_less_nat_alt split: option.splits)
    moreover have "set (?hd @ rs) = {(a, v). unat cur \<le> unat a \<and> unat a < unat en \<and>
        unat step dvd (unat a - unat cur) \<and> rt_look t a = Some v}"
    proof -
      have grid: "unat cur \<le> unat a \<and> unat step dvd (unat a - unat cur) \<longleftrightarrow>
          a = cur \<or> unat (cur + step) \<le> unat a \<and> unat step dvd (unat a - unat (cur + step))" for a
      proof (cases "unat a < unat cur + unat step")
        case True
        then have "unat cur \<le> unat a \<and> unat step dvd (unat a - unat cur) \<longleftrightarrow> unat a = unat cur"
          using dvd_imp_le [of "unat step" "unat a - unat cur"] True
          by (cases "unat cur < unat a") (simp_all, linarith, auto)
        with True assms(1) show ?thesis
          by (auto simp: nx dest: unsigned_word_eqI)
      next
        case False
        then have e: "unat a - unat cur = (unat a - (unat cur + unat step)) + unat step"
          by simp
        have "unat step dvd (unat a - unat cur) \<longleftrightarrow> unat step dvd (unat a - (unat cur + unat step))"
          by (subst e) simp
        with False show ?thesis
          unfolding nx using assms(1) by auto
      qed
      have "{(a, v). unat cur \<le> unat a \<and> unat a < unat en \<and> unat step dvd (unat a - unat cur) \<and> rt_look t a = Some v}
          = {(a, v). (unat cur \<le> unat a \<and> unat step dvd (unat a - unat cur)) \<and> unat a < unat en \<and> rt_look t a = Some v}"
        by blast
      then show ?thesis
        unfolding grid set_append rs(3) using lt by (cases "rt_look t cur") auto
    qed
    ultimately show ?thesis
      using st rs(1) by (intro exI [of _ "?hd @ rs"]) simp
  qed
qed

text \<open>
  Range queries return the grid.  With a positive step and an end that leaves room
  for one step below the top of the address space, the query ends and returns, in
  increasing order, exactly the mapped addresses of the half-open range that lie on the
  step grid, with their values.
\<close>

theorem lookup_range_grid:
  assumes "0 < unat step" "unat en + unat step \<le> 2 ^ 64"
  shows "\<exists>rs. lookup_range start en step t = Some rs \<and> sorted_wrt (<) (map fst rs) \<and>
    set rs = {(a, v). unat start \<le> unat a \<and> unat a < unat en \<and> unat step dvd (unat a - unat start) \<and>
                      RadixTree_lookup a t = Ok v}"
proof -
  have "RadixTree_lookup a t = Ok v \<longleftrightarrow> rt_look t a = Some v" for a v
    by (auto simp: RadixTree_lookup_eq split: option.splits)
  then show ?thesis
    using range_loop_correct [OF assms, of t start "[]"] by (simp add: lookup_range_def)
qed

theorem lookup_range_grid_witness:
  "\<exists>rs. lookup_range 0x1000 0x4000 0x1000 RadixTree_new = Some rs \<and> sorted_wrt (<) (map fst rs)"
  using lookup_range_grid [of "0x1000" "0x4000" "0x1000" RadixTree_new] by auto

text \<open>With a step of zero a range query over a non-empty range never returns.\<close>

theorem lookup_range_zero_step_diverges:
  assumes "start < en"
  shows "lookup_range start en 0 t = None"
proof -
  have "st = 0 \<longrightarrow> \<not> cur < en'" if "lookup_range_loop t cur en' st acc = Some r" for cur en' st acc r
    by (rule lookup_range_loop.raw_induct [OF _ that,
          where P = "\<lambda>t cur en' st acc r. st = 0 \<longrightarrow> \<not> cur < en'"]) (auto split: if_splits)
  with assms show ?thesis
    unfolding lookup_range_def by (metis not_None_eq)
qed

theorem lookup_range_zero_step_diverges_witness: "lookup_range 0 1 0 RadixTree_new = None"
  by (rule lookup_range_zero_step_diverges) simp

end
