(* ===== verification/Eviction.thy ===== *)
theory Eviction
  imports Kv_Block
begin

text \<open>
  The two-queue eviction policy of \<open>index/src/eviction.rs\<close>.  Each queue sits behind its
  own mutex and every method runs to completion, so a method is one transition of the
  pair of queues.
\<close>

section \<open>Definitions\<close>

datatype EvictionError = QueueEmpty | EvictKeyNotFound

record TwoQEvictionPolicy =
  in_queue :: "KvBlockKey list"
  lru_queue :: "KvBlockKey list"

definition TwoQ_new :: TwoQEvictionPolicy where
  "TwoQ_new = \<lparr>in_queue = [], lru_queue = []\<rparr>"

text \<open>\<open>position\<close> followed by \<open>remove(pos)\<close> deletes the first occurrence of the key.\<close>

definition touch :: "KvBlockKey \<Rightarrow> TwoQEvictionPolicy \<Rightarrow> TwoQEvictionPolicy" where
  "touch key p =
     (if key \<in> set (lru_queue p) then p\<lparr>lru_queue := remove1 key (lru_queue p) @ [key]\<rparr>
      else if key \<in> set (in_queue p) then p\<lparr>in_queue := remove1 key (in_queue p) @ [key]\<rparr>
      else p\<lparr>in_queue := in_queue p @ [key]\<rparr>)"

definition evict_next ::
  "TwoQEvictionPolicy \<Rightarrow> (EvictionError, KvBlockKey) result \<times> TwoQEvictionPolicy" where
  "evict_next p =
     (case lru_queue p of
        key # rest \<Rightarrow> (Ok key, p\<lparr>lru_queue := rest\<rparr>)
      | [] \<Rightarrow>
          (case in_queue p of
             key # rest \<Rightarrow> (Ok key, p\<lparr>in_queue := rest\<rparr>)
           | [] \<Rightarrow> (Err QueueEmpty, p)))"

definition evict_remove ::
  "KvBlockKey \<Rightarrow> TwoQEvictionPolicy \<Rightarrow> (EvictionError, unit) result \<times> TwoQEvictionPolicy" where
  "evict_remove key p =
     (if key \<in> set (lru_queue p) then (Ok (), p\<lparr>lru_queue := remove1 key (lru_queue p)\<rparr>)
      else if key \<in> set (in_queue p) then (Ok (), p\<lparr>in_queue := remove1 key (in_queue p)\<rparr>)
      else (Err EvictKeyNotFound, p))"

section \<open>Steps and reachable policies\<close>

inductive evict_step :: "TwoQEvictionPolicy \<Rightarrow> TwoQEvictionPolicy \<Rightarrow> bool" where
  step_touch: "evict_step p (touch k p)"
| step_evict: "evict_step p (snd (evict_next p))"
| step_remove: "evict_step p (snd (evict_remove k p))"

inductive_cases evict_stepE [elim]: "evict_step p q"

inductive evict_reachable :: "TwoQEvictionPolicy \<Rightarrow> bool" where
  reach_new: "evict_reachable TwoQ_new"
| reach_step: "evict_reachable p \<Longrightarrow> evict_step p q \<Longrightarrow> evict_reachable q"

definition evict_inv :: "TwoQEvictionPolicy \<Rightarrow> bool" where
  "evict_inv p \<longleftrightarrow> lru_queue p = [] \<and> distinct (in_queue p)"

lemma evict_inv_ops [inv_intro]:
  assumes "evict_inv p"
  shows "evict_inv (touch k p)" "evict_inv (snd (evict_next p))" "evict_inv (snd (evict_remove k p))"
  using assms
  by (auto simp: evict_inv_def touch_def evict_next_def evict_remove_def distinct_remove1 split: list.splits)

text \<open>
  No key is ever promoted.  In every reachable state of the policy the LRU queue is
  empty and the in-queue holds no key twice, so the policy never moves a key from the FIFO
  queue to the LRU queue.
\<close>

theorem evict_lru_never_used:
  assumes "evict_reachable p"
  shows "lru_queue p = [] \<and> distinct (in_queue p)"
  using assms
proof induction
  case (reach_step p q)
  then have "evict_inv q"
    using evict_inv_ops [of p] by (auto simp: evict_inv_def)
  then show ?case
    by (simp add: evict_inv_def)
qed (simp add: TwoQ_new_def)

theorem evict_lru_never_used_witness:
  "lru_queue (touch (KvBlockKey 1 1) (touch (KvBlockKey 1 1) TwoQ_new)) = []"
  using evict_lru_never_used [of "touch (KvBlockKey 1 1) (touch (KvBlockKey 1 1) TwoQ_new)"]
  by (blast intro: evict_reachable.intros evict_step.intros)

lemma touch_remdups:
  "touch k \<lparr>in_queue = remdups ks, lru_queue = []\<rparr> = \<lparr>in_queue = remdups (ks @ [k]), lru_queue = []\<rparr>"
proof -
  have "remdups (ks @ [k]) = removeAll k (remdups ks) @ [k]"
    by (induction ks) auto
  then show ?thesis
    by (simp add: touch_def distinct_remove1_removeAll)
qed

lemma touches_remdups:
  "foldl (\<lambda>p k. touch k p) TwoQ_new ks = \<lparr>in_queue = remdups ks, lru_queue = []\<rparr>"
  by (induction ks rule: rev_induct) (simp_all add: TwoQ_new_def touch_remdups)

fun evict_all :: "nat \<Rightarrow> TwoQEvictionPolicy \<Rightarrow> KvBlockKey list" where
  "evict_all 0 p = []"
| "evict_all (Suc n) p = (case evict_next p of (Inl _, _) \<Rightarrow> [] | (Inr k, p') \<Rightarrow> k # evict_all n p')"

lemma evict_all_queue: "evict_all n \<lparr>in_queue = ks, lru_queue = []\<rparr> = take n ks"
  by (induction n arbitrary: ks) (auto simp: evict_next_def split: list.splits)

text \<open>
  Eviction is least recently used.  After any sequence of accesses to a new policy,
  repeated eviction returns every accessed key once, in the order of its last access,
  and then reports an empty queue.
\<close>

theorem evict_order_is_lru:
  "evict_all n (foldl (\<lambda>p k. touch k p) TwoQ_new ks) = take n (remdups ks) \<and>
   (fst (evict_next (foldl (\<lambda>p k. touch k p) TwoQ_new ks)) = Err QueueEmpty \<longleftrightarrow> ks = [])"
  by (auto simp: touches_remdups evict_all_queue evict_next_def split: list.splits)

end
