(* ===== verification/Tier_Manager.thy ===== *)
theory Tier_Manager
  imports Prelude
begin

text \<open>
  The storage tier accounting of \<open>store/src/tier_manager.rs\<close>.  The counters are atomic
  64-bit integers; the sequential operations come first, then the interleaving of the
  load and the addition that \<open>try_allocate\<close> performs as two separate atomic accesses.
\<close>

section \<open>Definitions\<close>

datatype StorageTier = Dram | Ssd | Vram

text \<open>The watermark percentages are kept as the bit patterns of the 32-bit floats.\<close>

record TierCapacityConfig =
  tc_tier :: StorageTier
  tc_enabled :: bool
  tc_max_capacity_bytes :: u64
  tc_high_watermark_pct :: u32
  tc_low_watermark_pct :: u32
  tc_current_usage_bytes :: u64

definition default_dram :: TierCapacityConfig where
  "default_dram = \<lparr>tc_tier = Dram, tc_enabled = True, tc_max_capacity_bytes = 16 * 1024 * 1024 * 1024,
     tc_high_watermark_pct = 0x3f59999a, tc_low_watermark_pct = 0x3f19999a, tc_current_usage_bytes = 0\<rparr>"

definition default_ssd :: TierCapacityConfig where
  "default_ssd = \<lparr>tc_tier = Ssd, tc_enabled = True, tc_max_capacity_bytes = 256 * 1024 * 1024 * 1024,
     tc_high_watermark_pct = 0x3f666666, tc_low_watermark_pct = 0x3f333333, tc_current_usage_bytes = 0\<rparr>"

definition default_vram :: TierCapacityConfig where
  "default_vram = \<lparr>tc_tier = Vram, tc_enabled = True, tc_max_capacity_bytes = 8 * 1024 * 1024 * 1024,
     tc_high_watermark_pct = 0x3f666666, tc_low_watermark_pct = 0x3f333333, tc_current_usage_bytes = 0\<rparr>"

text \<open>
  The manager holds one counter per tier.  Its \<open>OnceLock\<close> configurations are only ever
  initialised with the defaults, so a configuration lookup needs no state.
\<close>

record StorageTierManager =
  dram_used_bytes :: u64
  ssd_used_bytes :: u64
  vram_used_bytes :: u64

definition TierManager_new :: StorageTierManager where
  "TierManager_new = \<lparr>dram_used_bytes = 0, ssd_used_bytes = 0, vram_used_bytes = 0\<rparr>"

fun get_counter :: "StorageTier \<Rightarrow> StorageTierManager \<Rightarrow> u64" where
  "get_counter Dram m = dram_used_bytes m"
| "get_counter Ssd m = ssd_used_bytes m"
| "get_counter Vram m = vram_used_bytes m"

fun set_counter :: "StorageTier \<Rightarrow> u64 \<Rightarrow> StorageTierManager \<Rightarrow> StorageTierManager" where
  "set_counter Dram v m = m\<lparr>dram_used_bytes := v\<rparr>"
| "set_counter Ssd v m = m\<lparr>ssd_used_bytes := v\<rparr>"
| "set_counter Vram v m = m\<lparr>vram_used_bytes := v\<rparr>"

fun get_config :: "StorageTier \<Rightarrow> TierCapacityConfig" where
  "get_config Dram = default_dram"
| "get_config Ssd = default_ssd"
| "get_config Vram = default_vram"

definition u64_saturating_add :: "u64 \<Rightarrow> u64 \<Rightarrow> u64" where
  "u64_saturating_add a b = (if unat a + unat b < 2 ^ 64 then a + b else 0xFFFFFFFFFFFFFFFF)"

definition u64_saturating_sub :: "u64 \<Rightarrow> u64 \<Rightarrow> u64" where
  "u64_saturating_sub a b = (if b \<le> a then a - b else 0)"

definition get_usage :: "StorageTier \<Rightarrow> StorageTierManager \<Rightarrow> u64" where
  "get_usage tier m = get_counter tier m"

definition tier_allocate :: "StorageTier \<Rightarrow> u64 \<Rightarrow> StorageTierManager \<Rightarrow> StorageTierManager" where
  "tier_allocate tier size_bytes m = set_counter tier (get_counter tier m + size_bytes) m"

text \<open>
  The compare-exchange loop of \<open>deallocate\<close> retries until it succeeds, so its effect is
  one atomic saturating subtraction.
\<close>

definition tier_deallocate :: "StorageTier \<Rightarrow> u64 \<Rightarrow> StorageTierManager \<Rightarrow> StorageTierManager" where
  "tier_deallocate tier size_bytes m =
     set_counter tier (u64_saturating_sub (get_counter tier m) size_bytes) m"

definition can_allocate :: "StorageTier \<Rightarrow> u64 \<Rightarrow> StorageTierManager \<Rightarrow> bool" where
  "can_allocate tier size_bytes m \<longleftrightarrow>
     u64_saturating_add (get_usage tier m) size_bytes \<le> tc_max_capacity_bytes (get_config tier)"

text \<open>The error value stands for the formatted message, which names the size and the tier.\<close>

definition try_allocate ::
  "StorageTier \<Rightarrow> u64 \<Rightarrow> StorageTierManager \<Rightarrow> (u64 \<times> StorageTier, StorageTierManager) result" where
  "try_allocate tier size_bytes m =
     (if \<not> can_allocate tier size_bytes m then Err (size_bytes, tier)
      else Ok (tier_allocate tier size_bytes m))"

text \<open>
  The utilization quotient; the default capacities are powers of two, so the double
  division is exact for every usage below \<open>2 ^ 53\<close>.
\<close>

definition tier_utilization :: "StorageTier \<Rightarrow> StorageTierManager \<Rightarrow> rat" where
  "tier_utilization tier m =
     (if tc_max_capacity_bytes (get_config tier) = 0 then 0
      else of_nat (unat (get_usage tier m)) / of_nat (unat (tc_max_capacity_bytes (get_config tier))))"

definition allocate_batch :: "(StorageTier \<times> u64) list \<Rightarrow> StorageTierManager \<Rightarrow> StorageTierManager" where
  "allocate_batch xs m = foldl (\<lambda>m (t, s). tier_allocate t s m) m xs"

definition deallocate_batch :: "(StorageTier \<times> u64) list \<Rightarrow> StorageTierManager \<Rightarrow> StorageTierManager" where
  "deallocate_batch xs m = foldl (\<lambda>m (t, s). tier_deallocate t s m) m xs"

section \<open>Lemmas\<close>

lemma counter_simps [simp]:
  "get_counter t (set_counter t' v m) = (if t = t' then v else get_counter t m)"
  by (cases t; cases t') simp_all

lemma saturating_add_le:
  assumes "u64_saturating_add a b \<le> c" "c < 0xFFFFFFFFFFFFFFFF"
  shows "unat (a + b) = unat a + unat b" "a + b \<le> c"
proof -
  have lt: "unat a + unat b < 2 ^ 64"
    using assms by (auto simp: u64_saturating_add_def split: if_splits)
  then show "unat (a + b) = unat a + unat b"
    by (simp add: unat_word_ariths)
  show "a + b \<le> c"
    using assms(1) lt by (simp add: u64_saturating_add_def)
qed

lemma max_capacity_small: "tc_max_capacity_bytes (get_config t) < 0xFFFFFFFFFFFFFFFF"
  by (cases t) (simp_all add: default_dram_def default_ssd_def default_vram_def)

definition within_capacity :: "StorageTierManager \<Rightarrow> bool" where
  "within_capacity m \<longleftrightarrow> (\<forall>t. get_usage t m \<le> tc_max_capacity_bytes (get_config t))"

lemma within_capacity_new [simp]: "within_capacity TierManager_new"
proof -
  have "get_usage t TierManager_new = 0" for t
    by (cases t) (simp_all add: get_usage_def TierManager_new_def)
  then show ?thesis
    by (simp add: within_capacity_def)
qed

lemma within_capacity_ops [inv_intro]:
  "within_capacity m \<Longrightarrow> try_allocate t s m = Ok m' \<Longrightarrow> within_capacity m'"
  "within_capacity m \<Longrightarrow> within_capacity (tier_deallocate t s m)"
proof -
  assume w: "within_capacity m"
  show "within_capacity m'" if "try_allocate t s m = Ok m'"
    using w that saturating_add_le(2) [OF _ max_capacity_small]
    by (auto simp: within_capacity_def try_allocate_def can_allocate_def tier_allocate_def get_usage_def
        split: if_splits)
  have "u64_saturating_sub a s \<le> a" for a
    by (simp add: u64_saturating_sub_def word_le_nat_alt unat_sub)
  then show "within_capacity (tier_deallocate t s m)"
    using w by (auto simp: within_capacity_def tier_deallocate_def get_usage_def intro: order_trans)
qed

section \<open>Properties\<close>

datatype TierOp = TryAlloc StorageTier u64 | Dealloc StorageTier u64

fun tier_step :: "StorageTierManager \<Rightarrow> TierOp \<Rightarrow> StorageTierManager" where
  "tier_step m (TryAlloc t s) = (case try_allocate t s m of Inl _ \<Rightarrow> m | Inr m' \<Rightarrow> m')"
| "tier_step m (Dealloc t s) = tier_deallocate t s m"



text \<open>
  Concurrent callers: \<open>try_allocate\<close> loads the counter, decides, and adds later.  A thread
  is idle or has passed the check for a request.
\<close>

datatype AllocThread = Idle | Checked StorageTier u64

type_synonym alloc_state = "StorageTierManager \<times> (nat \<Rightarrow> AllocThread)"

inductive alloc_interleave :: "alloc_state \<Rightarrow> alloc_state \<Rightarrow> bool" where
  ai_check: "th i = Idle \<Longrightarrow> can_allocate t s m \<Longrightarrow> alloc_interleave (m, th) (m, th(i := Checked t s))"
| ai_add: "th i = Checked t s \<Longrightarrow> alloc_interleave (m, th) (tier_allocate t s m, th(i := Idle))"
| ai_free: "alloc_interleave (m, th) (tier_deallocate t s m, th)"

text \<open>
  Concurrent allocation can overrun a tier.  The check and the addition of
  \<open>try_allocate\<close> are not one atomic access: two threads that both pass the check on an
  almost full VRAM tier leave it with more bytes in use than its capacity.
\<close>

theorem tier_concurrent_overrun:
  "\<exists>m th. alloc_interleave\<^sup>*\<^sup>* (TierManager_new, \<lambda>_. Idle) (m, th) \<and>
     get_usage Vram m > tc_max_capacity_bytes (get_config Vram)"
proof -
  let ?s = "0x140000000 :: u64"
  let ?m1 = "tier_allocate Vram ?s TierManager_new"
  let ?m2 = "tier_allocate Vram ?s ?m1"
  let ?t0 = "\<lambda>_::nat. Idle"
  let ?t1 = "?t0(0 := Checked Vram ?s)"
  let ?t2 = "?t1(1 := Checked Vram ?s)"
  have c: "can_allocate Vram ?s TierManager_new"
    by (simp add: can_allocate_def get_usage_def TierManager_new_def u64_saturating_add_def default_vram_def)
  have "alloc_interleave (TierManager_new, ?t0) (TierManager_new, ?t1)"
    by (rule ai_check [OF _ c]) simp
  moreover have "alloc_interleave (TierManager_new, ?t1) (TierManager_new, ?t2)"
    by (rule ai_check [OF _ c]) simp
  moreover have "alloc_interleave (TierManager_new, ?t2) (?m1, ?t2(0 := Idle))"
    by (rule ai_add) simp
  moreover have "alloc_interleave (?m1, ?t2(0 := Idle)) (?m2, ?t2(0 := Idle, 1 := Idle))"
    by (rule ai_add) simp
  ultimately have "alloc_interleave\<^sup>*\<^sup>* (TierManager_new, ?t0) (?m2, ?t2(0 := Idle, 1 := Idle))"
    by (meson converse_rtranclp_into_rtranclp rtranclp.rtrancl_refl)
  moreover have "get_usage Vram ?m2 > tc_max_capacity_bytes (get_config Vram)"
    by (simp add: get_usage_def tier_allocate_def TierManager_new_def default_vram_def)
  ultimately show ?thesis
    by blast
qed

end
