(* ===== verification/Quantization.thy ===== *)
theory Quantization
  imports Prelude
begin

text \<open>
  The scalar quantizers of \<open>store/src/quantization.rs\<close>.  A 32-bit float is its bit
  pattern; \<open>f32_value\<close> gives the rational a finite pattern denotes.  Dequantized values are
  exact rationals or infinities: every product the sources form is a float.  The base-two
  logarithm of \<open>f32_to_e8m0\<close> is a parameter.
\<close>

section \<open>Bit patterns\<close>

definition f32_is_nan :: "u32 \<Rightarrow> bool" where
  "f32_is_nan b \<longleftrightarrow> b AND 0x7FFFFFFF > 0x7F800000"

definition f32_is_zero :: "u32 \<Rightarrow> bool" where
  "f32_is_zero b \<longleftrightarrow> b AND 0x7FFFFFFF = 0"

definition f32_abs_is_inf :: "u32 \<Rightarrow> bool" where
  "f32_abs_is_inf b \<longleftrightarrow> b AND 0x7FFFFFFF = 0x7F800000"

text \<open>The magnitude of a finite pattern.\<close>

definition f32_abs_value :: "u32 \<Rightarrow> rat" where
  "f32_abs_value b =
     (let e = uint (drop_bit 23 b AND 0xFF); m = uint (b AND 0x7FFFFF) in
      if e = 0 then of_int m * pow2 (-149) else of_int (0x800000 + m) * pow2 (e - 150))"

definition f32_value :: "u32 \<Rightarrow> rat" where
  "f32_value b = (if bit b 31 then - f32_abs_value b else f32_abs_value b)"

section \<open>FP8\<close>

definition quantize_fp8_e4m3 :: "u32 \<Rightarrow> u8" where
  "quantize_fp8_e4m3 bits =
    (if f32_is_nan bits then 0x7F
     else if f32_is_zero bits then 0
     else
       (let sign = (ucast (drop_bit 31 bits AND 1) :: u8) in
        if f32_abs_is_inf bits then push_bit 7 sign OR 0x78
        else
          (let f32_exp = uint (drop_bit 23 bits AND 0xFF) - 127;
               f32_mant = bits AND 0x7FFFFF;
               fp8_exp = f32_exp + 7;
               mant = drop_bit 20 f32_mant;
               round_bit = drop_bit 19 f32_mant AND 1;
               sticky = (f32_mant AND 0x7FFFF \<noteq> 0);
               up = (round_bit = 1 \<and> (sticky \<or> mant AND 1 = 1));
               carry = (up \<and> mant + 1 = 8);
               mant = (if carry then 0 else if up then mant + 1 else mant);
               fp8_exp = (if carry then fp8_exp + 1 else fp8_exp)
           in if fp8_exp \<ge> 15 then push_bit 7 sign OR 0x78
              else if fp8_exp \<le> 0
              then (if fp8_exp < -7 then push_bit 7 sign
                    else push_bit 7 sign OR ucast (drop_bit (nat (1 - fp8_exp)) (8 OR mant) AND 7))
              else push_bit 7 sign OR push_bit 3 (of_int fp8_exp) OR ucast mant)))"

definition dequantize_fp8_e4m3 :: "u8 \<Rightarrow> rat" where
  "dequantize_fp8_e4m3 q =
    (let sign = drop_bit 7 q AND 1; e = uint (drop_bit 3 q AND 0xF); m = uint (q AND 7);
         value = (if e = 0 then of_int m * pow2 (-6) else (1 + of_int m / 8) * pow2 (e - 7))
     in if sign = 1 then - value else value)"

definition quantize_fp8_e5m2 :: "u32 \<Rightarrow> u8" where
  "quantize_fp8_e5m2 bits =
    (if f32_is_nan bits then 0x7F
     else if f32_is_zero bits then 0
     else
       (let sign = (ucast (drop_bit 31 bits AND 1) :: u8) in
        if f32_abs_is_inf bits then push_bit 7 sign OR 0x7C
        else
          (let f32_exp = uint (drop_bit 23 bits AND 0xFF) - 127;
               f32_mant = bits AND 0x7FFFFF;
               fp8_exp = f32_exp + 15;
               mant = drop_bit 21 f32_mant;
               round_bit = drop_bit 20 f32_mant AND 1;
               sticky = (f32_mant AND 0xFFFFF \<noteq> 0);
               up = (round_bit = 1 \<and> (sticky \<or> mant AND 1 = 1));
               carry = (up \<and> mant + 1 = 4);
               mant = (if carry then 0 else if up then mant + 1 else mant);
               fp8_exp = (if carry then fp8_exp + 1 else fp8_exp)
           in if fp8_exp \<ge> 31 then push_bit 7 sign OR 0x7C
              else if fp8_exp \<le> 0
              then (if fp8_exp < -1 then push_bit 7 sign
                    else push_bit 7 sign OR ucast (drop_bit (nat (1 - fp8_exp)) (4 OR mant) AND 3))
              else push_bit 7 sign OR push_bit 2 (of_int fp8_exp) OR ucast mant)))"

definition dequantize_fp8_e5m2 :: "u8 \<Rightarrow> rat" where
  "dequantize_fp8_e5m2 q =
    (let sign = drop_bit 7 q AND 1; e = uint (drop_bit 2 q AND 0x1F); m = uint (q AND 3);
         value = (if e = 0 then of_int m * pow2 (-14) else (1 + of_int m / 4) * pow2 (e - 15))
     in if sign = 1 then - value else value)"

section \<open>FP4 and scale exponents\<close>

definition quantize_fp4_e2m1 :: "u32 \<Rightarrow> u8" where
  "quantize_fp4_e2m1 bits =
    (if f32_is_nan bits then 7
     else if f32_is_zero bits then 0
     else
       (let sign = (ucast (drop_bit 31 bits AND 1) :: u8); a = f32_abs_value bits in
        if f32_abs_is_inf bits then push_bit 3 sign OR 6
        else if a < 1/4 then push_bit 3 sign OR push_bit 1 0 OR 0
        else if a < 3/4 then push_bit 3 sign OR push_bit 1 0 OR 1
        else if a < 5/4 then push_bit 3 sign OR push_bit 1 1 OR 0
        else if a < 7/4 then push_bit 3 sign OR push_bit 1 1 OR 1
        else if a < 5/2 then push_bit 3 sign OR push_bit 1 2 OR 0
        else if a < 7/2 then push_bit 3 sign OR push_bit 1 2 OR 1
        else push_bit 3 sign OR 6))"

definition dequantize_fp4_e2m1 :: "u8 \<Rightarrow> f64" where
  "dequantize_fp4_e2m1 q =
    (let sign = drop_bit 3 q AND 1; e = uint (drop_bit 1 q AND 3); m = uint (q AND 1) in
     if e = 3 then (if sign = 1 then NegInf else PosInf)
     else
       (let value = (if e = 0 then of_int m * (1/2) else (1 + of_int m / 2) * pow2 (e - 1))
        in Fin (if sign = 1 then - value else value)))"

definition pack_fp4_pair :: "u8 \<Rightarrow> u8 \<Rightarrow> u8" where
  "pack_fp4_pair a b = push_bit 4 a OR (b AND 0x0F)"

definition unpack_fp4_pair :: "u8 \<Rightarrow> u8 \<times> u8" where
  "unpack_fp4_pair p = (drop_bit 4 p, p AND 0x0F)"

text \<open>\<open>2f32.powi(n)\<close> is infinite from 128 on.\<close>

definition e8m0_to_f32 :: "u8 \<Rightarrow> f64" where
  "e8m0_to_f32 e = (if uint e < 128 then Fin (pow2 (uint e)) else PosInf)"

text \<open>\<open>log2r\<close> stands for \<open>scale.log2().round()\<close> on a positive finite float.\<close>

definition f32_to_e8m0 :: "(rat \<Rightarrow> int) \<Rightarrow> f64 \<Rightarrow> u8" where
  "f32_to_e8m0 log2r scale =
    (case scale of
       NaN \<Rightarrow> 0
     | PosInf \<Rightarrow> 255
     | NegInf \<Rightarrow> 0
     | Fin x \<Rightarrow>
         if x \<le> 0 then 0
         else (let e = log2r x in if e < 0 then 0 else if e > 255 then 255 else of_int e))"

section \<open>Properties\<close>

text \<open>The float that a normal E4M3 code denotes, and likewise for E5M2.\<close>

definition f32_of_e4m3 :: "u8 \<Rightarrow> u32" where
  "f32_of_e4m3 q = push_bit 31 (ucast (drop_bit 7 q)) OR push_bit 23 (ucast (drop_bit 3 q AND 0xF) + 120)
     OR push_bit 20 (ucast (q AND 7))"

definition f32_of_e5m2 :: "u8 \<Rightarrow> u32" where
  "f32_of_e5m2 q = push_bit 31 (ucast (drop_bit 7 q)) OR push_bit 23 (ucast (drop_bit 2 q AND 0x1F) + 112)
     OR push_bit 21 (ucast (q AND 3))"

lemma u8_all:
  assumes "list_all (\<lambda>i. P (of_int i :: u8)) [0..255]"
  shows "P q"
proof -
  have "uint q \<in> set [0..255]"
    using uint_lt2p [of q] by simp
  with assms have "P (of_int (uint q))"
    unfolding list_all_iff by blast
  then show ?thesis
    by simp
qed

text \<open>
  The bit-level part of the round trip is checked on every byte; the value of the float
  then follows from its fields.
\<close>

definition e4m3_normal_ok :: "u8 \<Rightarrow> bool" where
  "e4m3_normal_ok q \<longleftrightarrow>
     (let e = drop_bit 3 q AND 0xF; b = f32_of_e4m3 q in 1 \<le> e \<and> e \<le> 14 \<longrightarrow>
        quantize_fp8_e4m3 b = q \<and> uint (drop_bit 23 b AND 0xFF) = uint e + 120 \<and>
        uint (b AND 0x7FFFFF) = uint (q AND 7) * 0x100000 \<and> bit b 31 = (drop_bit 7 q AND 1 = 1))"

definition e5m2_normal_ok :: "u8 \<Rightarrow> bool" where
  "e5m2_normal_ok q \<longleftrightarrow>
     (let e = drop_bit 2 q AND 0x1F; b = f32_of_e5m2 q in 1 \<le> e \<and> e \<le> 30 \<longrightarrow>
        quantize_fp8_e5m2 b = q \<and> uint (drop_bit 23 b AND 0xFF) = uint e + 112 \<and>
        uint (b AND 0x7FFFFF) = uint (q AND 3) * 0x200000 \<and> bit b 31 = (drop_bit 7 q AND 1 = 1))"

lemma e4m3_bytes_0: "list_all (\<lambda>i. e4m3_normal_ok (of_int i)) [0..63]"
  by code_simp

lemma e4m3_bytes_1: "list_all (\<lambda>i. e4m3_normal_ok (of_int i)) [64..127]"
  by code_simp

lemma e4m3_bytes_2: "list_all (\<lambda>i. e4m3_normal_ok (of_int i)) [128..191]"
  by code_simp

lemma e4m3_bytes_3: "list_all (\<lambda>i. e4m3_normal_ok (of_int i)) [192..255]"
  by code_simp

lemma e5m2_bytes_0: "list_all (\<lambda>i. e5m2_normal_ok (of_int i)) [0..63]"
  by code_simp

lemma e5m2_bytes_1: "list_all (\<lambda>i. e5m2_normal_ok (of_int i)) [64..127]"
  by code_simp

lemma e5m2_bytes_2: "list_all (\<lambda>i. e5m2_normal_ok (of_int i)) [128..191]"
  by code_simp

lemma e5m2_bytes_3: "list_all (\<lambda>i. e5m2_normal_ok (of_int i)) [192..255]"
  by code_simp

lemma upto_bytes: "[0..255] = [0..63] @ [64..127] @ [128..191] @ [192..(255::int)]"
  using upto_split1 [of 0 64 255] upto_split1 [of 64 128 255] upto_split1 [of 128 192 255] by simp

lemmas fp8_bytes = e4m3_bytes_0 e4m3_bytes_1 e4m3_bytes_2 e4m3_bytes_3
  e5m2_bytes_0 e5m2_bytes_1 e5m2_bytes_2 e5m2_bytes_3

lemma fp8_normal_ok: "e4m3_normal_ok q" "e5m2_normal_ok q"
  by (rule u8_all, unfold upto_bytes list_all_append, intro conjI fp8_bytes)+

lemma pow2_powi: "pow2 e = power_int 2 e"
  by (simp add: pow2_def power_int_def power_one_over inverse_eq_divide)

lemma pow2_add: "pow2 (a + b) = pow2 a * pow2 b"
  by (simp add: pow2_powi power_int_add)

lemma f32_value_fields:
  assumes "uint (drop_bit 23 b AND 0xFF) = e" "uint (b AND 0x7FFFFF) = m" "e \<noteq> 0"
  shows "f32_value b = (if bit b 31 then - ((1 + of_int m / 0x800000) * pow2 (e - 127))
                        else (1 + of_int m / 0x800000) * pow2 (e - 127))"
proof -
  have "pow2 (e - 127) = 0x800000 * pow2 (e - 150)"
    using pow2_add [of 23 "e - 150"] by (simp add: pow2_def [of 23])
  then show ?thesis
    using assms by (simp add: f32_value_def f32_abs_value_def Let_def field_simps)
qed

text \<open>
  C36: FP8 round trip on normal codes.  For every E4M3 code with a biased exponent from 1
  to 14, and every E5M2 code with one from 1 to 30, the dequantized value is a 32-bit
  float whose quantization is the same code again.
\<close>

theorem fp8_normal_roundtrip:
  "(1 \<le> drop_bit 3 q AND 0xF \<and> drop_bit 3 q AND 0xF \<le> 14 \<longrightarrow>
      quantize_fp8_e4m3 (f32_of_e4m3 q) = q \<and> f32_value (f32_of_e4m3 q) = dequantize_fp8_e4m3 q) \<and>
   (1 \<le> drop_bit 2 q AND 0x1F \<and> drop_bit 2 q AND 0x1F \<le> 30 \<longrightarrow>
      quantize_fp8_e5m2 (f32_of_e5m2 q) = q \<and> f32_value (f32_of_e5m2 q) = dequantize_fp8_e5m2 q)"
proof (intro conjI impI; elim conjE)
  assume e: "1 \<le> drop_bit 3 q AND 0xF" "drop_bit 3 q AND 0xF \<le> 14"
  then show "quantize_fp8_e4m3 (f32_of_e4m3 q) = q" "f32_value (f32_of_e4m3 q) = dequantize_fp8_e4m3 q"
    using fp8_normal_ok(1) [of q] f32_value_fields [of "f32_of_e4m3 q"]
    by (auto simp: e4m3_normal_ok_def dequantize_fp8_e4m3_def Let_def word_le_def)
next
  assume e: "1 \<le> drop_bit 2 q AND 0x1F" "drop_bit 2 q AND 0x1F \<le> 30"
  then show "quantize_fp8_e5m2 (f32_of_e5m2 q) = q" "f32_value (f32_of_e5m2 q) = dequantize_fp8_e5m2 q"
    using fp8_normal_ok(2) [of q] f32_value_fields [of "f32_of_e5m2 q"]
    by (auto simp: e5m2_normal_ok_def dequantize_fp8_e5m2_def Let_def word_le_def)
qed

theorem fp8_normal_roundtrip_witness:
  "quantize_fp8_e4m3 (f32_of_e4m3 0xB5) = 0xB5 \<and> quantize_fp8_e5m2 (f32_of_e5m2 0xB5) = 0xB5"
  using fp8_normal_roundtrip [of "0xB5"] by simp

text \<open>
  E4M3 subnormals decode eight times too large.  A float \<open>m * 2 ^ -9\<close> with
  \<open>0 < m < 8\<close>, which is what the subnormal code \<open>m\<close> of the format denotes, is quantized
  to the code \<open>m\<close>, but dequantizing that code gives \<open>m * 2 ^ -6\<close>.
\<close>

theorem e4m3_subnormal_decode_wrong:
  "\<forall>m \<in> {1, 2, 3, 4, 5, 6, 7 :: int}. \<exists>b. f32_value b = of_int m * pow2 (-9) \<and>
     quantize_fp8_e4m3 b = of_int m \<and> dequantize_fp8_e4m3 (quantize_fp8_e4m3 b) = 8 * f32_value b"
proof -
  have "f32_value b = of_int m * pow2 (-9) \<and> quantize_fp8_e4m3 b = of_int m \<and>
      dequantize_fp8_e4m3 (quantize_fp8_e4m3 b) = 8 * f32_value b"
    if "(m, b) \<in> {(1, 0x3B000000), (2, 0x3B800000), (3, 0x3BC00000), (4, 0x3C000000), (5, 0x3C200000),
                  (6, 0x3C400000), (7, 0x3C600000)}" for m :: int and b :: u32
  proof -
    have "list_all (\<lambda>(m, b). f32_value b = of_int m * pow2 (-9) \<and> quantize_fp8_e4m3 b = of_int m \<and>
        dequantize_fp8_e4m3 (quantize_fp8_e4m3 b) = 8 * f32_value b)
      [(1, 0x3B000000), (2, 0x3B800000), (3, 0x3BC00000), (4, 0x3C000000), (5, 0x3C200000),
       (6, 0x3C400000), (7, 0x3C600000)]"
      by code_simp
    with that show ?thesis
      unfolding list_all_iff by auto
  qed
  then show ?thesis
    by blast
qed

theorem e4m3_subnormal_decode_wrong_witness:
  "\<exists>b. f32_value b = 3 * pow2 (-9) \<and> dequantize_fp8_e4m3 (quantize_fp8_e4m3 b) = 8 * f32_value b"
  using e4m3_subnormal_decode_wrong by auto

lemma pow2_pos: "0 < pow2 e"
  by (simp add: pow2_def)

lemma unsigned_rat_nonneg: "0 \<le> (unsigned (w :: 'a::len word) :: rat)"
  by (metis of_nat_0_le_iff of_nat_unat)

lemma f32_abs_value_nonneg: "0 \<le> f32_abs_value b"
  using pow2_pos [of "-149"] pow2_pos [of "uint (drop_bit 23 b AND 0xFF) - 150"]
  by (auto simp: f32_abs_value_def Let_def unsigned_rat_nonneg intro!: mult_nonneg_nonneg add_nonneg_nonneg)

lemma sign_bit_cases:
  "(ucast (drop_bit 31 (b::u32) AND 1) :: u8) = (if bit b 31 then 1 else 0)"
proof -
  have "drop_bit 31 b AND 1 = (if bit b 31 then 1 else 0)"
    by (simp add: and_one_eq mod_2_eq_odd even_drop_bit_iff_not_bit)
  then show ?thesis
    by simp
qed

lemma f32_zero_value: "f32_is_zero b \<Longrightarrow> f32_value b = 0"
proof -
  assume z: "f32_is_zero b"
  have m: "(0x7FFFFFFF::u32) = mask 31" "(0xFF::u32) = mask 8" "(0x7FFFFF::u32) = mask 23"
    by (simp_all add: mask_eq_exp_minus_1)
  have nb: "\<not> bit b n" if "n < 31" for n
  proof -
    have "bit (b AND mask 31) n = bit (0::u32) n"
      using z by (simp add: f32_is_zero_def m)
    with that show ?thesis
      by (simp add: bit_simps)
  qed
  have "drop_bit 23 b AND mask 8 = 0" "b AND mask 23 = 0"
    by (rule bit_word_eqI; auto simp: bit_simps nb)+
  then show ?thesis
    by (simp add: f32_value_def f32_abs_value_def m)
qed

text \<open>The values of the finite FP4 codes, and the grid value the sources choose for a magnitude.\<close>

definition fp4_grid :: "rat set" where
  "fp4_grid = {0, 1/2, 1, 3/2, 2, 3, -1/2, -1, -3/2, -2, -3}"

definition fp4_round :: "rat \<Rightarrow> rat" where
  "fp4_round a = (if a < 1/4 then 0 else if a < 3/4 then 1/2 else if a < 5/4 then 1
     else if a < 7/4 then 3/2 else if a < 5/2 then 2 else 3)"

lemma fp4_round_nearest:
  assumes "0 \<le> a" "a < 7/2" "r \<in> fp4_grid"
  shows "\<bar>a - fp4_round a\<bar> \<le> \<bar>a - r\<bar>"
proof -
  consider "a < 1/4" | "1/4 \<le> a" "a < 3/4" | "3/4 \<le> a" "a < 5/4" | "5/4 \<le> a" "a < 7/4"
    | "7/4 \<le> a" "a < 5/2" | "5/2 \<le> a"
    by linarith
  then show ?thesis
    using assms by cases (auto simp: fp4_grid_def fp4_round_def)
qed

lemma fp4_grid_uminus: "- r \<in> fp4_grid \<longleftrightarrow> r \<in> fp4_grid"
  by (auto simp: fp4_grid_def minus_equation_iff)

lemma fp4_round_grid: "fp4_round a \<in> fp4_grid"
  by (simp add: fp4_round_def fp4_grid_def)



text \<open>Packing two FP4 codes into a byte and unpacking it returns the low nibbles of both.\<close>

theorem fp4_pack_roundtrip: "unpack_fp4_pair (pack_fp4_pair a b) = (a AND 0x0F, b AND 0x0F)"
proof -
  have m: "(0x0F::u8) = mask 4"
    by (simp add: mask_eq_exp_minus_1)
  have "drop_bit 4 (push_bit 4 a OR (b AND mask 4)) = a AND mask 4"
    "(push_bit 4 a OR (b AND mask 4)) AND mask 4 = b AND mask 4"
    by (rule bit_word_eqI; auto simp: bit_simps)+
  then show ?thesis
    unfolding pack_fp4_pair_def unpack_fp4_pair_def m by simp
qed

text \<open>
  E8M0 scales from 128 on do not survive.  With a logarithm that is exact on powers
  of two, an exponent below 128 is recovered from its scale factor, but every exponent
  from 128 to 254 becomes an infinite factor and comes back as 255.
\<close>

theorem e8m0_roundtrip_range:
  assumes "\<And>n. 0 \<le> n \<Longrightarrow> n < 128 \<Longrightarrow> log2r (pow2 n) = n"
  shows "f32_to_e8m0 log2r (e8m0_to_f32 e) = (if uint e < 128 then e else 255)"
  using assms [of "uint e"] pow2_pos [of "uint e"] by (auto simp: f32_to_e8m0_def e8m0_to_f32_def Let_def)

text \<open>A base-two logarithm by repeated halving, exact on the powers of two up to its bound.\<close>

fun log2_halving :: "nat \<Rightarrow> rat \<Rightarrow> int" where
  "log2_halving 0 x = 0"
| "log2_halving (Suc k) x = (if x < 2 then 0 else 1 + log2_halving k (x / 2))"

lemma log2_halving_pow: "n \<le> k \<Longrightarrow> log2_halving k (2 ^ n) = int n"
proof (induction k arbitrary: n)
  case (Suc k)
  have "(2::rat) \<le> 2 ^ Suc m" for m
    by simp
  then show ?case
    using Suc by (cases n) (auto simp: not_less [symmetric])
qed simp

theorem e8m0_roundtrip_range_witness:
  "f32_to_e8m0 (log2_halving 128) (e8m0_to_f32 7) = 7 \<and> f32_to_e8m0 (log2_halving 128) (e8m0_to_f32 200) = 255"
proof -
  have "log2_halving 128 (pow2 n) = n" if "0 \<le> n" "n < 128" for n
    using that log2_halving_pow [of "nat n" 128] by (simp add: pow2_def)
  from e8m0_roundtrip_range [OF this, of 7] e8m0_roundtrip_range [OF this, of 200] show ?thesis
    by simp
qed

end
