(* ===== verification/Diff.thy ===== *)
theory Diff
  imports Prelude
begin

text \<open>
  The page diff engine of \<open>klnk-core/src/diff.rs\<close>: the word-wise scan that collects
  modified byte chunks, and the in-place patch.  Two 64-bit words read at the same offset
  differ exactly when their eight bytes do, so a word comparison is a comparison of
  byte slices.
\<close>

section \<open>Definitions\<close>

datatype DiffError =
    SizeMismatch nat nat
  | OutOfBoundsPatch nat nat nat
  | UnalignedBuffer nat

record PageDiffChunk =
  chunk_offset :: u32
  chunk_bytes :: "u8 list"

record PageDiffList =
  diff_page_vaddr :: u64
  diff_page_size :: nat
  diff_chunks :: "PageDiffChunk list"

definition total_modified_bytes :: "PageDiffList \<Rightarrow> nat" where
  "total_modified_bytes d = sum_list (map (length \<circ> chunk_bytes) (diff_chunks d))"

definition diff_is_empty :: "PageDiffList \<Rightarrow> bool" where
  "diff_is_empty d \<longleftrightarrow> diff_chunks d = []"

definition slice :: "nat \<Rightarrow> nat \<Rightarrow> 'a list \<Rightarrow> 'a list" where
  "slice s e xs = take (e - s) (drop s xs)"

definition word_stride :: nat where "word_stride = 8"

definition words_differ :: "u8 list \<Rightarrow> u8 list \<Rightarrow> nat \<Rightarrow> bool" where
  "words_differ d b i \<longleftrightarrow>
     slice (i * word_stride) (i * word_stride + word_stride) d \<noteq> slice (i * word_stride) (i * word_stride + word_stride) b"

text \<open>The look-ahead loop: the first word from \<open>i\<close> on that does not differ, or the word count.\<close>

function run_end :: "u8 list \<Rightarrow> u8 list \<Rightarrow> nat \<Rightarrow> nat \<Rightarrow> nat" where
  "run_end d b word_count i =
     (if i < word_count \<and> words_differ d b i then run_end d b word_count (i + 1) else i)"
  by pat_completeness auto
termination
  by (relation "measure (\<lambda>(d, b, wc, i). wc - i)") auto

function trim_start :: "u8 list \<Rightarrow> u8 list \<Rightarrow> nat \<Rightarrow> nat \<Rightarrow> nat" where
  "trim_start d b s e = (if s < e \<and> d ! s = b ! s then trim_start d b (s + 1) e else s)"
  by pat_completeness auto
termination
  by (relation "measure (\<lambda>(d, b, s, e). e - s)") auto

function trim_end :: "u8 list \<Rightarrow> u8 list \<Rightarrow> nat \<Rightarrow> nat \<Rightarrow> nat" where
  "trim_end d b s e = (if e > s \<and> d ! (e - 1) = b ! (e - 1) then trim_end d b s (e - 1) else e)"
  by pat_completeness auto
termination
  by (relation "measure (\<lambda>(d, b, s, e). e - s)") auto

declare run_end.simps [simp del] trim_start.simps [simp del] trim_end.simps [simp del]

definition trimmed_chunk :: "u8 list \<Rightarrow> u8 list \<Rightarrow> nat \<Rightarrow> nat \<Rightarrow> PageDiffChunk list" where
  "trimmed_chunk d b chunk_start chunk_end =
     (let real_start = trim_start d b chunk_start chunk_end;
          real_end = trim_end d b real_start chunk_end
      in if real_start < real_end
         then [\<lparr>chunk_offset = of_nat real_start, chunk_bytes = slice real_start real_end d\<rparr>] else [])"

lemma run_end_ge: "i \<le> run_end d b wc i"
proof (induction d b wc i rule: run_end.induct)
  case (1 d b wc i)
  then show ?case
    by (subst run_end.simps) auto
qed

text \<open>The word loop.\<close>

function diff_words :: "u8 list \<Rightarrow> u8 list \<Rightarrow> nat \<Rightarrow> nat \<Rightarrow> PageDiffChunk list" where
  "diff_words d b word_count i =
     (if i < word_count
      then if words_differ d b i
           then (let j = run_end d b word_count (i + 1)
                 in trimmed_chunk d b (i * word_stride) (j * word_stride) @ diff_words d b word_count j)
           else diff_words d b word_count (i + 1)
      else [])"
  by pat_completeness auto
termination
proof (relation "measure (\<lambda>(d, b, wc, i). wc - i)", goal_cases)
  case (2 d b wc i j)
  then show ?case
    using run_end_ge [of "i + 1" d b wc] by simp
qed auto

declare diff_words.simps [simp del]

text \<open>The bytes after the last full word are compared one by one.\<close>

definition diff_tail :: "u8 list \<Rightarrow> u8 list \<Rightarrow> nat \<Rightarrow> nat \<Rightarrow> PageDiffChunk list" where
  "diff_tail d b processed page_size =
     map (\<lambda>i. \<lparr>chunk_offset = of_nat i, chunk_bytes = [d ! i]\<rparr>)
       (filter (\<lambda>i. d ! i \<noteq> b ! i) [processed..<page_size])"

definition compute_diff :: "u64 \<Rightarrow> u8 list \<Rightarrow> u8 list \<Rightarrow> (DiffError, PageDiffList) result" where
  "compute_diff page_vaddr dirty_page baseline_page =
     (if length dirty_page \<noteq> length baseline_page
      then Err (SizeMismatch (length dirty_page) (length baseline_page))
      else
        (let page_size = length dirty_page;
             word_count = page_size div word_stride
         in Ok \<lparr>diff_page_vaddr = page_vaddr, diff_page_size = page_size,
                diff_chunks = diff_words dirty_page baseline_page word_count 0
                  @ diff_tail dirty_page baseline_page (word_count * word_stride) page_size\<rparr>))"

text \<open>Writing a chunk; on an error the chunks before it stay applied.\<close>

definition write_bytes :: "nat \<Rightarrow> 'a list \<Rightarrow> 'a list \<Rightarrow> 'a list" where
  "write_bytes s bs page = take s page @ bs @ drop (s + length bs) page"

fun apply_chunks :: "PageDiffChunk list \<Rightarrow> u8 list \<Rightarrow> (DiffError, unit) result \<times> u8 list" where
  "apply_chunks [] page = (Ok (), page)"
| "apply_chunks (c # cs) page =
     (let start = unat (chunk_offset c); stop = start + length (chunk_bytes c) in
      if stop > length page
      then (Err (OutOfBoundsPatch start (length (chunk_bytes c)) (length page)), page)
      else apply_chunks cs (write_bytes start (chunk_bytes c) page))"

definition apply_patch :: "u8 list \<Rightarrow> PageDiffList \<Rightarrow> (DiffError, unit) result \<times> u8 list" where
  "apply_patch target_page diff = apply_chunks (diff_chunks diff) target_page"

section \<open>Lemmas\<close>

lemma length_slice: "e \<le> length xs \<Longrightarrow> length (slice s e xs) = e - s"
  by (simp add: slice_def)

lemma nth_slice: "e \<le> length xs \<Longrightarrow> s + k < e \<Longrightarrow> slice s e xs ! k = xs ! (s + k)"
  by (simp add: slice_def)

lemma length_write_bytes [simp]: "s + length bs \<le> length page \<Longrightarrow> length (write_bytes s bs page) = length page"
  by (simp add: write_bytes_def)

lemma nth_write_bytes:
  assumes "s + length bs \<le> length page" "k < length page"
  shows "write_bytes s bs page ! k = (if s \<le> k \<and> k < s + length bs then bs ! (k - s) else page ! k)"
  using assms by (auto simp: write_bytes_def nth_append not_less)

lemma trim_start_props:
  "s \<le> e \<Longrightarrow> s \<le> trim_start d b s e \<and> trim_start d b s e \<le> e \<and>
     (\<forall>k. s \<le> k \<and> k < trim_start d b s e \<longrightarrow> d ! k = b ! k) \<and>
     (trim_start d b s e < e \<longrightarrow> d ! trim_start d b s e \<noteq> b ! trim_start d b s e)"
proof (induction d b s e rule: trim_start.induct)
  case (1 d b s e)
  show ?case
  proof (cases "s < e \<and> d ! s = b ! s")
    case True
    then have eq: "trim_start d b s e = trim_start d b (s + 1) e"
      by (subst trim_start.simps) simp
    have "s + 1 \<le> e"
      using True by simp
    note ih = "1.IH" [OF True this]
    have "d ! k = b ! k" if "s \<le> k" "k < trim_start d b (s + 1) e" for k
      using that True ih by (cases "k = s") auto
    then show ?thesis
      unfolding eq using ih by simp
  next
    case False
    then have "trim_start d b s e = s"
      by (subst trim_start.simps) auto
    with 1(2) False show ?thesis
      by auto
  qed
qed

lemma trim_end_props:
  "s \<le> e \<Longrightarrow> s \<le> trim_end d b s e \<and> trim_end d b s e \<le> e \<and>
     (\<forall>k. trim_end d b s e \<le> k \<and> k < e \<longrightarrow> d ! k = b ! k) \<and>
     (s < trim_end d b s e \<longrightarrow> d ! (trim_end d b s e - 1) \<noteq> b ! (trim_end d b s e - 1))"
proof (induction d b s e rule: trim_end.induct)
  case (1 d b s e)
  show ?case
  proof (cases "e > s \<and> d ! (e - 1) = b ! (e - 1)")
    case True
    then have eq: "trim_end d b s e = trim_end d b s (e - 1)"
      by (subst trim_end.simps) simp
    have "s \<le> e - 1"
      using True by linarith
    note ih = "1.IH" [OF True this]
    have "d ! k = b ! k" if "trim_end d b s (e - 1) \<le> k" "k < e" for k
      using that True ih by (cases "k = e - 1") auto
    then show ?thesis
      unfolding eq using ih by auto
  next
    case False
    then have "trim_end d b s e = e"
      by (subst trim_end.simps) auto
    with 1(2) False show ?thesis
      by auto
  qed
qed

text \<open>A chunk that copies the dirty page between two positions, both ends of which are modified.\<close>

definition dirty_chunk :: "u8 list \<Rightarrow> u8 list \<Rightarrow> nat \<Rightarrow> nat \<Rightarrow> PageDiffChunk \<Rightarrow> bool" where
  "dirty_chunk d b s e c \<longleftrightarrow>
     s < e \<and> e \<le> length d \<and> d ! s \<noteq> b ! s \<and> d ! (e - 1) \<noteq> b ! (e - 1) \<and>
     c = \<lparr>chunk_offset = of_nat s, chunk_bytes = slice s e d\<rparr>"

definition covers :: "PageDiffChunk \<Rightarrow> nat \<Rightarrow> bool" where
  "covers c k \<longleftrightarrow> unat (chunk_offset c) \<le> k \<and> k < unat (chunk_offset c) + length (chunk_bytes c)"

lemma dirty_chunk_covers:
  "dirty_chunk d b s e c \<Longrightarrow> length d < 2 ^ 32 \<Longrightarrow> covers c k \<longleftrightarrow> s \<le> k \<and> k < e"
  by (auto simp: dirty_chunk_def covers_def unat_of_nat length_slice)

lemma trimmed_chunk_props:
  assumes "s \<le> e" "e \<le> length d" "length d < 2 ^ 32"
  shows "\<forall>c \<in> set (trimmed_chunk d b s e). \<exists>s' e'. s \<le> s' \<and> e' \<le> e \<and> dirty_chunk d b s' e' c"
    and "\<forall>k. s \<le> k \<and> k < e \<and> d ! k \<noteq> b ! k \<longrightarrow> (\<exists>c \<in> set (trimmed_chunk d b s e). covers c k)"
proof -
  let ?s = "trim_start d b s e"
  let ?e = "trim_end d b ?s e"
  note ts = trim_start_props [OF assms(1), of d b]
  have te: "?s \<le> ?e \<and> ?e \<le> e \<and> (\<forall>k. ?e \<le> k \<and> k < e \<longrightarrow> d ! k = b ! k) \<and>
      (?s < ?e \<longrightarrow> d ! (?e - 1) \<noteq> b ! (?e - 1))"
    using ts by (intro trim_end_props) simp
  have dc: "dirty_chunk d b ?s ?e \<lparr>chunk_offset = of_nat ?s, chunk_bytes = slice ?s ?e d\<rparr>" if "?s < ?e"
    using that ts te assms(2) by (auto simp: dirty_chunk_def)
  show "\<forall>c \<in> set (trimmed_chunk d b s e). \<exists>s' e'. s \<le> s' \<and> e' \<le> e \<and> dirty_chunk d b s' e' c"
    using ts te dc by (auto simp: trimmed_chunk_def Let_def)
  show "\<forall>k. s \<le> k \<and> k < e \<and> d ! k \<noteq> b ! k \<longrightarrow> (\<exists>c \<in> set (trimmed_chunk d b s e). covers c k)"
  proof (intro allI impI, elim conjE)
    fix k
    assume k: "s \<le> k" "k < e" "d ! k \<noteq> b ! k"
    then have "?s \<le> k" "k < ?e"
      using ts te by (meson not_less)+
    with dc dirty_chunk_covers [OF dc assms(3), of k] show "\<exists>c \<in> set (trimmed_chunk d b s e). covers c k"
      by (auto simp: trimmed_chunk_def Let_def)
  qed
qed

lemma run_end_props:
  "i \<le> wc \<Longrightarrow> run_end d b wc i \<le> wc"
proof (induction d b wc i rule: run_end.induct)
  case (1 d b wc i)
  then show ?case
    by (subst run_end.simps) auto
qed

lemma same_word_same_bytes:
  assumes "\<not> words_differ d b i" "length d = length b" "(i + 1) * word_stride \<le> length d"
    and "i * word_stride \<le> k" "k < (i + 1) * word_stride"
  shows "d ! k = b ! k"
proof -
  have "slice (i * word_stride) (i * word_stride + word_stride) d ! (k - i * word_stride) =
      slice (i * word_stride) (i * word_stride + word_stride) b ! (k - i * word_stride)"
    using assms(1) by (simp add: words_differ_def)
  then show ?thesis
    using assms by (simp add: nth_slice)
qed

text \<open>Every chunk of the scan is a dirty chunk from word \<open>i\<close> on, and every modified byte is covered.\<close>

definition diff_ok :: "u8 list \<Rightarrow> u8 list \<Rightarrow> nat \<Rightarrow> nat \<Rightarrow> PageDiffChunk list \<Rightarrow> bool" where
  "diff_ok d b lo hi cs \<longleftrightarrow>
     (\<forall>c \<in> set cs. \<exists>s e. lo \<le> s \<and> e \<le> hi \<and> dirty_chunk d b s e c) \<and>
     (\<forall>k. lo \<le> k \<and> k < hi \<and> d ! k \<noteq> b ! k \<longrightarrow> (\<exists>c \<in> set cs. covers c k))"

lemma diff_ok_chunk:
  assumes "diff_ok d b lo hi cs" "c \<in> set cs"
  obtains s e where "lo \<le> s" "e \<le> hi" "dirty_chunk d b s e c"
  using assms unfolding diff_ok_def by blast

lemma diff_ok_cover:
  assumes "diff_ok d b lo hi cs" "lo \<le> k" "k < hi" "d ! k \<noteq> b ! k"
  obtains c where "c \<in> set cs" "covers c k"
  using assms unfolding diff_ok_def by blast

lemma diff_ok_append:
  assumes "diff_ok d b lo mid xs" "diff_ok d b mid hi ys" "lo \<le> mid" "mid \<le> hi"
  shows "diff_ok d b lo hi (xs @ ys)"
proof -
  have "\<exists>c \<in> set (xs @ ys). covers c k" if "lo \<le> k" "k < hi" "d ! k \<noteq> b ! k" for k
    using assms(1,2) that by (cases "k < mid") (auto elim: diff_ok_cover simp: not_less)
  moreover have "\<exists>s e. lo \<le> s \<and> e \<le> hi \<and> dirty_chunk d b s e c" if "c \<in> set (xs @ ys)" for c
  proof (cases "c \<in> set xs")
    case True
    with assms(1) obtain s e where "lo \<le> s" "e \<le> mid" "dirty_chunk d b s e c"
      by (rule diff_ok_chunk)
    with assms(4) show ?thesis
      using le_trans by blast
  next
    case False
    with that have "c \<in> set ys"
      by simp
    with assms(2) obtain s e where "mid \<le> s" "e \<le> hi" "dirty_chunk d b s e c"
      by (rule diff_ok_chunk)
    with assms(3) show ?thesis
      using le_trans by blast
  qed
  ultimately show ?thesis
    unfolding diff_ok_def by blast
qed

lemma diff_words_ok:
  assumes "length d = length b" "length d < 2 ^ 32" "wc * word_stride \<le> length d" "i \<le> wc"
  shows "diff_ok d b (i * word_stride) (wc * word_stride) (diff_words d b wc i)"
  using assms
proof (induction d b wc i rule: diff_words.induct)
  case (1 d b wc i)
  show ?case
  proof (cases "i < wc")
    case True
    show ?thesis
    proof (cases "words_differ d b i")
      case df: True
      define j where "j = run_end d b wc (i + 1)"
      have j: "i + 1 \<le> j" "j \<le> wc"
        using run_end_ge run_end_props True by (simp_all add: j_def)
      have le: "i * word_stride \<le> j * word_stride" "j * word_stride \<le> wc * word_stride"
        using j by (simp_all add: word_stride_def)
      have "diff_ok d b (j * word_stride) (wc * word_stride) (diff_words d b wc j)"
        using "1.IH"(1) [OF True df j_def "1.prems"(1-3) j(2)] .
      moreover have "diff_ok d b (i * word_stride) (j * word_stride)
          (trimmed_chunk d b (i * word_stride) (j * word_stride))"
        using trimmed_chunk_props [OF le(1) _ "1.prems"(2), of b] le(2) "1.prems"(3) by (simp add: diff_ok_def)
      moreover have "diff_words d b wc i =
          trimmed_chunk d b (i * word_stride) (j * word_stride) @ diff_words d b wc j"
        using True df by (subst diff_words.simps) (simp add: j_def Let_def)
      ultimately show ?thesis
        using diff_ok_append le by metis
    next
      case nd: False
      have bound: "(i + 1) * word_stride \<le> length d"
        using True "1.prems"(3) by (simp add: word_stride_def)
      have "diff_ok d b (i * word_stride) ((i + 1) * word_stride) []"
        using same_word_same_bytes [OF nd "1.prems"(1) bound] by (auto simp: diff_ok_def)
      moreover have "diff_ok d b ((i + 1) * word_stride) (wc * word_stride) (diff_words d b wc (i + 1))"
        using "1.IH"(2) [OF True nd "1.prems"(1-3)] True by simp
      moreover have "diff_words d b wc i = [] @ diff_words d b wc (i + 1)"
        using True nd by (subst diff_words.simps) simp
      ultimately show ?thesis
        using diff_ok_append [of d b "i * word_stride" "(i + 1) * word_stride" "[]"] True
        by (simp add: word_stride_def)
    qed
  next
    case False
    then have "diff_words d b wc i = []" "i = wc"
      using "1.prems"(4) by (subst diff_words.simps, simp_all)
    then show ?thesis
      by (simp add: diff_ok_def)
  qed
qed

lemma diff_tail_ok:
  assumes "length d < 2 ^ 32"
  shows "diff_ok d b lo (length d) (diff_tail d b lo (length d))"
proof -
  have dc: "dirty_chunk d b i (i + 1) \<lparr>chunk_offset = of_nat i, chunk_bytes = [d ! i]\<rparr>"
    if "i < length d" "d ! i \<noteq> b ! i" for i
    using that by (auto simp: dirty_chunk_def slice_def take_Suc_conv_app_nth [of 0] hd_drop_conv_nth)
  show ?thesis
    unfolding diff_ok_def
  proof (intro conjI ballI allI impI)
    fix c
    assume "c \<in> set (diff_tail d b lo (length d))"
    then obtain i where "lo \<le> i" "i < length d" "d ! i \<noteq> b ! i" "c = \<lparr>chunk_offset = of_nat i, chunk_bytes = [d ! i]\<rparr>"
      by (auto simp: diff_tail_def)
    with dc show "\<exists>s e. lo \<le> s \<and> e \<le> length d \<and> dirty_chunk d b s e c"
      by (metis Suc_eq_plus1 Suc_leI)
  next
    fix k
    assume "lo \<le> k \<and> k < length d \<and> d ! k \<noteq> b ! k"
    then have k: "lo \<le> k" "k < length d" "d ! k \<noteq> b ! k"
      by blast+
    then have "covers \<lparr>chunk_offset = of_nat k, chunk_bytes = [d ! k]\<rparr> k"
      using dirty_chunk_covers [OF dc [OF k(2,3)] assms] by simp
    with k show "\<exists>c \<in> set (diff_tail d b lo (length d)). covers c k"
      by (auto simp: diff_tail_def)
  qed
qed

lemma compute_diff_ok:
  assumes "length d = length b" "length d < 2 ^ 32"
  shows "\<exists>diff. compute_diff v d b = Ok diff \<and> diff_ok d b 0 (length d) (diff_chunks diff) \<and>
    diff_page_vaddr diff = v \<and> diff_page_size diff = length d"
proof -
  let ?wc = "length d div word_stride"
  have le: "?wc * word_stride \<le> length d"
    by simp
  have "diff_ok d b 0 (length d) (diff_words d b ?wc 0 @ diff_tail d b (?wc * word_stride) (length d))"
    using diff_ok_append [OF _ diff_tail_ok [OF assms(2)] _ le] diff_words_ok [OF assms le, of 0] by simp
  with assms(1) show ?thesis
    by (simp add: compute_diff_def Let_def)
qed

lemma apply_chunks_dirty:
  assumes "\<forall>c \<in> set cs. \<exists>s e. dirty_chunk d b s e c" "length page = length d" "length d < 2 ^ 32"
  shows "\<exists>page'. apply_chunks cs page = (Ok (), page') \<and> length page' = length d \<and>
    (\<forall>k < length d. page' ! k = (if \<exists>c \<in> set cs. covers c k then d ! k else page ! k))"
  using assms(1,2)
proof (induction cs arbitrary: page)
  case (Cons c cs)
  then obtain s e where c: "dirty_chunk d b s e c"
    by auto
  then have s: "unat (chunk_offset c) = s" "s + length (chunk_bytes c) = e" "e \<le> length page"
    "chunk_bytes c = slice s e d" "e \<le> length d"
    using assms(3) Cons.prems(2) by (auto simp: dirty_chunk_def unat_of_nat length_slice)
  let ?p = "write_bytes s (chunk_bytes c) page"
  have len: "length ?p = length d"
    using s Cons.prems(2) by simp
  obtain page' where p': "apply_chunks cs ?p = (Ok (), page')" "length page' = length d"
    "\<forall>k < length d. page' ! k = (if \<exists>c \<in> set cs. covers c k then d ! k else ?p ! k)"
    using Cons.IH [OF _ len] Cons.prems(1) by auto
  have "?p ! k = (if covers c k then d ! k else page ! k)" if "k < length d" for k
    using nth_write_bytes [of s "chunk_bytes c" page k] s that Cons.prems(2) dirty_chunk_covers [OF c assms(3), of k]
    by (auto simp: nth_slice)
  with p' s show ?case
    by (auto simp: Let_def)
qed simp

section \<open>Properties\<close>

text \<open>
  C2: patching reproduces the dirty page.  For two pages of the same length below four
  gibibytes, \<open>compute_diff\<close> succeeds, and applying its patch to the baseline succeeds and
  yields exactly the dirty page, whatever the word boundaries and the tail length.
\<close>

theorem diff_patch_roundtrip:
  assumes "length dirty = length base" "length dirty < 2 ^ 32"
  shows "\<exists>diff. compute_diff v dirty base = Ok diff \<and> apply_patch base diff = (Ok (), dirty)"
proof -
  obtain diff where diff: "compute_diff v dirty base = Ok diff" "diff_ok dirty base 0 (length dirty) (diff_chunks diff)"
    using compute_diff_ok [OF assms] by blast
  then have "\<forall>c \<in> set (diff_chunks diff). \<exists>s e. dirty_chunk dirty base s e c"
    by (meson diff_ok_chunk)
  from apply_chunks_dirty [OF this assms(1) [symmetric] assms(2)] obtain page where
    page: "apply_chunks (diff_chunks diff) base = (Ok (), page)" "length page = length dirty"
    "\<forall>k < length dirty. page ! k = (if \<exists>c \<in> set (diff_chunks diff). covers c k then dirty ! k else base ! k)"
    by blast
  have "page = dirty"
  proof (rule nth_equalityI)
    fix k
    assume "k < length page"
    with page(2,3) diff(2) show "page ! k = dirty ! k"
      by (metis diff_ok_cover le0)
  qed (use page(2) in simp)
  with page(1) diff(1) show ?thesis
    by (auto simp: apply_patch_def)
qed

theorem diff_patch_roundtrip_witness:
  "\<exists>diff. compute_diff 0 [1, 2, 9, 4, 5, 6, 7, 8, 0, 3] [1, 2, 3, 4, 5, 6, 7, 8, 0, 1] = Ok diff \<and>
     apply_patch [1, 2, 3, 4, 5, 6, 7, 8, 0, 1] diff = (Ok (), [1, 2, 9, 4, 5, 6, 7, 8, 0, 3])"
  by (rule diff_patch_roundtrip) simp_all

text \<open>
  C23: diffs are tight.  Each chunk of a computed diff starts and ends at a byte that
  really changed and stays inside the page, and the diff is empty exactly when the two
  pages are equal.
\<close>

theorem diff_tight:
  assumes "length dirty = length base" "length dirty < 2 ^ 32" "compute_diff v dirty base = Ok diff"
  shows "(\<forall>c \<in> set (diff_chunks diff). chunk_bytes c \<noteq> [] \<and>
      (let s = unat (chunk_offset c); e = s + length (chunk_bytes c) in
         e \<le> length dirty \<and> dirty ! s \<noteq> base ! s \<and> dirty ! (e - 1) \<noteq> base ! (e - 1))) \<and>
    (diff_is_empty diff \<longleftrightarrow> dirty = base)"
proof -
  have ok: "diff_ok dirty base 0 (length dirty) (diff_chunks diff)"
    using compute_diff_ok [OF assms(1,2), of v] assms(3) by auto
  have "chunk_bytes c \<noteq> [] \<and> (let s = unat (chunk_offset c); e = s + length (chunk_bytes c) in
         e \<le> length dirty \<and> dirty ! s \<noteq> base ! s \<and> dirty ! (e - 1) \<noteq> base ! (e - 1))"
    if c: "c \<in> set (diff_chunks diff)" for c
  proof -
    obtain s e where se: "dirty_chunk dirty base s e c"
      using ok c by (rule diff_ok_chunk)
    then have "unat (chunk_offset c) = s" "s + length (chunk_bytes c) = e" "chunk_bytes c \<noteq> []"
      using assms(2) by (auto simp: dirty_chunk_def unat_of_nat length_slice slice_def)
    with se show ?thesis
      by (simp add: dirty_chunk_def Let_def)
  qed
  moreover have "diff_is_empty diff \<longleftrightarrow> dirty = base"
  proof
    assume "diff_is_empty diff"
    with ok have "\<forall>k < length dirty. dirty ! k = base ! k"
      by (metis diff_is_empty_def diff_ok_cover le0 list.set(1) empty_iff)
    with assms(1) show "dirty = base"
      by (simp add: list_eq_iff_nth_eq)
  next
    assume eq: "dirty = base"
    have "\<not> dirty_chunk dirty base s e c" for s e and c :: PageDiffChunk
      by (simp add: dirty_chunk_def eq)
    then have "set (diff_chunks diff) = {}"
      using ok by (metis diff_ok_chunk ex_in_conv)
    then show "diff_is_empty diff"
      by (simp add: diff_is_empty_def)
  qed
  ultimately show ?thesis
    by blast
qed

theorem diff_tight_witness:
  "\<exists>diff. compute_diff 0 [1, 2, 9] [1, 2, 3] = Ok diff \<and> \<not> diff_is_empty diff"
proof -
  obtain diff where d: "compute_diff 0 [1, 2, 9] [1, 2, 3] = Ok diff"
    by (simp add: compute_diff_def Let_def)
  with diff_tight [OF _ _ d] show ?thesis
    by auto
qed

end
