(* ===== verification/Domain.thy ===== *)
theory Domain
  imports Prelude
begin

text \<open>
  The domain types of the shared-memory engine, from \<open>src/klnk/klnk-core/src/domain.rs\<close>:
  node and region identifiers, protection flags, coherence states, region descriptors
  with their range tests, page entries and remote endpoints.  A \<open>usize\<close> that takes part
  in address arithmetic is a 64-bit word; a signed 32-bit integer is kept as the word of
  its bits.  \<open>SocketAddr\<close> is the type parameter of the endpoint record.
\<close>

datatype NodeId = NodeId (node_raw: u64)

datatype GlobalRegionId = GlobalRegionId (owner_pid: u32) (shmid: u32)

datatype MemoryProtectionFlags = MemoryProtectionFlags (flag_bits: u32)

definition PROT_READ :: u32 where "PROT_READ = 1"
definition PROT_WRITE :: u32 where "PROT_WRITE = 2"
definition PROT_EXEC :: u32 where "PROT_EXEC = 4"
definition PROT_NONE :: u32 where "PROT_NONE = 0"

definition can_read :: "MemoryProtectionFlags \<Rightarrow> bool" where
  "can_read f \<longleftrightarrow> (flag_bits f AND PROT_READ) \<noteq> 0"

definition can_write :: "MemoryProtectionFlags \<Rightarrow> bool" where
  "can_write f \<longleftrightarrow> (flag_bits f AND PROT_WRITE) \<noteq> 0"

definition flags_bitor :: "MemoryProtectionFlags \<Rightarrow> MemoryProtectionFlags \<Rightarrow> MemoryProtectionFlags" where
  "flags_bitor f g = MemoryProtectionFlags (flag_bits f OR flag_bits g)"

datatype PageCoherenceState = Invalid | SharedRead | ExclusiveWrite | InFlight

record MemoryRegionDescriptor =
  rd_region_id :: GlobalRegionId
  rd_main_vaddr :: u64
  rd_region_size :: u64
  rd_staging_vaddr :: u64
  rd_staging_num_pages :: nat
  rd_staging_page_size :: u64
  rd_prot_flags :: MemoryProtectionFlags
  rd_mem_flags :: u32
  rd_version :: u64

definition contains_range :: "MemoryRegionDescriptor \<Rightarrow> u64 \<Rightarrow> u64 \<Rightarrow> bool" where
  "contains_range d vaddr len \<longleftrightarrow>
     vaddr \<ge> rd_main_vaddr d \<and> vaddr + len \<le> rd_main_vaddr d + rd_region_size d"

definition offset_of :: "MemoryRegionDescriptor \<Rightarrow> u64 \<Rightarrow> u64 option" where
  "offset_of d vaddr =
    (if vaddr \<ge> rd_main_vaddr d \<and> vaddr < rd_main_vaddr d + rd_region_size d
     then Some (vaddr - rd_main_vaddr d) else None)"

record DistributedPageEntry =
  pe_page_vaddr :: u64
  pe_page_size :: u64
  pe_coherence_state :: PageCoherenceState
  pe_primary_owner :: NodeId
  pe_replica_holders :: "NodeId list"
  pe_version :: u64
  pe_metadata :: "u8 list"

definition PageEntry_new_with_metadata ::
    "u64 \<Rightarrow> u64 \<Rightarrow> NodeId \<Rightarrow> u8 list \<Rightarrow> DistributedPageEntry" where
  "PageEntry_new_with_metadata vaddr sz owner md =
    \<lparr>pe_page_vaddr = vaddr, pe_page_size = sz, pe_coherence_state = Invalid, pe_primary_owner = owner,
     pe_replica_holders = [], pe_version = 0, pe_metadata = md\<rparr>"

definition PageEntry_new :: "u64 \<Rightarrow> u64 \<Rightarrow> NodeId \<Rightarrow> DistributedPageEntry" where
  "PageEntry_new vaddr sz owner =
    \<lparr>pe_page_vaddr = vaddr, pe_page_size = sz, pe_coherence_state = Invalid, pe_primary_owner = owner,
     pe_replica_holders = [], pe_version = 0, pe_metadata = []\<rparr>"

record 'addr RemoteEndpointInfo =
  re_node_id :: NodeId
  re_socket_addr :: 'addr
  re_metadata_vaddr :: u64
  re_metadata_rkey :: u32
  re_metadata_len :: nat
  re_metadata_version :: u64
  re_invalidation_vaddr :: u64
  re_invalidation_rkey :: u32
  re_invalidation_len :: nat
  re_numa_node :: u32
  re_supports_gdr :: bool

definition RemoteEndpoint_new :: "NodeId \<Rightarrow> 'addr \<Rightarrow> 'addr RemoteEndpointInfo" where
  "RemoteEndpoint_new n a =
    \<lparr>re_node_id = n, re_socket_addr = a, re_metadata_vaddr = 0, re_metadata_rkey = 0, re_metadata_len = 0,
     re_metadata_version = 0, re_invalidation_vaddr = 0, re_invalidation_rkey = 0, re_invalidation_len = 0,
     re_numa_node = 0, re_supports_gdr = False\<rparr>"

definition set_metadata_region ::
    "u64 \<Rightarrow> u32 \<Rightarrow> nat \<Rightarrow> u64 \<Rightarrow> 'addr RemoteEndpointInfo \<Rightarrow> 'addr RemoteEndpointInfo" where
  "set_metadata_region vaddr rkey len version i =
    i\<lparr>re_metadata_vaddr := vaddr, re_metadata_rkey := rkey, re_metadata_len := len, re_metadata_version := version\<rparr>"

definition set_invalidation_region ::
    "u64 \<Rightarrow> u32 \<Rightarrow> nat \<Rightarrow> 'addr RemoteEndpointInfo \<Rightarrow> 'addr RemoteEndpointInfo" where
  "set_invalidation_region vaddr rkey len i =
    i\<lparr>re_invalidation_vaddr := vaddr, re_invalidation_rkey := rkey, re_invalidation_len := len\<rparr>"

datatype DomainError =
    InvalidOffset u64 u64 nat
  | ZeroSizeAllocation

section \<open>Display\<close>

text \<open>Numbers in the formats of the source: base 10 and lower-case base 16.\<close>

function show_base :: "nat \<Rightarrow> nat \<Rightarrow> string" where
  "show_base b n =
    (let d = (if n mod b < 10 then char_of (48 + n mod b) else char_of (87 + n mod b))
     in if b < 2 \<or> n < b then [d] else show_base b (n div b) @ [d])"
  by pat_completeness auto
termination
  by (relation "measure snd") auto

declare show_base.simps [simp del]

definition show_i32 :: "u32 \<Rightarrow> string" where
  "show_i32 w = (if sint w < 0 then ''-'' @ show_base 10 (nat (- sint w)) else show_base 10 (nat (sint w)))"

definition show_node :: "NodeId \<Rightarrow> string" where
  "show_node n = ''Node('' @ show_base 10 (unat (node_raw n)) @ '')''"

definition show_region :: "GlobalRegionId \<Rightarrow> string" where
  "show_region r =
    ''Region(PID:'' @ show_base 10 (unat (owner_pid r)) @ '', SHMID:'' @ show_i32 (shmid r) @ '')''"

section \<open>Ranges of a region\<close>

definition region_range :: "MemoryRegionDescriptor \<Rightarrow> nat set" where
  "region_range d = {unat (rd_main_vaddr d) ..< unat (rd_main_vaddr d) + unat (rd_region_size d)}"

definition region_fits :: "MemoryRegionDescriptor \<Rightarrow> bool" where
  "region_fits d \<longleftrightarrow> unat (rd_main_vaddr d) + unat (rd_region_size d) < 2 ^ 64"

lemma unat_region_end:
  "region_fits d \<Longrightarrow> unat (rd_main_vaddr d + rd_region_size d) = unat (rd_main_vaddr d) + unat (rd_region_size d)"
  by (simp add: region_fits_def unat_word_ariths)

lemma contains_range_iff:
  assumes "region_fits d" "unat v + unat n < 2 ^ 64" "n \<noteq> 0"
  shows "contains_range d v n \<longleftrightarrow> {unat v ..< unat v + unat n} \<subseteq> region_range d"
proof -
  have "unat (v + n) = unat v + unat n" "0 < unat n"
    using assms(2,3) by (simp_all add: unat_word_ariths unat_gt_0)
  then show ?thesis
    using unat_region_end [OF assms(1)]
    by (auto simp: contains_range_def region_range_def word_le_nat_alt)
qed

lemma offset_of_iff:
  assumes "region_fits d"
  shows "offset_of d v = Some k \<longleftrightarrow> unat v \<in> region_range d \<and> v = rd_main_vaddr d + k \<and> k < rd_region_size d"
proof -
  have "unat v - unat (rd_main_vaddr d) = unat (v - rd_main_vaddr d)" if "rd_main_vaddr d \<le> v"
    using that by (simp add: unat_sub)
  then show ?thesis
    using unat_region_end [OF assms]
    by (auto simp: offset_of_def region_range_def word_le_nat_alt word_less_nat_alt)
qed

text \<open>A range that wraps around the address space passes the test, although it leaves the region.\<close>

lemma contains_range_wraps:
  assumes "rd_main_vaddr d \<le> v" "unat v + unat n = 2 ^ 64"
  shows "contains_range d v n"
proof -
  have "v + n = 0"
    using assms(2) by (simp add: word_unat_eq_iff unat_word_ariths)
  with assms(1) show ?thesis
    by (simp add: contains_range_def)
qed

end
