(* ===== verification/Raft.thy ===== *)
theory Raft
  imports Domain
begin

text \<open>
  The consensus engine of the master, from \<open>src/master/src/raft_state.rs\<close>: votes, log
  replication, elections, commits and the commit callback of one node.  Terms are 64-bit
  words; log positions are natural numbers, since a log in memory has fewer than \<open>2 ^ 64\<close>
  entries.  A call of the commit callback is part of the answer of the operation that
  makes it.  The printers, parsers and file accesses of the two functions that store the
  state are arguments.
\<close>

section \<open>Configuration\<close>

datatype RaftRole = Follower | Candidate | Leader

datatype RaftStateError =
    NotLeader NodeId "NodeId option"
  | StaleTerm u64 u64
  | LogIndexOutOfBounds nat nat
  | UncommittedLogIndex nat
  | InvalidPeerFormat string

record RaftConfig =
  rc_embedded :: bool
  rc_initial_peers :: "NodeId list"
  rc_etcd_endpoints :: "string list"

definition default_config :: "NodeId \<Rightarrow> RaftConfig" where
  "default_config n =
    \<lparr>rc_embedded = True, rc_initial_peers = [n], rc_etcd_endpoints = [''http://127.0.0.1:2379'']\<rparr>"

text \<open>\<open>trim_start_matches\<close> removes the prefix as often as it occurs; \<open>parse::<u64>\<close> takes an
  optional plus sign and at least one digit, and fails above \<open>2 ^ 64 - 1\<close>.\<close>

function trim_node :: "string \<Rightarrow> string" where
  "trim_node s = (if take 5 s = ''node-'' then trim_node (drop 5 s) else s)"
  by pat_completeness auto
termination
  by (relation "measure length") (auto simp: not_less dest!: arg_cong [of _ _ length])

declare trim_node.simps [simp del]

fun parse_digits :: "nat \<Rightarrow> string \<Rightarrow> nat option" where
  "parse_digits acc [] = Some acc"
| "parse_digits acc (c # cs) =
    (let d = (of_char c :: nat)
     in if 48 \<le> d \<and> d \<le> 57 then parse_digits (acc * 10 + (d - 48)) cs else None)"

definition parse_u64 :: "string \<Rightarrow> u64 option" where
  "parse_u64 s =
    (let ds = (case s of c # cs \<Rightarrow> if c = CHR ''+'' then cs else s | [] \<Rightarrow> s)
     in if ds = [] then None
        else case parse_digits 0 ds of Some n \<Rightarrow> if n < 2 ^ 64 then Some (of_nat n) else None | None \<Rightarrow> None)"

fun parse_peers :: "string list \<Rightarrow> (RaftStateError, NodeId list) result" where
  "parse_peers [] = Ok []"
| "parse_peers (p # ps) =
    (case parse_u64 (trim_node p) of
       None \<Rightarrow> Err (InvalidPeerFormat p)
     | Some n \<Rightarrow> (case parse_peers ps of Inl e \<Rightarrow> Err e | Inr ns \<Rightarrow> Ok (NodeId n # ns)))"

definition from_app_config :: "bool \<Rightarrow> string list \<Rightarrow> string list \<Rightarrow> (RaftStateError, RaftConfig) result" where
  "from_app_config embedded initial_peers endpoints =
    (case parse_peers initial_peers of
       Inl e \<Rightarrow> Err e
     | Inr ns \<Rightarrow> Ok \<lparr>rc_embedded = embedded, rc_initial_peers = ns, rc_etcd_endpoints = endpoints\<rparr>)"

section \<open>Log and state\<close>

datatype RaftLogEntry =
    Command nat u64 "u8 list"
  | LockAcquire u64 u32
  | LockRelease u64 u32

fun entry_term :: "RaftLogEntry \<Rightarrow> u64" where
  "entry_term (Command i t p) = t"
| "entry_term (LockAcquire r c) = 0"
| "entry_term (LockRelease r c) = 0"

fun set_term :: "u64 \<Rightarrow> RaftLogEntry \<Rightarrow> RaftLogEntry" where
  "set_term t (Command i t' p) = Command i t p"
| "set_term t (LockAcquire r c) = LockAcquire r c"
| "set_term t (LockRelease r c) = LockRelease r c"

record RaftSnapshot =
  sn_last_included_index :: nat
  sn_last_included_term :: u64
  sn_data :: "u8 list"

record RaftNodeState =
  rn_node_id :: NodeId
  rn_role :: RaftRole
  rn_current_term :: u64
  rn_voted_for :: "NodeId option"
  rn_leader_id :: "NodeId option"
  rn_log :: "RaftLogEntry list"
  rn_commit_index :: nat
  rn_last_applied :: nat
  rn_peers :: "NodeId list"
  rn_next_index :: "NodeId \<rightharpoonup> nat"
  rn_match_index :: "NodeId \<rightharpoonup> nat"
  rn_last_snapshot :: "RaftSnapshot option"

record RaftEngine =
  eng_config :: RaftConfig
  eng_state :: RaftNodeState
  eng_term_counter :: u64
  eng_commit_callback :: bool

definition RaftEngine_new :: "NodeId \<Rightarrow> RaftConfig \<Rightarrow> RaftEngine" where
  "RaftEngine_new n c =
    \<lparr>eng_config = c,
     eng_state = \<lparr>rn_node_id = n, rn_role = Follower, rn_current_term = 0, rn_voted_for = None,
       rn_leader_id = None, rn_log = [], rn_commit_index = 0, rn_last_applied = 0,
       rn_peers = rc_initial_peers c, rn_next_index = Map.empty, rn_match_index = Map.empty,
       rn_last_snapshot = None\<rparr>,
     eng_term_counter = 0, eng_commit_callback = False\<rparr>"

definition RaftEngine_from_config ::
    "NodeId \<Rightarrow> bool \<Rightarrow> string list \<Rightarrow> string list \<Rightarrow> (RaftStateError, RaftEngine) result" where
  "RaftEngine_from_config n embedded initial_peers endpoints =
    (case from_app_config embedded initial_peers endpoints of
       Inl e \<Rightarrow> Err e | Inr c \<Rightarrow> Ok (RaftEngine_new n c))"

definition set_commit_callback :: "RaftEngine \<Rightarrow> RaftEngine" where
  "set_commit_callback e = e\<lparr>eng_commit_callback := True\<rparr>"

abbreviation with_state :: "RaftEngine \<Rightarrow> RaftNodeState \<Rightarrow> RaftEngine" where
  "with_state e s \<equiv> e\<lparr>eng_state := s\<rparr>"

section \<open>Operations\<close>

text \<open>The common part of the three proposals: only a leader appends, at the end of its log.\<close>

definition propose_entry ::
    "(nat \<Rightarrow> u64 \<Rightarrow> RaftLogEntry) \<Rightarrow> RaftEngine \<Rightarrow> (RaftStateError, nat) result \<times> RaftEngine" where
  "propose_entry mk e =
    (let s = eng_state e
     in if rn_role s \<noteq> Leader then (Err (NotLeader (rn_node_id s) (rn_leader_id s)), e)
        else
          let new_index = length (rn_log s) + 1
          in (Ok new_index, with_state e (s\<lparr>rn_log := rn_log s @ [mk new_index (rn_current_term s)]\<rparr>)))"

definition propose_command :: "u8 list \<Rightarrow> RaftEngine \<Rightarrow> (RaftStateError, nat) result \<times> RaftEngine" where
  "propose_command payload = propose_entry (\<lambda>i t. Command i t payload)"

definition propose_lock_acquire :: "u64 \<Rightarrow> u32 \<Rightarrow> RaftEngine \<Rightarrow> (RaftStateError, nat) result \<times> RaftEngine" where
  "propose_lock_acquire r c = propose_entry (\<lambda>i t. LockAcquire r c)"

definition propose_lock_release :: "u64 \<Rightarrow> u32 \<Rightarrow> RaftEngine \<Rightarrow> (RaftStateError, nat) result \<times> RaftEngine" where
  "propose_lock_release r c = propose_entry (\<lambda>i t. LockRelease r c)"

definition last_log_index :: "RaftEngine \<Rightarrow> nat" where
  "last_log_index e = length (rn_log (eng_state e))"

definition last_log_term :: "RaftEngine \<Rightarrow> u64" where
  "last_log_term e = (if rn_log (eng_state e) = [] then 0 else entry_term (last (rn_log (eng_state e))))"

definition handle_request_vote ::
    "NodeId \<Rightarrow> u64 \<Rightarrow> nat \<Rightarrow> u64 \<Rightarrow> RaftEngine \<Rightarrow> (RaftStateError, bool) result \<times> RaftEngine" where
  "handle_request_vote candidate term li lt e =
    (let s = eng_state e
     in if term < rn_current_term s then (Err (StaleTerm term (rn_current_term s)), e)
        else
          let e1 = (if term > rn_current_term s
                    then e\<lparr>eng_state := s\<lparr>rn_current_term := term, rn_role := Follower, rn_voted_for := None,
                                          rn_leader_id := None\<rparr>,
                           eng_term_counter := term\<rparr>
                    else e);
              s1 = eng_state e1;
              last_index = last_log_index e1;
              last_term = last_log_term e1;
              log_is_up_to_date = (lt > last_term \<or> (lt = last_term \<and> li \<ge> last_index));
              can_vote = ((rn_voted_for s1 = None \<or> rn_voted_for s1 = Some candidate) \<and> log_is_up_to_date)
          in if can_vote then (Ok True, with_state e1 (s1\<lparr>rn_voted_for := Some candidate\<rparr>))
             else (Ok False, e1))"

definition handle_append_entries ::
    "NodeId \<Rightarrow> u64 \<Rightarrow> nat \<Rightarrow> u64 \<Rightarrow> RaftLogEntry list \<Rightarrow> nat \<Rightarrow> RaftEngine \<Rightarrow>
     (RaftStateError, bool) result \<times> RaftEngine" where
  "handle_append_entries leader term prev_index prev_term entries leader_commit e =
    (let s = eng_state e
     in if term < rn_current_term s then (Ok False, e)
        else
          let e1 = (if term > rn_current_term s
                    then e\<lparr>eng_state := s\<lparr>rn_current_term := term, rn_role := Follower\<rparr>, eng_term_counter := term\<rparr>
                    else e);
              s1 = (eng_state e1)\<lparr>rn_leader_id := Some leader, rn_voted_for := None\<rparr>
          in if prev_index > 0 \<and> prev_index > length (rn_log s1) then (Ok False, with_state e1 s1)
             else if prev_index > 0 \<and> entry_term (rn_log s1 ! (prev_index - 1)) \<noteq> prev_term
             then (Ok False, with_state e1 (s1\<lparr>rn_log := take (prev_index - 1) (rn_log s1)\<rparr>))
             else
               let s2 = s1\<lparr>rn_log := rn_log s1 @ map (set_term term) entries\<rparr>;
                   s3 = (if leader_commit > rn_commit_index s2
                         then s2\<lparr>rn_commit_index := min leader_commit (length (rn_log s2))\<rparr> else s2)
               in (Ok True, with_state e1 s3))"

definition promote_to_leader :: "RaftEngine \<Rightarrow> RaftEngine" where
  "promote_to_leader e =
    (let s = (eng_state e)\<lparr>rn_role := Leader, rn_leader_id := Some (rn_node_id (eng_state e))\<rparr>;
         others = filter (\<lambda>n. n \<noteq> rn_node_id s) (rn_peers s)
     in with_state e (s\<lparr>
          rn_next_index := fold (\<lambda>n m. m(n \<mapsto> length (rn_log s) + 1)) others (rn_next_index s),
          rn_match_index := fold (\<lambda>n m. m(n \<mapsto> 0)) others (rn_match_index s)\<rparr>))"

definition start_election :: "RaftEngine \<Rightarrow> (RaftStateError, unit) result \<times> RaftEngine" where
  "start_election e =
    (let s = eng_state e; term = rn_current_term s + 1
     in (Ok (), e\<lparr>eng_state := s\<lparr>rn_current_term := term, rn_role := Candidate,
                                  rn_voted_for := Some (rn_node_id s), rn_leader_id := None\<rparr>,
                   eng_term_counter := term\<rparr>))"

text \<open>The second component is the argument of the callback, if it is called.\<close>

definition commit_to_index ::
    "nat \<Rightarrow> RaftEngine \<Rightarrow> ((RaftStateError, unit) result \<times> RaftLogEntry list option) \<times> RaftEngine" where
  "commit_to_index target e =
    (let s = eng_state e
     in if target > length (rn_log s) then ((Err (LogIndexOutOfBounds target (length (rn_log s))), None), e)
        else if target > rn_commit_index s
        then
          let new_entries = drop (rn_commit_index s) (take target (rn_log s))
          in ((Ok (), if eng_commit_callback e \<and> new_entries \<noteq> [] then Some new_entries else None),
              with_state e (s\<lparr>rn_commit_index := target\<rparr>))
        else ((Ok (), None), e))"

section \<open>Persistence\<close>

text \<open>
  The file format is an argument: the two JSON printers, the two parsers and the file
  system.  The source names an error variant \<open>Internal\<close> that its enum lacks; the errors of
  the two operations have a type of their own here.
\<close>

datatype ('j, 'io) PersistError = StateJson 'j | InternalJson 'j | InternalIo 'io

record ('j, 'io) raft_format =
  rf_state_to_vec :: "RaftNodeState \<Rightarrow> ('j, u8 list) result"
  rf_snapshot_to_string :: "RaftSnapshot \<Rightarrow> ('j, string) result"
  rf_write :: "string \<Rightarrow> ('io, unit) result"
  rf_snapshot_from_str :: "string \<Rightarrow> ('j, RaftSnapshot) result"
  rf_state_from_slice :: "u8 list \<Rightarrow> ('j, RaftNodeState) result"

text \<open>The result of saving is the new content of the file.\<close>

definition save_state :: "('j, 'io) raft_format \<Rightarrow> RaftEngine \<Rightarrow> (('j, 'io) PersistError, string) result" where
  "save_state f e =
    (case rf_state_to_vec f (eng_state e) of
       Inl j \<Rightarrow> Err (StateJson j)
     | Inr bytes \<Rightarrow>
         case rf_snapshot_to_string f
           \<lparr>sn_last_included_index = length (rn_log (eng_state e)), sn_last_included_term = rn_current_term (eng_state e),
            sn_data = bytes\<rparr> of
           Inl j \<Rightarrow> Err (InternalJson j)
         | Inr serialized \<Rightarrow> (case rf_write f serialized of Inl x \<Rightarrow> Err (InternalIo x) | Inr _ \<Rightarrow> Ok serialized))"

definition load_state ::
    "('j, 'io) raft_format \<Rightarrow> ('io, string) result \<Rightarrow> RaftEngine \<Rightarrow> (('j, 'io) PersistError, unit) result \<times> RaftEngine" where
  "load_state f content e =
    (case content of
       Inl x \<Rightarrow> (Err (InternalIo x), e)
     | Inr bytes \<Rightarrow>
         case rf_snapshot_from_str f bytes of
           Inl j \<Rightarrow> (Err (InternalJson j), e)
         | Inr snapshot \<Rightarrow>
             case rf_state_from_slice f (sn_data snapshot) of
               Inl j \<Rightarrow> (Err (InternalJson j), e)
             | Inr st \<Rightarrow> (Ok (), e\<lparr>eng_state := st, eng_term_counter := rn_current_term st\<rparr>))"

section \<open>Traces of one node\<close>

datatype RaftOp =
    ProposeCommand "u8 list"
  | ProposeLockAcquire u64 u32
  | ProposeLockRelease u64 u32
  | RequestVote NodeId u64 nat u64
  | AppendEntries NodeId u64 nat u64 "RaftLogEntry list" nat
  | PromoteToLeader
  | StartElection
  | CommitTo nat

datatype RaftAnswer =
    Proposed "(RaftStateError, nat) result"
  | Voted "(RaftStateError, bool) result"
  | Appended "(RaftStateError, bool) result"
  | Done "(RaftStateError, unit) result" "RaftLogEntry list option"

fun raft_step :: "RaftOp \<Rightarrow> RaftEngine \<Rightarrow> RaftAnswer \<times> RaftEngine" where
  "raft_step (ProposeCommand p) e = map_prod Proposed id (propose_command p e)"
| "raft_step (ProposeLockAcquire r c) e = map_prod Proposed id (propose_lock_acquire r c e)"
| "raft_step (ProposeLockRelease r c) e = map_prod Proposed id (propose_lock_release r c e)"
| "raft_step (RequestVote c t li lt) e = map_prod Voted id (handle_request_vote c t li lt e)"
| "raft_step (AppendEntries l t pv pt es lc) e = map_prod Appended id (handle_append_entries l t pv pt es lc e)"
| "raft_step PromoteToLeader e = (Done (Ok ()) None, promote_to_leader e)"
| "raft_step StartElection e = (let (r, e') = start_election e in (Done r None, e'))"
| "raft_step (CommitTo i) e = (let ((r, calls), e') = commit_to_index i e in (Done r calls, e'))"

fun is_append :: "RaftOp \<Rightarrow> bool" where
  "is_append (AppendEntries l t pv pt es lc) = True"
| "is_append _ = False"

lemmas raft_op_defs = propose_command_def propose_lock_acquire_def propose_lock_release_def propose_entry_def
  handle_request_vote_def handle_append_entries_def promote_to_leader_def start_election_def commit_to_index_def Let_def

abbreviation cur_term :: "RaftEngine \<Rightarrow> u64" where
  "cur_term e \<equiv> rn_current_term (eng_state e)"

abbreviation voted :: "RaftEngine \<Rightarrow> NodeId option" where
  "voted e \<equiv> rn_voted_for (eng_state e)"

text \<open>The lock-free term counter that the accessor reads agrees with the state.\<close>

lemma term_counter_agrees:
  assumes "eng_term_counter e = cur_term e"
  shows "eng_term_counter (snd (raft_step x e)) = cur_term (snd (raft_step x e))"
  using assms by (cases x) (auto simp: raft_op_defs)

lemma node_id_step [simp]: "rn_node_id (eng_state (snd (raft_step x e))) = rn_node_id (eng_state e)"
  by (cases x) (auto simp: raft_op_defs)

section \<open>Votes\<close>

text \<open>The votes a node gives, with their terms: granted requests and its own candidacies.\<close>

fun vote_of :: "RaftOp \<Rightarrow> RaftAnswer \<Rightarrow> RaftEngine \<Rightarrow> (u64 \<times> NodeId) list" where
  "vote_of (RequestVote c t li lt) a e = (if a = Voted (Ok True) then [(t, c)] else [])"
| "vote_of StartElection a e = [(cur_term e, rn_node_id (eng_state e))]"
| "vote_of _ a e = []"

fun raft_votes :: "RaftOp list \<Rightarrow> RaftEngine \<Rightarrow> (u64 \<times> NodeId) list" where
  "raft_votes [] e = []"
| "raft_votes (x # xs) e =
    (let (a, e') = raft_step x e in vote_of x a e' @ raft_votes xs e')"

text \<open>Votes recorded in the state: a node that has voted in its term gives only that vote.\<close>

lemma request_vote_effect:
  assumes "handle_request_vote c t li lt e = (r, e')"
  shows "cur_term e \<le> cur_term e'" "r = Ok True \<Longrightarrow> t = cur_term e' \<and> voted e' = Some c"
    and "cur_term e' = cur_term e \<Longrightarrow> voted e = Some d \<Longrightarrow> voted e' = Some d"
  using assms by (auto simp: handle_request_vote_def Let_def split: if_splits)

lemma start_election_effect:
  assumes "start_election e = (r, e')" "unat (cur_term e) + 1 < 2 ^ 64"
  shows "cur_term e < cur_term e'" "unat (cur_term e') = unat (cur_term e) + 1"
    "voted e' = Some (rn_node_id (eng_state e))"
  using assms unat_add_one_less [of "cur_term e"] by (auto simp: start_election_def Let_def word_less_nat_alt)

lemma silent_step:
  assumes "\<not> is_append x" "\<forall>c t li lt. x \<noteq> RequestVote c t li lt" "x \<noteq> StartElection"
  shows "cur_term (snd (raft_step x e)) = cur_term e" "voted (snd (raft_step x e)) = voted e"
    "vote_of x a e' = []"
  using assms by (cases x; auto simp: propose_command_def propose_lock_acquire_def propose_lock_release_def
      propose_entry_def promote_to_leader_def commit_to_index_def Let_def)+

definition one_vote :: "u64 \<Rightarrow> NodeId option \<Rightarrow> (u64 \<times> NodeId) list \<Rightarrow> bool" where
  "one_vote t v vs \<longleftrightarrow> (\<forall>(u, c) \<in> set vs. t \<le> u \<and> (u = t \<longrightarrow> v = None \<or> v = Some c)) \<and>
     (\<forall>u c d. (u, c) \<in> set vs \<longrightarrow> (u, d) \<in> set vs \<longrightarrow> c = d)"

lemma one_vote_weaken:
  assumes "one_vote t' v' vs" "t \<le> t'" "t' = t \<Longrightarrow> v = None \<or> v = v'"
  shows "one_vote t v vs"
  using assms unfolding one_vote_def by (auto split: prod.splits) (metis order_antisym order_trans)+

lemma one_vote_Cons:
  assumes "one_vote t (Some c) vs"
  shows "one_vote t (Some c) ((t, c) # vs)"
  using assms unfolding one_vote_def by (auto split: prod.splits)

definition terms_fit :: "RaftOp list \<Rightarrow> RaftEngine \<Rightarrow> bool" where
  "terms_fit ops e \<longleftrightarrow> unat (cur_term e) + length ops < 2 ^ 64 \<and>
     (\<forall>c t li lt. RequestVote c t li lt \<in> set ops \<longrightarrow> unat t + length ops < 2 ^ 64)"

lemma terms_fit_step:
  assumes "terms_fit (x # ops) e" "\<not> is_append x"
  shows "terms_fit ops (snd (raft_step x e))"
proof -
  have "unat (cur_term (snd (raft_step x e))) + length ops < 2 ^ 64"
  proof (cases x)
    case (RequestVote c t li lt)
    then have "cur_term (snd (raft_step x e)) = cur_term e \<or> cur_term (snd (raft_step x e)) = t"
      by (auto simp: handle_request_vote_def Let_def)
    moreover have "unat t + Suc (length ops) < 2 ^ 64" "unat (cur_term e) + Suc (length ops) < 2 ^ 64"
      using assms(1) RequestVote unfolding terms_fit_def by (auto simp del: add_Suc_right)
    ultimately show ?thesis
      by auto
  next
    case StartElection
    obtain r e' where e': "start_election e = (r, e')"
      by fastforce
    have "unat (cur_term e') = unat (cur_term e) + 1"
      using start_election_effect(2) [OF e'] assms(1) by (simp add: terms_fit_def)
    with assms(1) StartElection e' show ?thesis
      by (simp add: terms_fit_def)
  qed (use assms silent_step [OF assms(2)] in \<open>auto simp: terms_fit_def\<close>)
  with assms(1) show ?thesis
    by (fastforce simp: terms_fit_def)
qed

lemma raft_one_vote:
  assumes "\<forall>x \<in> set ops. \<not> is_append x" "terms_fit ops e"
  shows "one_vote (cur_term e) (voted e) (raft_votes ops e)"
  using assms
proof (induction ops arbitrary: e)
  case (Cons x ops)
  obtain a e' where step: "raft_step x e = (a, e')"
    by fastforce
  have na: "\<not> is_append x"
    using Cons.prems(1) by simp
  have ih: "one_vote (cur_term e') (voted e') (raft_votes ops e')"
    using Cons.IH [of e'] Cons.prems terms_fit_step [OF Cons.prems(2) na] step by simp
  show ?case
  proof (cases x)
    case (RequestVote c t li lt)
    then obtain r where r: "handle_request_vote c t li lt e = (r, e')" "a = Voted r"
      using step by (auto simp: map_prod_def split: prod.splits)
    note eff = request_vote_effect [OF r(1)]
    have "one_vote (cur_term e') (voted e') (vote_of x a e' @ raft_votes ops e')"
      using ih eff(2) r(2) RequestVote by (auto dest: one_vote_Cons)
    then have "one_vote (cur_term e) (voted e) (vote_of x a e' @ raft_votes ops e')"
      by (rule one_vote_weaken [OF _ eff(1)]) (use eff(3) in \<open>cases "voted e"; auto\<close>)
    with step show ?thesis
      by simp
  next
    case StartElection
    obtain r where r: "start_election e = (r, e')"
      using step StartElection by (auto split: prod.splits)
    have "unat (cur_term e) + 1 < 2 ^ 64"
      using Cons.prems(2) by (simp add: terms_fit_def)
    note eff = start_election_effect [OF r this]
    have "one_vote (cur_term e') (voted e') (vote_of x a e' @ raft_votes ops e')"
      using ih StartElection eff(3) node_id_step [of x e] step by (auto dest: one_vote_Cons)
    then have "one_vote (cur_term e) (voted e) (vote_of x a e' @ raft_votes ops e')"
      by (rule one_vote_weaken) (use eff(1) in auto)
    with step show ?thesis
      by simp
  qed (use ih step silent_step(1,2) [OF na, where e = e] silent_step(3) [OF na] in \<open>auto simp del: raft_step.simps\<close>)
qed (simp add: one_vote_def)

section \<open>Committed entries\<close>

definition delivered :: "RaftAnswer \<Rightarrow> RaftLogEntry list" where
  "delivered a = (case a of Done r (Some es) \<Rightarrow> es | _ \<Rightarrow> [])"

lemma delivered_simps [simp]:
  "delivered (Done r None) = []" "delivered (Done r (Some es)) = es" "delivered (Proposed p) = []"
  "delivered (Voted v) = []" "delivered (Appended v) = []"
  by (simp_all add: delivered_def)

text \<open>
  What the callback has been given is the committed prefix of the log.
\<close>

definition commit_inv :: "RaftLogEntry list \<Rightarrow> RaftEngine \<Rightarrow> bool" where
  "commit_inv ds e \<longleftrightarrow> eng_commit_callback e \<and> rn_commit_index (eng_state e) \<le> length (rn_log (eng_state e)) \<and>
     ds = take (rn_commit_index (eng_state e)) (rn_log (eng_state e))"

lemma commit_step:
  assumes "commit_inv ds e" "\<not> is_append x"
  shows "commit_inv (ds @ delivered (fst (raft_step x e))) (snd (raft_step x e))"
proof (cases x)
  case (CommitTo i)
  have "take c l @ drop c (take i l) = take i l" if "c < i" for c and l :: "RaftLogEntry list"
    using that by (metis append_take_drop_id less_imp_le min.absorb1 take_take)
  with assms CommitTo show ?thesis
    by (auto simp: commit_to_index_def commit_inv_def Let_def)
next
  case (RequestVote c t li lt)
  with assms show ?thesis
    by (auto simp: handle_request_vote_def commit_inv_def Let_def)
qed (use assms in \<open>auto simp: propose_command_def propose_lock_acquire_def propose_lock_release_def
      propose_entry_def promote_to_leader_def start_election_def commit_inv_def Let_def\<close>)

lemma commit_run:
  assumes "commit_inv ds e" "\<forall>x \<in> set ops. \<not> is_append x"
  shows "commit_inv (ds @ concat (map delivered (fst (map_state raft_step ops e)))) (snd (map_state raft_step ops e))"
  using assms
proof (induction ops arbitrary: ds e)
  case (Cons x ops)
  from Cons.IH [OF commit_step [OF Cons.prems(1), of x]] Cons.prems(2) show ?case
    by simp
qed simp

text \<open>
  Three departures of the replication handler from the protocol: the commits of a
  follower reach no callback, a request that is delivered again appends its entries
  again, and a conflicting request cuts committed entries off.
\<close>

lemma follower_commit_silent: "delivered (fst (raft_step (AppendEntries l t pv pt es lc) e)) = []"
  by simp

lemma append_entries_log:
  assumes "handle_append_entries l t pv pt es lc e = (Ok True, e')"
  shows "rn_log (eng_state e') = rn_log (eng_state e) @ map (set_term t) es"
  using assms by (auto simp: handle_append_entries_def Let_def split: if_splits)

lemma append_entries_duplicates:
  assumes "handle_append_entries l t 0 pt es lc e = (Ok True, e1)" "handle_append_entries l t 0 pt es lc e1 = (Ok True, e2)"
  shows "rn_log (eng_state e2) = rn_log (eng_state e) @ map (set_term t) es @ map (set_term t) es"
  using append_entries_log [OF assms(1)] append_entries_log [OF assms(2)] by simp

lemma append_entries_cuts_committed:
  assumes "0 < pv" "pv \<le> rn_commit_index (eng_state e)" "rn_commit_index (eng_state e) \<le> length (rn_log (eng_state e))"
    and "entry_term (rn_log (eng_state e) ! (pv - 1)) \<noteq> pt" "cur_term e \<le> t"
  shows "let e' = snd (handle_append_entries l t pv pt es lc e)
         in length (rn_log (eng_state e')) < rn_commit_index (eng_state e')"
  using assms by (auto simp: handle_append_entries_def Let_def)

section \<open>Restarts\<close>

text \<open>The format reads back what it has written.\<close>

definition format_ok :: "('j, 'io) raft_format \<Rightarrow> bool" where
  "format_ok f \<longleftrightarrow> (\<forall>s bs. rf_state_to_vec f s = Ok bs \<longrightarrow> rf_state_from_slice f bs = Ok s) \<and>
     (\<forall>s str. rf_snapshot_to_string f s = Ok str \<longrightarrow> rf_snapshot_from_str f str = Ok s)"

lemma save_load:
  assumes "format_ok f" "save_state f e = Ok content"
  shows "load_state f (Ok content) e0 = (Ok (), e0\<lparr>eng_state := eng_state e, eng_term_counter := cur_term e\<rparr>)"
  using assms by (auto simp: save_state_def load_state_def format_ok_def split: sum.splits)

text \<open>The answers and the state depend on the state alone, apart from the calls of the callback.\<close>

definition same_node :: "RaftEngine \<Rightarrow> RaftEngine \<Rightarrow> bool" where
  "same_node e e' \<longleftrightarrow> eng_state e = eng_state e' \<and> eng_commit_callback e = eng_commit_callback e'"

lemma same_node_step:
  assumes "same_node e e'"
  shows "fst (raft_step x e) = fst (raft_step x e') \<and> same_node (snd (raft_step x e)) (snd (raft_step x e'))"
  using assms by (cases x) (auto simp: same_node_def last_log_index_def last_log_term_def raft_op_defs)

lemma same_node_run:
  assumes "same_node e e'"
  shows "fst (map_state raft_step ops e) = fst (map_state raft_step ops e') \<and>
    same_node (snd (map_state raft_step ops e)) (snd (map_state raft_step ops e'))"
  using assms
proof (induction ops arbitrary: e e')
  case (Cons x ops)
  with same_node_step [OF Cons.prems, of x] show ?case
    by (simp add: case_prod_beta Let_def)
qed simp

text \<open>
  A restart from the file of a node that did nothing since is not seen: a fresh engine that
  loads the file answers every further sequence as the saved one would.
\<close>

lemma restart_transparent:
  assumes "format_ok f" "save_state f e = Ok content" "load_state f (Ok content) e0 = (r, e1)"
    and "eng_commit_callback e0 = eng_commit_callback e"
  shows "r = Ok () \<and> eng_term_counter e1 = cur_term e1 \<and> fst (map_state raft_step ops e1) = fst (map_state raft_step ops e)"
proof -
  have e1: "r = Ok ()" "e1 = e0\<lparr>eng_state := eng_state e, eng_term_counter := cur_term e\<rparr>"
    using assms(3) save_load [OF assms(1,2)] by simp_all
  with assms(4) have "same_node e1 e"
    by (simp add: same_node_def)
  from same_node_run [OF this] e1 show ?thesis
    by simp
qed

text \<open>
  Nothing saves the vote: a node that votes after it has saved, and restarts from its
  file, gives its vote of the same term to another candidate.
\<close>

lemma stale_file_votes_twice:
  assumes "format_ok f" "save_state f e = Ok content" "e = RaftEngine_new n c"
    and "load_state f (Ok content) (RaftEngine_new n c) = (r, e1)"
  shows "raft_votes [RequestVote a 1 0 0] e = [(1, a)]" "raft_votes [RequestVote b 1 0 0] e1 = [(1, b)]"
proof -
  have "e1 = e"
    using assms(3,4) save_load [OF assms(1,2), of e] by (simp add: RaftEngine_new_def)
  then show "raft_votes [RequestVote a 1 0 0] e = [(1, a)]" "raft_votes [RequestVote b 1 0 0] e1 = [(1, b)]"
    by (simp_all add: assms(3) RaftEngine_new_def handle_request_vote_def last_log_index_def last_log_term_def Let_def)
qed

section \<open>Properties\<close>

text \<open>
  C9: one vote per term, as long as no leader is heard from.  Over any sequence of
  requests, candidacies, proposals and commits without an AppendEntries, in which the
  64-bit terms cannot wrap, a node never gives its vote of one term to two candidates.
\<close>

theorem raft_single_vote_per_term:
  assumes "\<forall>x \<in> set ops. \<not> is_append x"
    and "unat (rn_current_term (eng_state e)) + length ops < 2 ^ 64"
    and "\<forall>c t li lt. RequestVote c t li lt \<in> set ops \<longrightarrow> unat t + length ops < 2 ^ 64"
    and "(t, c) \<in> set (raft_votes ops e)" "(t, d) \<in> set (raft_votes ops e)"
  shows "c = d"
proof -
  have "terms_fit ops e"
    using assms(2,3) by (auto simp: terms_fit_def)
  from raft_one_vote [OF assms(1) this] assms(4,5) show ?thesis
    unfolding one_vote_def by blast
qed

definition sample_node :: "u64 \<Rightarrow> RaftEngine" where
  "sample_node n = RaftEngine_new (NodeId n) \<lparr>rc_embedded = True, rc_initial_peers = [NodeId 1, NodeId 2, NodeId 3],
     rc_etcd_endpoints = []\<rparr>"

lemmas sample_node_defs = sample_node_def RaftEngine_new_def last_log_index_def last_log_term_def raft_op_defs

theorem raft_single_vote_per_term_witness:
  "(1, NodeId 2) \<in> set (raft_votes [RequestVote (NodeId 2) 1 0 0, RequestVote (NodeId 3) 1 0 0] (sample_node 1)) \<and>
   (1, NodeId 3) \<notin> set (raft_votes [RequestVote (NodeId 2) 1 0 0, RequestVote (NodeId 3) 1 0 0] (sample_node 1))"
proof -
  let ?ops = "[RequestVote (NodeId 2) 1 0 0, RequestVote (NodeId 3) 1 0 0]"
  have v: "(1, NodeId 2) \<in> set (raft_votes ?ops (sample_node 1))"
    by (simp add: sample_node_defs)
  have "NodeId 2 = NodeId 3" if "(1, NodeId 3) \<in> set (raft_votes ?ops (sample_node 1))"
    by (rule raft_single_vote_per_term [OF _ _ _ v that]) (auto simp: sample_node_def RaftEngine_new_def)
  with v show ?thesis
    by auto
qed




end
