(* ===== verification/Scheduler.thy ===== *)
theory Scheduler
  imports Domain Precision
begin

text \<open>
  The placement scheduler of the master, from \<open>src/master/src/scheduler.rs\<close>.  The order
  in which the concurrent map is iterated is not specified: it is an argument, a list of
  the registered identifiers.  Doubles are the rounded rationals of the prelude.  The
  allocation is one atomic step; \<open>None\<close> in place of its result is the panic of a
  remainder by zero.
\<close>

section \<open>State\<close>

datatype SchedulingPolicy = LeastLoaded | RoundRobin | NumaAffinity

datatype SchedulerError =
    NoNodeAvailable u64
  | SchedNodeNotFound NodeId
  | SchedCapacityExceeded NodeId u64 u64

record SchedulerConfig =
  sc_prefetch_window :: nat
  sc_l0_promote_threshold :: u64
  sc_l1_demote_idle_secs :: u64
  sc_lru_decay :: rat
  sc_shard_count :: nat

definition SchedulerConfig_default :: SchedulerConfig where
  "SchedulerConfig_default =
    \<lparr>sc_prefetch_window = 8, sc_l0_promote_threshold = 100, sc_l1_demote_idle_secs = 60,
     sc_lru_decay = f64_round (8 / 10), sc_shard_count = 64\<rparr>"

record NodeResourceCapacity =
  nc_node_id :: NodeId
  nc_total_memory_bytes :: u64
  nc_allocated_memory_bytes :: u64
  nc_numa_nodes :: u32
  nc_active_rdma_qps :: u32
  nc_is_online :: bool

definition NodeCapacity_new :: "NodeId \<Rightarrow> u64 \<Rightarrow> u32 \<Rightarrow> NodeResourceCapacity" where
  "NodeCapacity_new n tot numa =
    \<lparr>nc_node_id = n, nc_total_memory_bytes = tot, nc_allocated_memory_bytes = 0, nc_numa_nodes = numa,
     nc_active_rdma_qps = 0, nc_is_online = True\<rparr>"

definition available_memory_bytes :: "NodeResourceCapacity \<Rightarrow> u64" where
  "available_memory_bytes c =
    (if nc_total_memory_bytes c > nc_allocated_memory_bytes c
     then nc_total_memory_bytes c - nc_allocated_memory_bytes c else 0)"

definition load_ratio :: "NodeResourceCapacity \<Rightarrow> rat" where
  "load_ratio c =
    (if nc_total_memory_bytes c = 0 then 1
     else f64_round (f64_of_nat (unat (nc_allocated_memory_bytes c)) / f64_of_nat (unat (nc_total_memory_bytes c))))"

record PlacementDecision =
  pd_selected_node_id :: NodeId
  pd_target_numa_node :: u32
  pd_allocated_vaddr :: u64
  pd_size_bytes :: u64
  pd_shard_id :: nat

record ClusterScheduler =
  cs_policy :: SchedulingPolicy
  cs_config :: SchedulerConfig
  cs_nodes :: "NodeId \<rightharpoonup> NodeResourceCapacity"
  cs_next_rr_index :: u64
  cs_predictor :: "Predictor option"
  cs_pressure_state :: MemoryPressureState

definition ClusterScheduler_new :: "SchedulingPolicy \<Rightarrow> SchedulerConfig \<Rightarrow> ClusterScheduler" where
  "ClusterScheduler_new p c =
    \<lparr>cs_policy = p, cs_config = c, cs_nodes = Map.empty, cs_next_rr_index = 0, cs_predictor = None,
     cs_pressure_state = Nominal\<rparr>"

section \<open>Precision\<close>

definition init_predictor :: "nat \<Rightarrow> ClusterScheduler \<Rightarrow> ClusterScheduler" where
  "init_predictor total_layers cs = cs\<lparr>cs_predictor := Some (Predictor_new total_layers)\<rparr>"

definition has_predictor :: "ClusterScheduler \<Rightarrow> bool" where
  "has_predictor cs \<longleftrightarrow> cs_predictor cs \<noteq> None"

definition update_memory_pressure :: "nat \<Rightarrow> nat \<Rightarrow> ClusterScheduler \<Rightarrow> ClusterScheduler" where
  "update_memory_pressure free_blocks total_blocks cs =
    (if total_blocks = 0 then cs
     else
       let mu = f64_round (1 - f64_round (f64_of_nat free_blocks / f64_of_nat total_blocks))
       in cs\<lparr>cs_pressure_state := MemoryPressureState_update (cs_pressure_state cs) (Fin mu)\<rparr>)"

text \<open>The outer option is the panic of the predictor, the inner one the absence of a predictor.\<close>

definition predict_block_policy ::
    "nat \<Rightarrow> u64 \<Rightarrow> u64 \<Rightarrow> u32 \<Rightarrow> bool \<Rightarrow> ClusterScheduler \<Rightarrow> PackedBlockPolicy option option" where
  "predict_block_policy layer_idx token_start seq_len head_mask retrieval_flag cs =
    (case cs_predictor cs of
       None \<Rightarrow> Some None
     | Some p \<Rightarrow>
         map_option Some (predict p layer_idx token_start seq_len (cs_pressure_state cs) head_mask retrieval_flag))"

section \<open>Placement\<close>

definition sched_register_node :: "NodeResourceCapacity \<Rightarrow> ClusterScheduler \<Rightarrow> ClusterScheduler" where
  "sched_register_node c cs = cs\<lparr>cs_nodes := (cs_nodes cs)(nc_node_id c \<mapsto> c)\<rparr>"

definition sched_unregister_node :: "NodeId \<Rightarrow> ClusterScheduler \<Rightarrow> ClusterScheduler" where
  "sched_unregister_node n cs = cs\<lparr>cs_nodes := (cs_nodes cs)(n := None)\<rparr>"

definition eligible :: "u64 \<Rightarrow> u32 option \<Rightarrow> NodeResourceCapacity \<Rightarrow> bool" where
  "eligible size_bytes hint c \<longleftrightarrow>
     nc_is_online c \<and> \<not> available_memory_bytes c < size_bytes \<and>
     (case hint of Some h \<Rightarrow> \<not> nc_numa_nodes c \<le> h | None \<Rightarrow> True)"

definition candidates ::
    "NodeId list \<Rightarrow> u64 \<Rightarrow> u32 option \<Rightarrow> (NodeId \<rightharpoonup> NodeResourceCapacity) \<Rightarrow> (NodeId \<times> u64 \<times> rat \<times> u32) list" where
  "candidates order size_bytes hint nodes =
    map (\<lambda>c. (nc_node_id c, available_memory_bytes c, load_ratio c, nc_numa_nodes c))
      (filter (eligible size_bytes hint) (List.map_filter nodes order))"

text \<open>\<open>min_by\<close> keeps the first of several minimal elements.\<close>

fun min_by_load :: "NodeId \<times> u64 \<times> rat \<times> u32 \<Rightarrow> (NodeId \<times> u64 \<times> rat \<times> u32) list \<Rightarrow> NodeId \<times> u64 \<times> rat \<times> u32" where
  "min_by_load best [] = best"
| "min_by_load best (c # cs) =
    min_by_load (if fst (snd (snd c)) < fst (snd (snd best)) then c else best) cs"

definition select_node ::
    "SchedulingPolicy \<Rightarrow> u64 \<Rightarrow> (NodeId \<times> u64 \<times> rat \<times> u32) list \<Rightarrow> NodeId" where
  "select_node policy rr cands =
    (case policy of
       LeastLoaded \<Rightarrow> fst (min_by_load (hd cands) (tl cands))
     | RoundRobin \<Rightarrow> fst (cands ! (unat rr mod length cands))
     | NumaAffinity \<Rightarrow> fst (cands ! 0))"

definition schedule_allocation ::
    "NodeId list \<Rightarrow> u64 \<Rightarrow> u32 option \<Rightarrow> ClusterScheduler \<Rightarrow>
     (SchedulerError, PlacementDecision) result option \<times> ClusterScheduler" where
  "schedule_allocation order size_bytes hint cs =
    (let cands = candidates order size_bytes hint (cs_nodes cs)
     in if cands = [] then (Some (Err (NoNodeAvailable size_bytes)), cs)
        else
          let selected = select_node (cs_policy cs) (cs_next_rr_index cs) cands;
              cs1 = (if cs_policy cs = RoundRobin then cs\<lparr>cs_next_rr_index := cs_next_rr_index cs + 1\<rparr> else cs)
          in case cs_nodes cs1 selected of
               None \<Rightarrow> (Some (Err (SchedNodeNotFound selected)), cs1)
             | Some c \<Rightarrow>
                 let c' = c\<lparr>nc_allocated_memory_bytes := nc_allocated_memory_bytes c + size_bytes\<rparr>;
                     cs2 = cs1\<lparr>cs_nodes := (cs_nodes cs1)(selected \<mapsto> c')\<rparr>
                 in if sc_shard_count (cs_config cs2) = 0 then (None, cs2)
                    else
                      (Some (Ok \<lparr>pd_selected_node_id = selected,
                         pd_target_numa_node = (case hint of Some h \<Rightarrow> h | None \<Rightarrow> 0),
                         pd_allocated_vaddr = 0x7fff00000000 + node_raw selected * 0x1000000000,
                         pd_size_bytes = size_bytes,
                         pd_shard_id = unat (node_raw selected) mod sc_shard_count (cs_config cs2)\<rparr>), cs2))"

definition release_allocation :: "NodeId \<Rightarrow> u64 \<Rightarrow> ClusterScheduler \<Rightarrow> ClusterScheduler" where
  "release_allocation n size_bytes cs =
    (case cs_nodes cs n of
       None \<Rightarrow> cs
     | Some c \<Rightarrow>
         cs\<lparr>cs_nodes := (cs_nodes cs)(n \<mapsto>
           c\<lparr>nc_allocated_memory_bytes :=
               (if nc_allocated_memory_bytes c \<ge> size_bytes then nc_allocated_memory_bytes c - size_bytes else 0)\<rparr>)\<rparr>)"

text \<open>The rounding reproduces the literals of the hysteresis thresholds.\<close>

lemma thresholds_rounded:
  "thr_070 = f64_round (70 / 100)" "thr_078 = f64_round (78 / 100)"
  "thr_082 = f64_round (82 / 100)" "thr_088 = f64_round (88 / 100)"
  unfolding thr_070_def thr_078_def thr_082_def thr_088_def by code_simp+

text \<open>
  After a critical reading, one reading of ninety free blocks in a hundred takes the
  scheduler to the elevated state only; the second one reaches the nominal state.
\<close>

lemma pressure_recovers_in_two_steps:
  "let cs = update_memory_pressure 10 100 (ClusterScheduler_new p c); cs1 = update_memory_pressure 90 100 cs
   in cs_pressure_state cs = Critical \<and> cs_pressure_state cs1 = Elevated \<and>
      cs_pressure_state (update_memory_pressure 90 100 cs1) = Nominal"
proof -
  have "MemoryPressureState_update Nominal (Fin (f64_round (1 - f64_round (f64_round 10 / f64_round 100)))) = Critical"
    "MemoryPressureState_update Critical (Fin (f64_round (1 - f64_round (f64_round 90 / f64_round 100)))) = Elevated"
    "MemoryPressureState_update Elevated (Fin (f64_round (1 - f64_round (f64_round 90 / f64_round 100)))) = Nominal"
    by code_simp+
  then show ?thesis
    by (simp add: update_memory_pressure_def ClusterScheduler_new_def f64_of_nat_def Let_def)
qed

section \<open>Correctness of a placement\<close>

definition sched_inv :: "ClusterScheduler \<Rightarrow> bool" where
  "sched_inv cs \<longleftrightarrow> (\<forall>n c. cs_nodes cs n = Some c \<longrightarrow>
     nc_node_id c = n \<and> nc_allocated_memory_bytes c \<le> nc_total_memory_bytes c)"

lemma min_by_load_in: "min_by_load b xs \<in> set (b # xs)"
  by (induction xs arbitrary: b) fastforce+

lemma min_by_load_le: "x \<in> set (b # xs) \<Longrightarrow> fst (snd (snd (min_by_load b xs))) \<le> fst (snd (snd x))"
proof (induction xs arbitrary: b x)
  case (Cons y ys)
  show ?case
  proof (cases "fst (snd (snd y)) < fst (snd (snd b))")
    case True
    with Cons.IH [of y y] Cons.IH [of x y] Cons.prems show ?thesis
      by auto
  next
    case False
    with Cons.IH [of b b] Cons.IH [of x b] Cons.prems show ?thesis
      by auto
  qed
qed simp

lemma set_candidates:
  assumes "sched_inv cs" "set order = dom (cs_nodes cs)"
  shows "set (candidates order sz hint (cs_nodes cs)) =
    {(n, available_memory_bytes c, load_ratio c, nc_numa_nodes c) | n c. cs_nodes cs n = Some c \<and> eligible sz hint c}"
proof -
  have "set (List.map_filter (cs_nodes cs) order) = {c. \<exists>n. cs_nodes cs n = Some c}"
    unfolding List.map_filter_def using assms(2) by force
  then show ?thesis
    using assms(1) by (force simp: candidates_def sched_inv_def)
qed

lemma select_node_in:
  assumes "cands \<noteq> []"
  obtains x where "x \<in> set cands" "select_node policy rr cands = fst x"
    "policy = LeastLoaded \<Longrightarrow> \<forall>y \<in> set cands. fst (snd (snd x)) \<le> fst (snd (snd y))"
proof (cases policy)
  case LeastLoaded
  have eq: "set (hd cands # tl cands) = set cands"
    using assms by simp
  show ?thesis
  proof (rule that)
    show "min_by_load (hd cands) (tl cands) \<in> set cands"
      using min_by_load_in [of "hd cands" "tl cands"] unfolding eq .
    show "\<forall>y \<in> set cands. fst (snd (snd (min_by_load (hd cands) (tl cands)))) \<le> fst (snd (snd y))"
      using min_by_load_le [of _ "hd cands" "tl cands"] unfolding eq by blast
  qed (simp add: select_node_def LeastLoaded)
next
  case RoundRobin
  have "unat rr mod length cands < length cands"
    using assms by simp
  with RoundRobin show ?thesis
    by (intro that [of "cands ! (unat rr mod length cands)"]) (auto simp: select_node_def)
next
  case NumaAffinity
  with assms show ?thesis
    by (intro that [of "cands ! 0"]) (auto simp: select_node_def)
qed

lemma eligible_room:
  assumes "eligible sz hint c" "nc_allocated_memory_bytes c \<le> nc_total_memory_bytes c"
  shows "unat (nc_allocated_memory_bytes c + sz) = unat (nc_allocated_memory_bytes c) + unat sz"
    "nc_allocated_memory_bytes c + sz \<le> nc_total_memory_bytes c"
proof -
  have "unat (nc_allocated_memory_bytes c) + unat sz \<le> unat (nc_total_memory_bytes c)"
    using assms by (auto simp: eligible_def available_memory_bytes_def not_less word_le_nat_alt word_less_nat_alt
        unat_sub split: if_splits)
  moreover from this have "unat (nc_allocated_memory_bytes c) + unat sz < 2 ^ 64"
    using unsigned_less [of "nc_total_memory_bytes c", where ?'a = nat] by simp
  ultimately show "unat (nc_allocated_memory_bytes c + sz) = unat (nc_allocated_memory_bytes c) + unat sz"
    "nc_allocated_memory_bytes c + sz \<le> nc_total_memory_bytes c"
    by (simp_all add: unat_word_ariths word_le_nat_alt)
qed

section \<open>Properties\<close>


definition sample_scheduler :: ClusterScheduler where
  "sample_scheduler =
    sched_register_node (NodeCapacity_new (NodeId 2) 4096 1)
      (sched_register_node (NodeCapacity_new (NodeId 1) 8192 2)
        (ClusterScheduler_new LeastLoaded SchedulerConfig_default))"


end
