(* ===== verification/Coordinator.thy ===== *)
theory Coordinator
  imports Prelude
begin

text \<open>
  The node registry of the master, from \<open>src/master/src/coordinator.rs\<close>: registration,
  heartbeats, eviction of silent nodes and the counter of active nodes that is kept
  beside the map.  Instants are natural numbers of milliseconds, supplied with each call;
  the order in which the hash map is iterated is an argument of the eviction.
\<close>

datatype MasterError =
    MasterInternal string
  | NodeAlreadyExists u32
  | MasterNodeNotFound u32
  | BindError string string

record NodeDescriptor =
  nd_node_id :: u32
  nd_endpoint_addr :: string
  nd_last_heartbeat :: nat
  nd_is_active :: bool

record MasterCoordinatorConfig =
  mc_heartbeat_timeout_ms :: nat
  mc_listen_addr :: string

definition MasterConfig_default :: MasterCoordinatorConfig where
  "MasterConfig_default = \<lparr>mc_heartbeat_timeout_ms = 5000, mc_listen_addr = ''0.0.0.0:9090''\<rparr>"

record CoordinatorMetrics =
  cm_total_registrations :: u64
  cm_total_heartbeats :: u64
  cm_total_evictions :: u64

record MasterCoordinator =
  co_config :: MasterCoordinatorConfig
  co_nodes :: "u32 \<rightharpoonup> NodeDescriptor"
  co_running :: bool
  co_active_count :: u64
  co_metrics :: CoordinatorMetrics

definition Coordinator_new :: "MasterCoordinatorConfig \<Rightarrow> MasterCoordinator" where
  "Coordinator_new c =
    \<lparr>co_config = c, co_nodes = Map.empty, co_running = True, co_active_count = 0,
     co_metrics = \<lparr>cm_total_registrations = 0, cm_total_heartbeats = 0, cm_total_evictions = 0\<rparr>\<rparr>"

definition register_node ::
    "u32 \<Rightarrow> string \<Rightarrow> nat \<Rightarrow> MasterCoordinator \<Rightarrow> (MasterError, unit) result \<times> MasterCoordinator" where
  "register_node n addr now co =
    (if co_nodes co n \<noteq> None then (Err (NodeAlreadyExists n), co)
     else
       (Ok (), co\<lparr>co_nodes := (co_nodes co)(n \<mapsto> \<lparr>nd_node_id = n, nd_endpoint_addr = addr,
                    nd_last_heartbeat = now, nd_is_active = True\<rparr>),
                  co_active_count := co_active_count co + 1,
                  co_metrics := (co_metrics co)\<lparr>cm_total_registrations := cm_total_registrations (co_metrics co) + 1\<rparr>\<rparr>))"

definition record_heartbeat ::
    "u32 \<Rightarrow> nat \<Rightarrow> MasterCoordinator \<Rightarrow> (MasterError, unit) result \<times> MasterCoordinator" where
  "record_heartbeat n now co =
    (case co_nodes co n of
       Some d \<Rightarrow>
         (Ok (), co\<lparr>co_active_count := (if nd_is_active d then co_active_count co else co_active_count co + 1),
                    co_nodes := (co_nodes co)(n \<mapsto> d\<lparr>nd_is_active := True, nd_last_heartbeat := now\<rparr>),
                    co_metrics := (co_metrics co)\<lparr>cm_total_heartbeats := cm_total_heartbeats (co_metrics co) + 1\<rparr>\<rparr>)
     | None \<Rightarrow> (Err (MasterNodeNotFound n), co))"

definition active_node_count :: "MasterCoordinator \<Rightarrow> u64" where
  "active_node_count co = co_active_count co"

definition is_stale :: "nat \<Rightarrow> nat \<Rightarrow> NodeDescriptor \<Rightarrow> bool" where
  "is_stale timeout now d \<longleftrightarrow> nd_is_active d \<and> now - nd_last_heartbeat d > timeout"

definition evict_stale_nodes :: "u32 list \<Rightarrow> nat \<Rightarrow> MasterCoordinator \<Rightarrow> u32 list \<times> MasterCoordinator" where
  "evict_stale_nodes order now co =
    (let timeout = mc_heartbeat_timeout_ms (co_config co);
         stale_ids = filter (\<lambda>n. case co_nodes co n of Some d \<Rightarrow> is_stale timeout now d | None \<Rightarrow> False) order;
         marked = fold (\<lambda>n m. case m n of Some d \<Rightarrow> m(n \<mapsto> d\<lparr>nd_is_active := False\<rparr>) | None \<Rightarrow> m) stale_ids (co_nodes co);
         removed = fold (\<lambda>n m. m(n := None)) stale_ids marked
     in (stale_ids,
         if stale_ids = [] then co\<lparr>co_nodes := removed\<rparr>
         else co\<lparr>co_nodes := removed,
                 co_active_count := co_active_count co - of_nat (length stale_ids),
                 co_metrics := (co_metrics co)\<lparr>cm_total_evictions :=
                   cm_total_evictions (co_metrics co) + of_nat (length stale_ids)\<rparr>\<rparr>))"

definition remove_node :: "u32 \<Rightarrow> MasterCoordinator \<Rightarrow> (MasterError, unit) result \<times> MasterCoordinator" where
  "remove_node n co =
    (case co_nodes co n of
       Some d \<Rightarrow>
         (Ok (), co\<lparr>co_nodes := (co_nodes co)(n := None),
                    co_active_count := (if nd_is_active d then co_active_count co - 1 else co_active_count co)\<rparr>)
     | None \<Rightarrow> (Err (MasterNodeNotFound n), co))"

definition get_node :: "u32 \<Rightarrow> MasterCoordinator \<Rightarrow> (MasterError, NodeDescriptor) result" where
  "get_node n co = (case co_nodes co n of Some d \<Rightarrow> Ok d | None \<Rightarrow> Err (MasterNodeNotFound n))"

definition get_all_nodes :: "MasterCoordinator \<Rightarrow> NodeDescriptor set" where
  "get_all_nodes co = ran (co_nodes co)"

definition shutdown :: "MasterCoordinator \<Rightarrow> MasterCoordinator" where
  "shutdown co = co\<lparr>co_running := False\<rparr>"

definition get_metrics :: "MasterCoordinator \<Rightarrow> CoordinatorMetrics" where
  "get_metrics co = co_metrics co"

section \<open>The counter invariant\<close>

definition co_inv :: "MasterCoordinator \<Rightarrow> bool" where
  "co_inv co \<longleftrightarrow> finite (dom (co_nodes co)) \<and> (\<forall>n d. co_nodes co n = Some d \<longrightarrow> nd_is_active d \<and> nd_node_id d = n) \<and>
     co_active_count co = of_nat (card (dom (co_nodes co)))"

lemma co_inv_new: "co_inv (Coordinator_new c)"
  by (simp add: co_inv_def Coordinator_new_def)

lemma card_remove_word:
  "finite A \<Longrightarrow> x \<in> A \<Longrightarrow> (of_nat (card (A - {x})) :: u64) = of_nat (card A) - 1"
  by (subst card_Suc_Diff1 [of A x, symmetric]) (simp_all del: card_Diff_insert)

lemma register_node_inv:
  assumes "co_inv co"
  shows "co_inv (snd (register_node n addr now co))"
proof (cases "co_nodes co n")
  case None
  then have "card (insert n (dom (co_nodes co))) = Suc (card (dom (co_nodes co)))"
    using assms by (intro card_insert_disjoint) (auto simp: co_inv_def)
  with None assms show ?thesis
    by (simp add: co_inv_def register_node_def)
qed (use assms in \<open>simp add: register_node_def\<close>)

lemma record_heartbeat_inv:
  assumes "co_inv co"
  shows "co_inv (snd (record_heartbeat n now co))"
proof (cases "co_nodes co n")
  case (Some d)
  then have "insert n (dom (co_nodes co)) = dom (co_nodes co)"
    by auto
  with Some assms show ?thesis
    by (simp add: co_inv_def record_heartbeat_def)
qed (use assms in \<open>simp add: record_heartbeat_def\<close>)

lemma remove_node_inv:
  assumes "co_inv co"
  shows "co_inv (snd (remove_node n co))"
proof (cases "co_nodes co n")
  case (Some d)
  then have "(of_nat (card (dom (co_nodes co) - {n})) :: u64) = of_nat (card (dom (co_nodes co))) - 1"
    using assms by (intro card_remove_word) (auto simp: co_inv_def)
  with assms Some show ?thesis
    by (simp add: co_inv_def remove_node_def del: card_Diff_insert)
qed (use assms in \<open>simp add: remove_node_def\<close>)

lemma fold_mark: "fold (\<lambda>n m. case m n of Some d \<Rightarrow> m(n \<mapsto> f d) | None \<Rightarrow> m) ns m k = None \<longleftrightarrow> m k = None"
  by (induction ns arbitrary: m) (auto split: option.splits)

lemma fold_mark_other:
  "k \<notin> set ns \<Longrightarrow> fold (\<lambda>n m. case m n of Some d \<Rightarrow> m(n \<mapsto> f d) | None \<Rightarrow> m) ns m k = m k"
  by (induction ns arbitrary: m) (auto split: option.splits)

lemma fold_remove: "fold (\<lambda>n m. m(n := None)) ns m = m |` (- set ns)"
  by (induction ns arbitrary: m) (auto simp: restrict_map_def fun_eq_iff)

definition stale_set :: "nat \<Rightarrow> MasterCoordinator \<Rightarrow> u32 set" where
  "stale_set now co = {n. \<exists>d. co_nodes co n = Some d \<and> is_stale (mc_heartbeat_timeout_ms (co_config co)) now d}"

lemma evict_result:
  assumes "set order = dom (co_nodes co)"
  shows "set (fst (evict_stale_nodes order now co)) = stale_set now co"
    "co_nodes (snd (evict_stale_nodes order now co)) = co_nodes co |` (- stale_set now co)"
proof -
  define ids where "ids = filter (\<lambda>n. case co_nodes co n of
      Some d \<Rightarrow> is_stale (mc_heartbeat_timeout_ms (co_config co)) now d | None \<Rightarrow> False) order"
  have ids: "set ids = stale_set now co"
    using assms by (auto simp: ids_def stale_set_def split: option.splits)
  have "fst (evict_stale_nodes order now co) = ids"
    by (simp add: evict_stale_nodes_def ids_def Let_def)
  with ids show "set (fst (evict_stale_nodes order now co)) = stale_set now co"
    by simp
  have "co_nodes (snd (evict_stale_nodes order now co)) =
      fold (\<lambda>n m. case m n of Some d \<Rightarrow> m(n \<mapsto> d\<lparr>nd_is_active := False\<rparr>) | None \<Rightarrow> m) ids (co_nodes co) |` (- set ids)"
    unfolding evict_stale_nodes_def ids_def [symmetric] Let_def by (simp add: fold_remove restrict_map_def)
  then show "co_nodes (snd (evict_stale_nodes order now co)) = co_nodes co |` (- stale_set now co)"
    unfolding ids [symmetric] by (simp add: restrict_map_def fun_eq_iff fold_mark_other)
qed

lemma evict_inv:
  assumes "co_inv co" "distinct order" "set order = dom (co_nodes co)"
  shows "co_inv (snd (evict_stale_nodes order now co))"
proof -
  let ?co = "snd (evict_stale_nodes order now co)" and ?ids = "fst (evict_stale_nodes order now co)"
  have d: "distinct ?ids"
    using assms(2) by (simp add: evict_stale_nodes_def Let_def)
  have ids: "set ?ids \<subseteq> dom (co_nodes co)"
    using evict_result(1) [OF assms(3), of now] by (auto simp: stale_set_def)
  have dm: "dom (co_nodes ?co) = dom (co_nodes co) - set ?ids"
    using evict_result [OF assms(3), of now] by auto
  have fin: "finite (dom (co_nodes co))"
    using assms(1) by (simp add: co_inv_def)
  have "card (dom (co_nodes ?co)) + length ?ids = card (dom (co_nodes co))"
    unfolding dm using ids fin d by (metis add.commute card_Diff_subset card_mono distinct_card
        finite_set le_add_diff_inverse)
  then have "(of_nat (card (dom (co_nodes co))) :: u64) = of_nat (card (dom (co_nodes ?co))) + of_nat (length ?ids)"
    by (metis of_nat_add)
  moreover have "co_active_count ?co = co_active_count co - of_nat (length ?ids)"
    by (auto simp: evict_stale_nodes_def Let_def)
  ultimately have "co_active_count ?co = of_nat (card (dom (co_nodes ?co)))"
    using assms(1) by (simp add: co_inv_def)
  moreover have "finite (dom (co_nodes ?co))"
    unfolding dm using fin by simp
  moreover have "nd_is_active d \<and> nd_node_id d = n" if "co_nodes ?co n = Some d" for n d
    using that assms(1) unfolding evict_result(2) [OF assms(3)] co_inv_def restrict_map_def
    by (metis option.distinct(1))
  ultimately show ?thesis
    unfolding co_inv_def by blast
qed

section \<open>Traces\<close>

text \<open>Calls at non-decreasing instants; an eviction sees the registered identifiers in any order.\<close>

inductive coordinator_reachable :: "MasterCoordinatorConfig \<Rightarrow> MasterCoordinator \<Rightarrow> bool" for c where
  start: "coordinator_reachable c (Coordinator_new c)"
| register: "coordinator_reachable c co \<Longrightarrow> coordinator_reachable c (snd (register_node n addr now co))"
| heartbeat: "coordinator_reachable c co \<Longrightarrow> coordinator_reachable c (snd (record_heartbeat n now co))"
| evict: "coordinator_reachable c co \<Longrightarrow> distinct order \<Longrightarrow> set order = dom (co_nodes co) \<Longrightarrow>
    coordinator_reachable c (snd (evict_stale_nodes order now co))"
| remove: "coordinator_reachable c co \<Longrightarrow> coordinator_reachable c (snd (remove_node n co))"
| stop: "coordinator_reachable c co \<Longrightarrow> coordinator_reachable c (shutdown co)"

lemma reachable_inv: "coordinator_reachable c co \<Longrightarrow> co_inv co"
proof (induction rule: coordinator_reachable.induct)
  case (stop co)
  then show ?case by (simp add: co_inv_def shutdown_def)
qed (assumption | rule co_inv_new register_node_inv record_heartbeat_inv evict_inv remove_node_inv)+

text \<open>
  C31: the counter is the number of nodes, and evictions are exact.  In every reachable
  state the constant-time active count equals the number of registered nodes, all of
  which are active; an eviction then returns precisely the nodes whose last heartbeat is
  older than the timeout, each once, removes those and keeps the others unchanged.
\<close>

theorem coordinator_counts_and_evicts:
  assumes "coordinator_reachable c co" "distinct order" "set order = dom (co_nodes co)"
  shows "active_node_count co = of_nat (card (dom (co_nodes co))) \<and>
    (\<forall>d \<in> get_all_nodes co. nd_is_active d) \<and>
    (let (ids, co') = evict_stale_nodes order now co
     in distinct ids \<and>
        set ids = {n. \<exists>d. get_node n co = Ok d \<and> now - nd_last_heartbeat d > mc_heartbeat_timeout_ms (co_config co)} \<and>
        (\<forall>n. get_node n co' = (if n \<in> set ids then Err (MasterNodeNotFound n) else get_node n co)) \<and>
        active_node_count co' = of_nat (card (dom (co_nodes co')))) "
proof -
  have inv: "co_inv co"
    using assms(1) by (rule reachable_inv)
  let ?ids = "fst (evict_stale_nodes order now co)" and ?co = "snd (evict_stale_nodes order now co)"
  have "stale_set now co = {n. \<exists>d. get_node n co = Ok d \<and> now - nd_last_heartbeat d > mc_heartbeat_timeout_ms (co_config co)}"
    using inv by (auto simp: stale_set_def is_stale_def co_inv_def get_node_def split: option.splits)
  moreover have "distinct ?ids"
    using assms(2) by (simp add: evict_stale_nodes_def Let_def)
  moreover have "get_node n ?co = (if n \<in> set ?ids then Err (MasterNodeNotFound n) else get_node n co)" for n
    using evict_result [OF assms(3), of now] by (simp add: get_node_def)
  moreover have "co_inv ?co"
    using evict_inv [OF inv assms(2,3)] .
  ultimately show ?thesis
    using inv evict_result(1) [OF assms(3), of now]
    by (auto simp: case_prod_beta Let_def co_inv_def active_node_count_def get_all_nodes_def ran_def)
qed

theorem coordinator_counts_and_evicts_witness:
  "\<exists>co. coordinator_reachable MasterConfig_default co \<and> fst (evict_stale_nodes [2, 1] 7000 co) = [1] \<and> active_node_count co = 2"
proof -
  let ?co = "snd (register_node 2 ''b'' 6000 (snd (register_node 1 ''a'' 0 (Coordinator_new MasterConfig_default))))"
  have r: "coordinator_reachable MasterConfig_default ?co"
    by (intro coordinator_reachable.intros)
  have n: "dom (co_nodes ?co) = {1, 2}"
    by (auto simp: register_node_def Coordinator_new_def split: if_splits)
  have "fst (evict_stale_nodes [2, 1] 7000 ?co) = [1]"
    by (simp add: evict_stale_nodes_def register_node_def Coordinator_new_def MasterConfig_default_def is_stale_def Let_def)
  moreover have "active_node_count ?co = of_nat (card (dom (co_nodes ?co)))"
    using coordinator_counts_and_evicts [OF r, of "[2, 1]" 7000] unfolding n by auto
  then have "active_node_count ?co = 2"
    unfolding n by simp
  ultimately show ?thesis
    using r by blast
qed

end
