(* ===== verification/Resource_Limits.thy ===== *)
theory Resource_Limits
  imports Prelude
begin

text \<open>
  The resource limiter of the daemon, from \<open>src/klnk/klnk-daemon/src/limits.rs\<close>: byte
  and descriptor budgets kept in atomic counters, and the back-pressure flag with its two
  watermarks.  The sequential operations run their compare-and-swap loop without
  interference; the step relation below interleaves the loops of several threads, one
  load or one compare-and-swap at a time, with spurious failures of the weak exchange.
  A \<open>usize\<close> counter is a 64-bit word whose addition wraps.
\<close>

section \<open>Configuration\<close>

datatype LimitsError =
    MemoryLimitExceeded u64 u64 u64
  | DescriptorLimitExceeded u64 u64
  | HighWatermarkBackpressure f64 f64

record DaemonResourceConfig =
  dr_max_staging_bytes :: u64
  dr_high_watermark_pct :: f64
  dr_low_watermark_pct :: f64
  dr_max_active_descriptors :: u64

definition ResourceConfig_default :: DaemonResourceConfig where
  "ResourceConfig_default =
    \<lparr>dr_max_staging_bytes = 8 * 1024 * 1024 * 1024, dr_high_watermark_pct = Fin (f64_round (85 / 100)),
     dr_low_watermark_pct = Fin (f64_round (60 / 100)), dr_max_active_descriptors = 1024\<rparr>"

definition f64_gt :: "f64 \<Rightarrow> rat \<Rightarrow> bool" where
  "f64_gt x c \<longleftrightarrow> f64_le (Fin c) x \<and> \<not> f64_le x (Fin c)"

definition validate :: "DaemonResourceConfig \<Rightarrow> (string, unit) result" where
  "validate c =
    (if dr_max_staging_bytes c = 0 then Err ''max_staging_bytes must be > 0''
     else if f64_le (dr_high_watermark_pct c) (dr_low_watermark_pct c)
     then Err ''high_watermark_pct must be greater than low_watermark_pct''
     else if f64_gt (dr_high_watermark_pct c) 1 \<or> f64_lt (dr_low_watermark_pct c) 0
     then Err ''watermark percentages must be in [0.0, 1.0]''
     else if dr_max_active_descriptors c = 0 then Err ''max_active_descriptors must be > 0''
     else Ok ())"

record ResourceLimiter =
  rl_config :: DaemonResourceConfig
  rl_used_staging_bytes :: u64
  rl_active_descriptors :: u64
  rl_backpressure_active :: bool

definition ResourceLimiter_new :: "DaemonResourceConfig \<Rightarrow> (string, ResourceLimiter) result" where
  "ResourceLimiter_new c =
    (case validate c of
       Inl e \<Rightarrow> Err e
     | Inr _ \<Rightarrow> Ok \<lparr>rl_config = c, rl_used_staging_bytes = 0, rl_active_descriptors = 0,
                   rl_backpressure_active = False\<rparr>)"

section \<open>Operations\<close>

definition memory_usage_ratio :: "ResourceLimiter \<Rightarrow> rat" where
  "memory_usage_ratio rl =
    (let current = f64_of_nat (unat (rl_used_staging_bytes rl));
         limit = f64_of_nat (unat (dr_max_staging_bytes (rl_config rl)))
     in if limit = 0 then 0 else f64_round (current / limit))"

definition update_backpressure :: "ResourceLimiter \<Rightarrow> ResourceLimiter" where
  "update_backpressure rl =
    (let usage = Fin (memory_usage_ratio rl)
     in rl\<lparr>rl_backpressure_active :=
          (if rl_backpressure_active rl then f64_le (dr_low_watermark_pct (rl_config rl)) usage
           else f64_le (dr_high_watermark_pct (rl_config rl)) usage)\<rparr>)"

text \<open>One turn of the reservation loop: the check against the limit for a loaded value.\<close>

definition reserve_check :: "u64 \<Rightarrow> u64 \<Rightarrow> u64 \<Rightarrow> (LimitsError, u64) result" where
  "reserve_check limit current bytes =
    (if current + bytes > limit then Err (MemoryLimitExceeded bytes current limit) else Ok (current + bytes))"

definition reserve_memory :: "u64 \<Rightarrow> ResourceLimiter \<Rightarrow> (LimitsError, unit) result \<times> ResourceLimiter" where
  "reserve_memory bytes rl =
    (case reserve_check (dr_max_staging_bytes (rl_config rl)) (rl_used_staging_bytes rl) bytes of
       Inl e \<Rightarrow> (Err e, rl)
     | Inr new_val \<Rightarrow> (Ok (), update_backpressure (rl\<lparr>rl_used_staging_bytes := new_val\<rparr>)))"

definition saturating_sub :: "u64 \<Rightarrow> u64 \<Rightarrow> u64" where
  "saturating_sub a b = (if b \<le> a then a - b else 0)"

definition release_memory :: "u64 \<Rightarrow> ResourceLimiter \<Rightarrow> ResourceLimiter" where
  "release_memory bytes rl =
    update_backpressure (rl\<lparr>rl_used_staging_bytes := saturating_sub (rl_used_staging_bytes rl) bytes\<rparr>)"

definition register_descriptor :: "ResourceLimiter \<Rightarrow> (LimitsError, unit) result \<times> ResourceLimiter" where
  "register_descriptor rl =
    (let limit = dr_max_active_descriptors (rl_config rl); current = rl_active_descriptors rl
     in if current \<ge> limit then (Err (DescriptorLimitExceeded current limit), rl)
        else (Ok (), rl\<lparr>rl_active_descriptors := current + 1\<rparr>))"

definition unregister_descriptor :: "ResourceLimiter \<Rightarrow> ResourceLimiter" where
  "unregister_descriptor rl = rl\<lparr>rl_active_descriptors := saturating_sub (rl_active_descriptors rl) 1\<rparr>"

definition f64_percent :: "f64 \<Rightarrow> f64" where
  "f64_percent x = (case x of Fin q \<Rightarrow> Fin (f64_round (q * 100)) | _ \<Rightarrow> x)"

definition check_backpressure :: "ResourceLimiter \<Rightarrow> (LimitsError, unit) result" where
  "check_backpressure rl =
    (let usage_pct = Fin (memory_usage_ratio rl); high = dr_high_watermark_pct (rl_config rl)
     in if f64_le high usage_pct
        then Err (HighWatermarkBackpressure (f64_percent usage_pct) (f64_percent high)) else Ok ())"

section \<open>Interleaved reservations\<close>

text \<open>
  Threads \<open>0 ..< n\<close> reserve and release memory.  A thread in \<open>Reserving b c\<close> or
  \<open>Releasing b c\<close> has loaded the counter value \<open>c\<close>; in \<open>Settling\<close> it is about to update the
  back-pressure flag.  The last component records how many bytes each thread holds; a
  thread releases only what it holds.
\<close>

datatype LimThread = LimIdle | Reserving u64 u64 | Releasing u64 u64 | Settling

record lim_state =
  lm_limiter :: ResourceLimiter
  lm_thread :: "nat \<Rightarrow> LimThread"
  lm_held :: "nat \<Rightarrow> nat"

abbreviation lm_used :: "lim_state \<Rightarrow> u64" where
  "lm_used s \<equiv> rl_used_staging_bytes (lm_limiter s)"

abbreviation lm_limit :: "lim_state \<Rightarrow> u64" where
  "lm_limit s \<equiv> dr_max_staging_bytes (rl_config (lm_limiter s))"

definition goto :: "nat \<Rightarrow> LimThread \<Rightarrow> lim_state \<Rightarrow> lim_state" where
  "goto t pc s = s\<lparr>lm_thread := (lm_thread s)(t := pc)\<rparr>"

definition store_used :: "u64 \<Rightarrow> lim_state \<Rightarrow> lim_state" where
  "store_used v s = s\<lparr>lm_limiter := (lm_limiter s)\<lparr>rl_used_staging_bytes := v\<rparr>\<rparr>"

definition hold :: "nat \<Rightarrow> nat \<Rightarrow> lim_state \<Rightarrow> lim_state" where
  "hold t v s = s\<lparr>lm_held := (lm_held s)(t := v)\<rparr>"

inductive lim_step :: "nat \<Rightarrow> nat \<Rightarrow> lim_state \<Rightarrow> lim_state \<Rightarrow> bool" for n maxreq where
  reserve_load: "t < n \<Longrightarrow> lm_thread s t = LimIdle \<Longrightarrow> unat b \<le> maxreq \<Longrightarrow>
    lim_step n maxreq s (goto t (Reserving b (lm_used s)) s)"
| reserve_reject: "t < n \<Longrightarrow> lm_thread s t = Reserving b c \<Longrightarrow> reserve_check (lm_limit s) c b = Err e \<Longrightarrow>
    lim_step n maxreq s (goto t LimIdle s)"
| reserve_retry: "t < n \<Longrightarrow> lm_thread s t = Reserving b c \<Longrightarrow> reserve_check (lm_limit s) c b = Ok v \<Longrightarrow>
    lim_step n maxreq s (goto t (Reserving b (lm_used s)) s)"
| reserve_swap: "t < n \<Longrightarrow> lm_thread s t = Reserving b c \<Longrightarrow> reserve_check (lm_limit s) c b = Ok v \<Longrightarrow>
    lm_used s = c \<Longrightarrow>
    lim_step n maxreq s (goto t Settling (hold t (lm_held s t + unat b) (store_used v s)))"
| release_load: "t < n \<Longrightarrow> lm_thread s t = LimIdle \<Longrightarrow> unat b \<le> lm_held s t \<Longrightarrow>
    lim_step n maxreq s (goto t (Releasing b (lm_used s)) s)"
| release_retry: "t < n \<Longrightarrow> lm_thread s t = Releasing b c \<Longrightarrow>
    lim_step n maxreq s (goto t (Releasing b (lm_used s)) s)"
| release_swap: "t < n \<Longrightarrow> lm_thread s t = Releasing b c \<Longrightarrow> lm_used s = c \<Longrightarrow>
    lim_step n maxreq s (goto t Settling (hold t (lm_held s t - unat b) (store_used (saturating_sub c b) s)))"
| settle: "t < n \<Longrightarrow> lm_thread s t = Settling \<Longrightarrow>
    lim_step n maxreq s (goto t LimIdle (s\<lparr>lm_limiter := update_backpressure (lm_limiter s)\<rparr>))"

inductive lim_reachable :: "nat \<Rightarrow> nat \<Rightarrow> DaemonResourceConfig \<Rightarrow> lim_state \<Rightarrow> bool" for n maxreq cfg where
  lim_start: "ResourceLimiter_new cfg = Ok rl \<Longrightarrow>
    lim_reachable n maxreq cfg \<lparr>lm_limiter = rl, lm_thread = \<lambda>_. LimIdle, lm_held = \<lambda>_. 0\<rparr>"
| lim_next: "lim_reachable n maxreq cfg s \<Longrightarrow> lim_step n maxreq s s' \<Longrightarrow> lim_reachable n maxreq cfg s'"

inductive_cases lim_stepE: "lim_step n maxreq s s'"

section \<open>The invariant\<close>

definition thread_ok :: "nat \<Rightarrow> LimThread \<Rightarrow> nat \<Rightarrow> u64 \<Rightarrow> bool" where
  "thread_ok maxreq pc held limit \<longleftrightarrow>
    (case pc of
       Reserving b c \<Rightarrow> unat b \<le> maxreq \<and> c \<le> limit
     | Releasing b c \<Rightarrow> unat b \<le> held
     | _ \<Rightarrow> True)"

definition lim_inv :: "nat \<Rightarrow> nat \<Rightarrow> DaemonResourceConfig \<Rightarrow> lim_state \<Rightarrow> bool" where
  "lim_inv n maxreq cfg s \<longleftrightarrow> rl_config (lm_limiter s) = cfg \<and>
     unat (lm_used s) = (\<Sum>t < n. lm_held s t) \<and> lm_used s \<le> lm_limit s \<and>
     (\<forall>t < n. thread_ok maxreq (lm_thread s t) (lm_held s t) (lm_limit s))"

lemma lim_inv_goto:
  assumes "lim_inv n maxreq cfg s" "thread_ok maxreq pc (lm_held s t) (lm_limit s)"
  shows "lim_inv n maxreq cfg (goto t pc s)"
  using assms by (auto simp: lim_inv_def goto_def)

lemma sum_upd_add:
  fixes f :: "nat \<Rightarrow> nat"
  assumes "t < n"
  shows "(\<Sum>i < n. (f(t := f t + b)) i) = (\<Sum>i < n. f i) + b"
    "b \<le> f t \<Longrightarrow> (\<Sum>i < n. (f(t := f t - b)) i) + b = (\<Sum>i < n. f i)"
proof -
  have "(\<Sum>i < n. g i) = g t + (\<Sum>i \<in> {..< n} - {t}. g i)" for g :: "nat \<Rightarrow> nat"
    using assms by (intro sum.remove) simp_all
  from this [of "f(t := f t + b)"] this [of "f(t := f t - b)"] this [of f]
  show "(\<Sum>i < n. (f(t := f t + b)) i) = (\<Sum>i < n. f i) + b"
    "b \<le> f t \<Longrightarrow> (\<Sum>i < n. (f(t := f t - b)) i) + b = (\<Sum>i < n. f i)"
    by simp_all
qed

lemma held_le_sum: "t < n \<Longrightarrow> f t \<le> (\<Sum>i < n. f i)" for f :: "nat \<Rightarrow> nat"
  by (rule member_le_sum) simp_all

lemma reserve_check_ok:
  assumes "reserve_check limit c b = Ok v" "unat limit + unat b < 2 ^ 64" "c \<le> limit"
  shows "unat v = unat c + unat b" "v \<le> limit"
proof -
  have "unat c + unat b < 2 ^ 64"
    using assms(2,3) by (simp add: word_le_nat_alt)
  then have "unat (c + b) = unat c + unat b"
    by (simp add: unat_word_ariths)
  then show "unat v = unat c + unat b" "v \<le> limit"
    using assms(1) by (auto simp: reserve_check_def split: if_splits)
qed

lemma reserve_swap_inv:
  assumes inv: "lim_inv n maxreq cfg s" and fit: "unat (dr_max_staging_bytes cfg) + maxreq < 2 ^ 64"
    and t: "t < n" "lm_thread s t = Reserving b c" "reserve_check (lm_limit s) c b = Ok v" "lm_used s = c"
  shows "lim_inv n maxreq cfg (hold t (lm_held s t + unat b) (store_used v s))"
proof -
  have "thread_ok maxreq (Reserving b c) (lm_held s t) (lm_limit s)" "unat (lm_limit s) + maxreq < 2 ^ 64"
    using inv t fit by (auto simp: lim_inv_def)
  then have v: "unat v = unat c + unat b" "v \<le> lm_limit s"
    using reserve_check_ok [OF t(3)] by (auto simp: thread_ok_def)
  have "thread_ok maxreq (lm_thread s i) (if i = t then lm_held s t + unat b else lm_held s i) (lm_limit s)" if "i < n" for i
    using inv that by (auto simp: lim_inv_def thread_ok_def split: LimThread.splits)
  then show ?thesis
    using inv v t(4) sum_upd_add(1) [OF t(1), of "lm_held s" "unat b"]
    by (auto simp: lim_inv_def hold_def store_used_def)
qed

lemma release_swap_inv:
  assumes inv: "lim_inv n maxreq cfg s"
    and t: "t < n" "lm_thread s t = Releasing b c" "lm_used s = c"
  shows "lim_inv n maxreq cfg (goto t Settling (hold t (lm_held s t - unat b) (store_used (saturating_sub c b) s)))"
proof -
  have b: "unat b \<le> lm_held s t"
    using inv t(1,2) by (force simp: lim_inv_def thread_ok_def)
  then have "unat b \<le> unat c"
    using inv t(3) held_le_sum [OF t(1), of "lm_held s"] by (auto simp: lim_inv_def)
  then have le: "b \<le> c" and u: "unat (c - b) = unat c - unat b"
    by (simp_all add: word_le_nat_alt unat_sub)
  then have "c - b \<le> lm_limit s"
    using inv t(3) by (auto simp: lim_inv_def word_le_nat_alt)
  then show ?thesis
    using inv le u t(3) sum_upd_add(2) [OF t(1), of "unat b" "lm_held s"] b \<open>unat b \<le> unat c\<close>
    by (auto simp: lim_inv_def hold_def store_used_def goto_def saturating_sub_def thread_ok_def)
qed

lemma settle_inv: "lim_inv n maxreq cfg s \<Longrightarrow> lim_inv n maxreq cfg (s\<lparr>lm_limiter := update_backpressure (lm_limiter s)\<rparr>)"
  by (auto simp: lim_inv_def update_backpressure_def Let_def)

lemma lim_step_inv:
  assumes "lim_step n maxreq s s'" "lim_inv n maxreq cfg s" "unat (dr_max_staging_bytes cfg) + maxreq < 2 ^ 64"
  shows "lim_inv n maxreq cfg s'"
  using assms(1)
proof cases
  case (reserve_swap t b c v)
  from reserve_swap_inv [OF assms(2,3) reserve_swap(2-5)] show ?thesis
    unfolding reserve_swap(1) by (rule lim_inv_goto) (simp add: thread_ok_def)
next
  case (release_swap t b c)
  then show ?thesis
    using release_swap_inv [OF assms(2)] by simp
next
  case (settle t)
  from settle_inv [OF assms(2)] show ?thesis
    unfolding settle(1) by (rule lim_inv_goto) (simp add: thread_ok_def)
next
  case (reserve_retry t b c v)
  then have "thread_ok maxreq (Reserving b c) (lm_held s t) (lm_limit s)"
    using assms(2) by (auto simp: lim_inv_def)
  then show ?thesis
    unfolding reserve_retry(1) using assms(2) by (intro lim_inv_goto) (auto simp: thread_ok_def lim_inv_def)
next
  case (release_retry t b c)
  then have "thread_ok maxreq (Releasing b c) (lm_held s t) (lm_limit s)"
    using assms(2) by (auto simp: lim_inv_def)
  then show ?thesis
    unfolding release_retry(1) using assms(2) by (intro lim_inv_goto) (auto simp: thread_ok_def)
next
  case (reserve_load t b)
  then show ?thesis
    using assms(2) by (auto intro!: lim_inv_goto simp: thread_ok_def) (auto simp: lim_inv_def)
qed (use assms(2) in \<open>auto intro!: lim_inv_goto simp: thread_ok_def\<close>)

lemma lim_reachable_inv:
  assumes "lim_reachable n maxreq cfg s" "unat (dr_max_staging_bytes cfg) + maxreq < 2 ^ 64"
  shows "lim_inv n maxreq cfg s"
  using assms(1)
proof induction
  case (lim_start rl)
  then show ?case
    by (auto simp: lim_inv_def thread_ok_def ResourceLimiter_new_def split: sum.splits)
next
  case (lim_next s s')
  then show ?case
    using lim_step_inv assms(2) by blast
qed

text \<open>
  A request close to the word size wraps the sum and passes the check, and the counter
  forgets what is in use.
\<close>

lemma reserve_memory_wraps:
  assumes "rl_used_staging_bytes rl = 1"
  shows "fst (reserve_memory (- 1) rl) = Ok ()" "rl_used_staging_bytes (snd (reserve_memory (- 1) rl)) = 0"
  using assms by (simp_all add: reserve_memory_def reserve_check_def update_backpressure_def Let_def)

text \<open>A NaN watermark passes the validation, and then back-pressure never starts.\<close>

lemma validate_accepts_nan:
  "validate \<lparr>dr_max_staging_bytes = 1, dr_high_watermark_pct = NaN, dr_low_watermark_pct = NaN,
     dr_max_active_descriptors = 1\<rparr> = Ok ()"
  by (simp add: validate_def f64_gt_def)

section \<open>Properties\<close>

text \<open>
  C4: reservations are exact under concurrency.  Any number of threads reserve and
  release staging memory through interleaved compare-and-swap loops with spurious
  failures.  If no request can wrap the sum with the limit, the counter always equals the
  total the threads hold and never exceeds the configured limit.
\<close>

theorem limiter_concurrent_exact:
  assumes "lim_reachable n maxreq cfg s" "unat (dr_max_staging_bytes cfg) + maxreq < 2 ^ 64"
  shows "unat (rl_used_staging_bytes (lm_limiter s)) = (\<Sum>t < n. lm_held s t) \<and>
    rl_used_staging_bytes (lm_limiter s) \<le> dr_max_staging_bytes cfg"
  using lim_reachable_inv [OF assms] by (auto simp: lim_inv_def)

theorem limiter_concurrent_exact_witness:
  "\<exists>s. lim_reachable 2 1000 ResourceConfig_default s \<and> lm_held s 0 = 100 \<and>
     unat (rl_used_staging_bytes (lm_limiter s)) = (\<Sum>t < 2. lm_held s t)"
proof -
  have v: "validate ResourceConfig_default = Ok ()"
    by code_simp
  then obtain rl where rl: "ResourceLimiter_new ResourceConfig_default = Ok rl" "rl_used_staging_bytes rl = 0"
    "rl_config rl = ResourceConfig_default"
    by (simp add: ResourceLimiter_new_def)
  let ?s0 = "\<lparr>lm_limiter = rl, lm_thread = \<lambda>_. LimIdle, lm_held = \<lambda>_. 0\<rparr>"
  let ?s1 = "goto 0 (Reserving 100 (lm_used ?s0)) ?s0"
  have r: "lim_reachable 2 1000 ResourceConfig_default ?s1"
    by (rule lim_next [OF lim_start [OF rl(1)]], rule reserve_load) simp_all
  let ?s = "goto 0 Settling (hold 0 (lm_held ?s1 0 + unat (100 :: u64)) (store_used 100 ?s1))"
  have "reserve_check (lm_limit ?s1) 0 100 = Ok 100"
    by (simp add: goto_def rl(3) reserve_check_def ResourceConfig_default_def)
  then have reach: "lim_reachable 2 1000 ResourceConfig_default ?s"
    by (intro lim_next [OF r] reserve_swap [where c = 0]) (simp_all add: goto_def rl(2))
  have held: "lm_held ?s 0 = 100"
    by (simp add: goto_def hold_def store_used_def)
  have "unat (rl_used_staging_bytes (lm_limiter ?s)) = (\<Sum>t < 2. lm_held ?s t)"
    using limiter_concurrent_exact [OF reach] by (simp add: ResourceConfig_default_def)
  with reach held show ?thesis
    by blast
qed

end
