(* ===== verification/Lock_Spec.thy ===== *)
theory Lock_Spec
  imports Prelude
begin

text \<open>
  The contract of the two lock tables, the one of the control plane and the one of the
  eBPF controller: who holds a resource, which requests succeed, and what a successful
  request changes.  Mutual exclusion over arbitrary sequences of requests is proved from
  the contract alone.
\<close>

datatype LockOp = Acquire u64 u32 | Release u64 u32

locale lock_table =
  fixes invar :: "'s \<Rightarrow> bool"
    and holder :: "'s \<Rightarrow> u64 \<Rightarrow> u32 option"
    and acq :: "u64 \<Rightarrow> u32 \<Rightarrow> 's \<Rightarrow> bool \<times> 's"
    and rel :: "u64 \<Rightarrow> u32 \<Rightarrow> 's \<Rightarrow> bool \<times> 's"
  assumes acq_invar: "invar s \<Longrightarrow> invar (snd (acq r p s))"
    and rel_invar: "invar s \<Longrightarrow> invar (snd (rel r p s))"
    and acq_ok: "invar s \<Longrightarrow> fst (acq r p s) \<longleftrightarrow> holder s r = None \<or> holder s r = Some p"
    and acq_holder: "invar s \<Longrightarrow> holder (snd (acq r p s)) =
          (if fst (acq r p s) then (holder s)(r \<mapsto> p) else holder s)"
    and rel_ok: "invar s \<Longrightarrow> fst (rel r p s) \<longleftrightarrow> holder s r = Some p"
    and rel_frame: "invar s \<Longrightarrow> q \<noteq> r \<or> \<not> fst (rel r p s) \<Longrightarrow> holder (snd (rel r p s)) q = holder s q"
    and rel_gone: "invar s \<Longrightarrow> holder (snd (rel r p s)) r \<noteq> Some p"
begin

fun lock_step :: "LockOp \<Rightarrow> 's \<Rightarrow> bool \<times> 's" where
  "lock_step (Acquire r p) s = acq r p s"
| "lock_step (Release r p) s = rel r p s"

definition lock_run :: "LockOp list \<Rightarrow> 's \<Rightarrow> bool list \<times> 's" where
  "lock_run = map_state lock_step"

lemma step_invar: "invar s \<Longrightarrow> invar (snd (lock_step x s))"
  by (cases x) (simp_all add: acq_invar rel_invar)

lemma run_invar: "invar s \<Longrightarrow> invar (snd (lock_run ops s))"
  unfolding lock_run_def by (rule map_state_invariant) (rule step_invar)

lemma step_keeps_holder:
  assumes "invar s" "holder s r = Some p" "x \<noteq> Release r p"
  shows "holder (snd (lock_step x s)) r = Some p"
proof (cases x)
  case (Acquire q c)
  then show ?thesis
    using assms acq_holder [OF assms(1), of q c] acq_ok [OF assms(1), of q c] by auto
next
  case (Release q c)
  then have "r \<noteq> q \<or> \<not> fst (rel q c s)"
    using assms rel_ok [OF assms(1), of q c] by auto
  with Release assms rel_frame show ?thesis
    by simp
qed

lemma run_keeps_holder:
  assumes "invar s" "holder s r = Some p" "Release r p \<notin> set ops"
  shows "holder (snd (lock_run ops s)) r = Some p"
  using assms
proof (induction ops arbitrary: s)
  case (Cons x ops)
  have "holder (snd (lock_step x s)) r = Some p"
    using Cons.prems by (intro step_keeps_holder) auto
  with Cons.IH [OF step_invar [OF Cons.prems(1), of x]] Cons.prems(3) show ?case
    by (simp add: lock_run_def)
qed (simp add: lock_run_def)

lemma mutual_exclusion:
  assumes "invar s" "fst (acq r p s)" "Release r p \<notin> set ops" "q \<noteq> p"
  shows "\<not> fst (acq r q (snd (lock_run ops (snd (acq r p s)))))"
proof -
  let ?s = "snd (lock_run ops (snd (acq r p s)))"
  have "holder (snd (acq r p s)) r = Some p"
    using acq_holder [OF assms(1)] assms(2) by simp
  then have "holder ?s r = Some p" "invar ?s"
    using run_keeps_holder [OF acq_invar [OF assms(1)] _ assms(3)] run_invar [OF acq_invar [OF assms(1)]] by simp_all
  with acq_ok [of ?s r q] assms(4) show ?thesis
    by simp
qed

lemma release_then_release_fails:
  assumes "invar s"
  shows "\<not> fst (rel r p (snd (rel r p s)))"
  using rel_ok [OF rel_invar [OF assms]] rel_gone [OF assms] by simp

end

end
