(* ===== verification/Control_Plane.thy ===== *)
theory Control_Plane
  imports Domain Lock_Spec
begin

text \<open>
  The control plane of the shared-memory engine, from
  \<open>src/klnk/klnk-core/src/control_plane.rs\<close>: region registration with one page entry per
  coherence unit, page coherence and reader lists, opaque metadata, remote endpoints and
  the queueing lock table.  The concurrent maps are HOL maps and every method is one
  atomic step, which is what the shard and entry locks of the source give a single call.
  The page loops add the page size with wrap-around; they are partial functions, with
  \<open>None\<close> the value of a loop that does not end.
\<close>

section \<open>State\<close>

datatype ControlPlaneError =
    RegionAlreadyExists GlobalRegionId
  | RegionNotFound GlobalRegionId
  | AddressNotMapped GlobalRegionId u64
  | LockConflict u64 u32
  | LockNotHeld u64 u32

record LockState =
  ls_resource_id :: u64
  ls_current_owner_pid :: "u32 option"
  ls_waiting_pids :: "u32 list"

record 'addr ControlPlaneManager =
  cp_local_node_id :: NodeId
  cp_regions :: "GlobalRegionId \<rightharpoonup> MemoryRegionDescriptor"
  cp_page_states :: "u64 \<rightharpoonup> DistributedPageEntry"
  cp_remote_nodes :: "NodeId \<rightharpoonup> 'addr RemoteEndpointInfo"
  cp_locks :: "u64 \<rightharpoonup> LockState"

type_synonym 'addr cp = "'addr ControlPlaneManager"

definition ControlPlane_new :: "NodeId \<Rightarrow> 'addr cp" where
  "ControlPlane_new n =
    \<lparr>cp_local_node_id = n, cp_regions = Map.empty, cp_page_states = Map.empty,
     cp_remote_nodes = Map.empty, cp_locks = Map.empty\<rparr>"

section \<open>Regions\<close>

partial_function (option) register_pages ::
    "u64 \<Rightarrow> u64 \<Rightarrow> u64 \<Rightarrow> NodeId \<Rightarrow> u8 list \<Rightarrow> (u64 \<rightharpoonup> DistributedPageEntry) \<Rightarrow>
     (u64 \<rightharpoonup> DistributedPageEntry) option" where
  "register_pages curr_addr end_addr page_size owner md pages =
    (if curr_addr < end_addr
     then register_pages (curr_addr + page_size) end_addr page_size owner md
            (pages(curr_addr \<mapsto> PageEntry_new_with_metadata curr_addr page_size owner md))
     else Some pages)"

definition coherence_unit :: "MemoryRegionDescriptor \<Rightarrow> u64" where
  "coherence_unit d = max (rd_staging_page_size d) 4096"

definition register_region_with_metadata ::
    "MemoryRegionDescriptor \<Rightarrow> u8 list \<Rightarrow> 'addr cp \<Rightarrow>
     ((ControlPlaneError, unit) result \<times> 'addr cp) option" where
  "register_region_with_metadata d md cp =
    (if cp_regions cp (rd_region_id d) \<noteq> None
     then Some (Err (RegionAlreadyExists (rd_region_id d)), cp)
     else
       case register_pages (rd_main_vaddr d) (rd_main_vaddr d + rd_region_size d) (coherence_unit d)
              (cp_local_node_id cp) md (cp_page_states cp) of
         None \<Rightarrow> None
       | Some pages \<Rightarrow>
           Some (Ok (), cp\<lparr>cp_page_states := pages, cp_regions := (cp_regions cp)(rd_region_id d \<mapsto> d)\<rparr>))"

definition register_region ::
    "MemoryRegionDescriptor \<Rightarrow> 'addr cp \<Rightarrow> ((ControlPlaneError, unit) result \<times> 'addr cp) option" where
  "register_region d = register_region_with_metadata d []"

partial_function (option) deregister_pages ::
    "u64 \<Rightarrow> u64 \<Rightarrow> u64 \<Rightarrow> (u64 \<rightharpoonup> DistributedPageEntry) \<Rightarrow> (u64 \<rightharpoonup> DistributedPageEntry) option" where
  "deregister_pages curr_addr end_addr page_size pages =
    (if curr_addr < end_addr
     then deregister_pages (curr_addr + page_size) end_addr page_size (pages(curr_addr := None))
     else Some pages)"

definition deregister_region ::
    "GlobalRegionId \<Rightarrow> 'addr cp \<Rightarrow> ((ControlPlaneError, unit) result \<times> 'addr cp) option" where
  "deregister_region rid cp =
    (case cp_regions cp rid of
       Some d \<Rightarrow>
         (case deregister_pages (rd_main_vaddr d) (rd_main_vaddr d + rd_region_size d) (coherence_unit d)
                 (cp_page_states cp) of
            None \<Rightarrow> None
          | Some pages \<Rightarrow> Some (Ok (), cp\<lparr>cp_regions := (cp_regions cp)(rid := None), cp_page_states := pages\<rparr>))
     | None \<Rightarrow> Some (Err (RegionNotFound rid), cp))"

definition get_region :: "GlobalRegionId \<Rightarrow> 'addr cp \<Rightarrow> (ControlPlaneError, MemoryRegionDescriptor) result" where
  "get_region rid cp = (case cp_regions cp rid of Some d \<Rightarrow> Ok d | None \<Rightarrow> Err (RegionNotFound rid))"

section \<open>Page coherence\<close>

text \<open>The \<open>get_mut\<close> / \<open>make_mut\<close> pattern of the page operations.\<close>

definition modify_page ::
    "u64 \<Rightarrow> (DistributedPageEntry \<Rightarrow> DistributedPageEntry) \<Rightarrow> 'addr cp \<Rightarrow> bool \<times> 'addr cp" where
  "modify_page vaddr f cp =
    (case cp_page_states cp vaddr of
       Some entry \<Rightarrow> (True, cp\<lparr>cp_page_states := (cp_page_states cp)(vaddr \<mapsto> f entry)\<rparr>)
     | None \<Rightarrow> (False, cp))"

definition update_page_state ::
    "u64 \<Rightarrow> PageCoherenceState \<Rightarrow> NodeId \<Rightarrow> 'addr cp \<Rightarrow> bool \<times> 'addr cp" where
  "update_page_state vaddr new_state owner =
    modify_page vaddr (\<lambda>entry.
      let entry = entry\<lparr>pe_coherence_state := new_state, pe_primary_owner := owner\<rparr>
      in if new_state = ExclusiveWrite
         then entry\<lparr>pe_version := pe_version entry + 1, pe_replica_holders := []\<rparr>
         else entry)"

definition update_page_states_batch ::
    "(u64 \<times> PageCoherenceState \<times> NodeId) list \<Rightarrow> 'addr cp \<Rightarrow> bool list \<times> 'addr cp" where
  "update_page_states_batch = map_state (\<lambda>(vaddr, st, owner). update_page_state vaddr st owner)"

definition add_reader :: "u64 \<Rightarrow> NodeId \<Rightarrow> 'addr cp \<Rightarrow> bool \<times> 'addr cp" where
  "add_reader vaddr reader =
    modify_page vaddr (\<lambda>entry.
      if reader \<in> set (pe_replica_holders entry) then entry
      else entry\<lparr>pe_replica_holders := pe_replica_holders entry @ [reader]\<rparr>)"

definition add_readers_batch :: "(u64 \<times> NodeId) list \<Rightarrow> 'addr cp \<Rightarrow> bool list \<times> 'addr cp" where
  "add_readers_batch = map_state (\<lambda>(vaddr, reader). add_reader vaddr reader)"

definition remove_reader :: "u64 \<Rightarrow> NodeId \<Rightarrow> 'addr cp \<Rightarrow> bool \<times> 'addr cp" where
  "remove_reader vaddr reader =
    modify_page vaddr (\<lambda>entry.
      entry\<lparr>pe_replica_holders := filter (\<lambda>n. n \<noteq> reader) (pe_replica_holders entry)\<rparr>)"

definition remove_readers_batch :: "(u64 \<times> NodeId) list \<Rightarrow> 'addr cp \<Rightarrow> bool list \<times> 'addr cp" where
  "remove_readers_batch = map_state (\<lambda>(vaddr, reader). remove_reader vaddr reader)"

definition get_readers :: "u64 \<Rightarrow> 'addr cp \<Rightarrow> NodeId list option" where
  "get_readers vaddr cp = map_option pe_replica_holders (cp_page_states cp vaddr)"

definition lookup_page_state :: "u64 \<Rightarrow> 'addr cp \<Rightarrow> DistributedPageEntry option" where
  "lookup_page_state vaddr cp = cp_page_states cp vaddr"

definition get_page_version :: "u64 \<Rightarrow> 'addr cp \<Rightarrow> u64 option" where
  "get_page_version vaddr cp = map_option pe_version (cp_page_states cp vaddr)"

text \<open>The iteration order of the concurrent map is unspecified: the snapshot is a set.\<close>

definition get_all_page_states :: "'addr cp \<Rightarrow> DistributedPageEntry set" where
  "get_all_page_states cp = ran (cp_page_states cp)"

definition set_page_metadata :: "u64 \<Rightarrow> u8 list \<Rightarrow> 'addr cp \<Rightarrow> bool \<times> 'addr cp" where
  "set_page_metadata vaddr md = modify_page vaddr (\<lambda>entry. entry\<lparr>pe_metadata := md\<rparr>)"

definition get_page_metadata :: "u64 \<Rightarrow> 'addr cp \<Rightarrow> u8 list option" where
  "get_page_metadata vaddr cp = map_option pe_metadata (cp_page_states cp vaddr)"

section \<open>Remote nodes\<close>

definition register_remote_node :: "'addr RemoteEndpointInfo \<Rightarrow> 'addr cp \<Rightarrow> 'addr cp" where
  "register_remote_node i cp = cp\<lparr>cp_remote_nodes := (cp_remote_nodes cp)(re_node_id i \<mapsto> i)\<rparr>"

definition remove_remote_node :: "NodeId \<Rightarrow> 'addr cp \<Rightarrow> 'addr cp" where
  "remove_remote_node n cp = cp\<lparr>cp_remote_nodes := (cp_remote_nodes cp)(n := None)\<rparr>"

definition get_remote_node :: "NodeId \<Rightarrow> 'addr cp \<Rightarrow> 'addr RemoteEndpointInfo option" where
  "get_remote_node n cp = cp_remote_nodes cp n"

definition get_all_remote_nodes :: "'addr cp \<Rightarrow> 'addr RemoteEndpointInfo set" where
  "get_all_remote_nodes cp = ran (cp_remote_nodes cp)"

section \<open>Locks\<close>

definition lock_entry :: "u64 \<Rightarrow> 'addr cp \<Rightarrow> LockState" where
  "lock_entry r cp =
    (case cp_locks cp r of
       Some ls \<Rightarrow> ls
     | None \<Rightarrow> \<lparr>ls_resource_id = r, ls_current_owner_pid = None, ls_waiting_pids = []\<rparr>)"

definition acquire_lock :: "u64 \<Rightarrow> u32 \<Rightarrow> 'addr cp \<Rightarrow> (ControlPlaneError, unit) result \<times> 'addr cp" where
  "acquire_lock r pid cp =
    (let ls = lock_entry r cp; store = (\<lambda>ls. cp\<lparr>cp_locks := (cp_locks cp)(r \<mapsto> ls)\<rparr>)
     in case ls_current_owner_pid ls of
          None \<Rightarrow> (Ok (), store (ls\<lparr>ls_current_owner_pid := Some pid\<rparr>))
        | Some owner \<Rightarrow>
            if owner = pid then (Ok (), store ls)
            else
              (Err (LockConflict r pid),
               store (if pid \<in> set (ls_waiting_pids ls) then ls
                      else ls\<lparr>ls_waiting_pids := ls_waiting_pids ls @ [pid]\<rparr>)))"

definition release_lock :: "u64 \<Rightarrow> u32 \<Rightarrow> 'addr cp \<Rightarrow> (ControlPlaneError, unit) result \<times> 'addr cp" where
  "release_lock r pid cp =
    (case cp_locks cp r of
       Some ls \<Rightarrow>
         if ls_current_owner_pid ls = Some pid
         then (Ok (), cp\<lparr>cp_locks := (cp_locks cp)(r \<mapsto>
                 (case ls_waiting_pids ls of
                    next_owner # rest \<Rightarrow> ls\<lparr>ls_waiting_pids := rest, ls_current_owner_pid := Some next_owner\<rparr>
                  | [] \<Rightarrow> ls\<lparr>ls_current_owner_pid := None\<rparr>))\<rparr>)
         else (Err (LockNotHeld r pid), cp)
     | None \<Rightarrow> (Err (LockNotHeld r pid), cp))"

section \<open>The page grid of a region\<close>

definition page_grid :: "u64 \<Rightarrow> u64 \<Rightarrow> u64 \<Rightarrow> u64 set" where
  "page_grid a e ps = {v. a \<le> v \<and> v < e \<and> unat ps dvd unat v - unat a}"

lemma page_grid_empty: "\<not> a < e \<Longrightarrow> page_grid a e ps = {}"
  by (auto simp: page_grid_def)

lemma unat_next_page:
  fixes a e ps :: u64
  assumes "a < e" "unat e + unat ps \<le> 2 ^ 64"
  shows "unat (a + ps) = unat a + unat ps"
  using assms by (simp add: unat_word_ariths word_less_nat_alt)

lemma dvd_diff_shift:
  assumes "a < v"
  shows "(p::nat) dvd v - a \<longleftrightarrow> a + p \<le> v \<and> p dvd v - (a + p)"
  using assms dvd_imp_le [of p "v - a"] dvd_minus_self [of p "v - a"] by (auto simp: diff_diff_left)

lemma page_grid_step:
  assumes "a < e" "unat e + unat ps \<le> 2 ^ 64" "ps \<noteq> 0"
  shows "page_grid a e ps = insert a (page_grid (a + ps) e ps)"
proof -
  note [simp] = unat_next_page [OF assms(1,2)]
  have "v \<in> page_grid a e ps \<longleftrightarrow> v = a \<or> v \<in> page_grid (a + ps) e ps" for v
  proof (cases "a \<le> v \<and> v \<noteq> a")
    case True
    then have lt: "unat a < unat v"
      by (simp add: word_le_nat_alt word_unat_eq_iff)
    with True dvd_diff_shift [OF lt, of "unat ps"] show ?thesis
      by (auto simp: page_grid_def word_le_nat_alt)
  next
    case False
    have "a < a + ps"
      using assms(3) by (simp add: word_less_nat_alt unat_gt_0)
    with False assms(1) show ?thesis
      by (auto simp: page_grid_def)
  qed
  then show ?thesis
    by auto
qed

lemma register_pages_grid:
  assumes "unat e + unat ps \<le> 2 ^ 64" "ps \<noteq> 0"
  shows "register_pages a e ps owner md pages =
    Some (\<lambda>v. if v \<in> page_grid a e ps then Some (PageEntry_new_with_metadata v ps owner md) else pages v)"
proof (induction "unat e - unat a" arbitrary: a pages rule: less_induct)
  case less
  show ?case
  proof (cases "a < e")
    case True
    have "unat e - unat (a + ps) < unat e - unat a"
      using True assms(2) unat_next_page [OF True assms(1)] unat_gt_0 [of ps]
      unfolding word_less_nat_alt by linarith
    from less [OF this] True show ?thesis
      by (subst register_pages.simps) (auto simp: page_grid_step [OF True assms] fun_eq_iff)
  next
    case False
    then show ?thesis
      by (subst register_pages.simps) (simp add: page_grid_empty)
  qed
qed

lemma deregister_pages_grid:
  assumes "unat e + unat ps \<le> 2 ^ 64" "ps \<noteq> 0"
  shows "deregister_pages a e ps pages = Some (pages |` (- page_grid a e ps))"
proof (induction "unat e - unat a" arbitrary: a pages rule: less_induct)
  case less
  show ?case
  proof (cases "a < e")
    case True
    have "unat e - unat (a + ps) < unat e - unat a"
      using True assms(2) unat_next_page [OF True assms(1)] unat_gt_0 [of ps]
      unfolding word_less_nat_alt by linarith
    from less [OF this] True show ?thesis
      by (subst deregister_pages.simps)
        (auto simp: page_grid_step [OF True assms] restrict_map_def fun_eq_iff)
  next
    case False
    then show ?thesis
      by (subst deregister_pages.simps) (simp add: page_grid_empty restrict_map_def)
  qed
qed

text \<open>With a unit that divides the address space the loop never leaves a region that ends in the last unit.\<close>

lemma aligned_next:
  assumes "unat ps dvd 2 ^ 64" "unat ps dvd unat (a :: u64)"
  shows "unat ps dvd unat (a + ps)"
  using assms by (simp add: unat_word_ariths dvd_mod)

lemma aligned_below:
  assumes "unat ps dvd 2 ^ 64" "unat ps dvd unat (a :: u64)"
  shows "unat a + unat ps \<le> 2 ^ 64"
proof -
  obtain q r where "(2::nat) ^ 64 = unat ps * q" "unat a = unat ps * r"
    using assms unfolding dvd_def by blast
  moreover have "unat a < 2 ^ 64"
    using unsigned_less [of a, where ?'a = nat] by simp
  ultimately have "unat ps * r < unat ps * q" "unat a + unat ps = unat ps * (r + 1)"
    by simp_all
  then have "r < q" "unat a + unat ps = unat ps * (r + 1)"
    by simp_all
  with \<open>2 ^ 64 = unat ps * q\<close> show ?thesis
    by (metis Suc_eq_plus1 Suc_leI mult_le_mono2)
qed

lemma register_pages_diverges:
  assumes "unat ps dvd 2 ^ 64" "2 ^ 64 < unat e + unat ps" "unat ps dvd unat a"
  shows "register_pages a e ps owner md pages = None"
proof (rule ccontr)
  assume "register_pages a e ps owner md pages \<noteq> None"
  then obtain y where "register_pages a e ps owner md pages = Some y"
    by blast
  then show False
    using assms
  proof (induction rule: register_pages.raw_induct [rotated 1, consumes 1])
    case (1 f a e ps owner md pages y)
    have "a < e"
      using aligned_below [OF "1.prems"(1,3)] "1.prems"(2) by (simp add: word_less_nat_alt)
    with 1 aligned_next [OF "1.prems"(1,3)] show ?case
      by (simp split: if_splits)
  qed
qed
definition region_grid :: "MemoryRegionDescriptor \<Rightarrow> u64 set" where
  "region_grid d = page_grid (rd_main_vaddr d) (rd_main_vaddr d + rd_region_size d) (coherence_unit d)"

definition region_room :: "MemoryRegionDescriptor \<Rightarrow> bool" where
  "region_room d \<longleftrightarrow> unat (rd_main_vaddr d) + unat (rd_region_size d) + unat (coherence_unit d) \<le> 2 ^ 64"

lemma coherence_unit_nonzero [simp]: "coherence_unit d \<noteq> 0"
  by (auto simp: coherence_unit_def max_def)

lemma region_room_end:
  assumes "region_room d"
  shows "unat (rd_main_vaddr d + rd_region_size d) + unat (coherence_unit d) \<le> 2 ^ 64"
proof -
  have "0 < unat (coherence_unit d)"
    by (simp add: unat_gt_0)
  with assms show ?thesis
    by (simp add: region_room_def unat_word_ariths)
qed

lemma register_region_result:
  assumes "cp_regions cp (rd_region_id d) = None" "region_room d"
  shows "register_region_with_metadata d md cp = Some (Ok (), cp\<lparr>
      cp_page_states := (\<lambda>v. if v \<in> region_grid d
        then Some (PageEntry_new_with_metadata v (coherence_unit d) (cp_local_node_id cp) md)
        else cp_page_states cp v),
      cp_regions := (cp_regions cp)(rd_region_id d \<mapsto> d)\<rparr>)"
  using assms(1) register_pages_grid [OF region_room_end [OF assms(2)]]
  by (simp add: register_region_with_metadata_def region_grid_def)

lemma deregister_region_result:
  assumes "cp_regions cp rid = Some d" "region_room d"
  shows "deregister_region rid cp = Some (Ok (), cp\<lparr>
      cp_regions := (cp_regions cp)(rid := None), cp_page_states := cp_page_states cp |` (- region_grid d)\<rparr>)"
  using assms(1) deregister_pages_grid [OF region_room_end [OF assms(2)]]
  by (simp add: deregister_region_def region_grid_def)

text \<open>
  Page entries are keyed by address alone.  When two processes register regions at the
  same address, the second registration replaces the entries of the first, and removing
  either one takes the entries of both away.
\<close>

lemma same_address_regions_collide:
  assumes "region_room d" "v \<in> region_grid d" "rid \<noteq> rd_region_id d"
    and "cp_regions cp (rd_region_id d) = Some d" "cp_regions cp rid = None"
    and "register_region (d\<lparr>rd_region_id := rid\<rparr>) cp = Some (r, cp1)"
    and "deregister_region rid cp1 = Some (r', cp2)"
  shows "get_page_version v cp1 = Some 0" "lookup_page_state v cp2 = None" "get_region (rd_region_id d) cp2 = Ok d"
proof -
  let ?d = "d\<lparr>rd_region_id := rid\<rparr>"
  have same: "region_room ?d" "region_grid ?d = region_grid d" "coherence_unit ?d = coherence_unit d"
    using assms(1) by (simp_all add: region_room_def region_grid_def coherence_unit_def)
  have cp1: "cp1 = cp\<lparr>cp_page_states := (\<lambda>v. if v \<in> region_grid d
        then Some (PageEntry_new_with_metadata v (coherence_unit d) (cp_local_node_id cp) [])
        else cp_page_states cp v), cp_regions := (cp_regions cp)(rid \<mapsto> ?d)\<rparr>"
    using register_region_result [of cp ?d "[]", unfolded same(2,3)] same(1) assms(5,6) by (auto simp: register_region_def)
  have cp2: "cp2 = cp1\<lparr>cp_regions := (cp_regions cp1)(rid := None),
      cp_page_states := cp_page_states cp1 |` (- region_grid d)\<rparr>"
    using deregister_region_result [of cp1 rid ?d] same assms(7) by (auto simp: cp1)
  show "get_page_version v cp1 = Some 0"
    using assms(2) by (simp add: cp1 get_page_version_def PageEntry_new_with_metadata_def)
  show "lookup_page_state v cp2 = None"
    using assms(2) by (simp add: cp2 lookup_page_state_def)
  show "get_region (rd_region_id d) cp2 = Ok d"
    using assms(3,4) by (simp add: cp2 cp1 get_region_def)
qed

section \<open>Page traces\<close>

datatype PageOp =
    UpdateState u64 PageCoherenceState NodeId
  | AddReader u64 NodeId
  | RemoveReader u64 NodeId
  | SetMetadata u64 "u8 list"

fun page_step :: "PageOp \<Rightarrow> 'addr cp \<Rightarrow> bool \<times> 'addr cp" where
  "page_step (UpdateState v st owner) = update_page_state v st owner"
| "page_step (AddReader v n) = add_reader v n"
| "page_step (RemoveReader v n) = remove_reader v n"
| "page_step (SetMetadata v md) = set_page_metadata v md"

fun op_addr :: "PageOp \<Rightarrow> u64" where
  "op_addr (UpdateState v st owner) = v"
| "op_addr (AddReader v n) = v"
| "op_addr (RemoveReader v n) = v"
| "op_addr (SetMetadata v md) = v"

fun is_write :: "PageOp \<Rightarrow> bool" where
  "is_write (UpdateState v st owner) = (st = ExclusiveWrite)"
| "is_write _ = False"

text \<open>The set of readers a page should have after one operation on it.\<close>

fun readers_after :: "PageOp \<Rightarrow> NodeId set \<Rightarrow> NodeId set" where
  "readers_after (UpdateState v st owner) R = (if st = ExclusiveWrite then {} else R)"
| "readers_after (AddReader v n) R = insert n R"
| "readers_after (RemoveReader v n) R = R - {n}"
| "readers_after (SetMetadata v md) R = R"

lemmas page_op_defs = update_page_state_def add_reader_def remove_reader_def set_page_metadata_def
  modify_page_def Let_def

lemma page_step_other:
  "op_addr x \<noteq> v \<Longrightarrow> cp_page_states (snd (page_step x cp)) v = cp_page_states cp v"
  by (cases x) (auto simp: page_op_defs split: option.splits)

lemma page_step_same:
  assumes "op_addr x = v" "cp_page_states cp v = Some e" "distinct (pe_replica_holders e)"
  obtains e' where "cp_page_states (snd (page_step x cp)) v = Some e'" "distinct (pe_replica_holders e')"
    "set (pe_replica_holders e') = readers_after x (set (pe_replica_holders e))"
    "pe_version e' = pe_version e + (if is_write x then 1 else 0)"
    "pe_page_vaddr e' = pe_page_vaddr e" "pe_page_size e' = pe_page_size e"
proof (cases x)
  case (AddReader u n)
  with assms show ?thesis
    by (cases "n \<in> set (pe_replica_holders e)") (auto simp: page_op_defs intro!: that)
next
  case (UpdateState u st owner)
  with assms show ?thesis
    by (cases "st = ExclusiveWrite") (auto simp: page_op_defs intro!: that)
qed (use assms in \<open>auto simp: page_op_defs intro!: that\<close>)

lemma page_run:
  assumes "cp_page_states cp v = Some e" "distinct (pe_replica_holders e)"
  shows "\<exists>e'. cp_page_states (snd (map_state page_step ops cp)) v = Some e' \<and>
    distinct (pe_replica_holders e') \<and>
    set (pe_replica_holders e') = fold readers_after (filter (\<lambda>x. op_addr x = v) ops) (set (pe_replica_holders e)) \<and>
    pe_version e' = pe_version e + of_nat (length (filter (\<lambda>x. op_addr x = v \<and> is_write x) ops)) \<and>
    pe_page_vaddr e' = pe_page_vaddr e \<and> pe_page_size e' = pe_page_size e"
  using assms
proof (induction ops arbitrary: cp e)
  case (Cons x ops)
  show ?case
  proof (cases "op_addr x = v")
    case True
    obtain e1 where e1: "cp_page_states (snd (page_step x cp)) v = Some e1" "distinct (pe_replica_holders e1)"
      "set (pe_replica_holders e1) = readers_after x (set (pe_replica_holders e))"
      "pe_version e1 = pe_version e + (if is_write x then 1 else 0)"
      "pe_page_vaddr e1 = pe_page_vaddr e" "pe_page_size e1 = pe_page_size e"
      using page_step_same [OF True Cons.prems] .
    from Cons.IH [OF e1(1,2)] True show ?thesis
      by (cases "is_write x") (simp_all add: e1(3-6) algebra_simps)
  next
    case False
    from Cons.IH [of "snd (page_step x cp)" e] False Cons.prems show ?thesis
      by (simp add: page_step_other)
  qed
qed simp

section \<open>The lock table\<close>

definition lock_ok :: "u64 \<Rightarrow> LockState \<Rightarrow> bool" where
  "lock_ok r ls \<longleftrightarrow> ls_resource_id ls = r \<and> distinct (ls_waiting_pids ls) \<and>
     (case ls_current_owner_pid ls of None \<Rightarrow> ls_waiting_pids ls = [] | Some p \<Rightarrow> p \<notin> set (ls_waiting_pids ls))"

definition cp_lock_inv :: "'addr cp \<Rightarrow> bool" where
  "cp_lock_inv cp \<longleftrightarrow> (\<forall>r ls. cp_locks cp r = Some ls \<longrightarrow> lock_ok r ls)"

definition cp_holder :: "'addr cp \<Rightarrow> u64 \<Rightarrow> u32 option" where
  "cp_holder cp r = ls_current_owner_pid (lock_entry r cp)"

definition cp_acquire :: "u64 \<Rightarrow> u32 \<Rightarrow> 'addr cp \<Rightarrow> bool \<times> 'addr cp" where
  "cp_acquire r p cp = (is_ok (fst (acquire_lock r p cp)), snd (acquire_lock r p cp))"

definition cp_release :: "u64 \<Rightarrow> u32 \<Rightarrow> 'addr cp \<Rightarrow> bool \<times> 'addr cp" where
  "cp_release r p cp = (is_ok (fst (release_lock r p cp)), snd (release_lock r p cp))"

lemma cp_lock_inv_entry: "cp_lock_inv cp \<Longrightarrow> lock_ok r (lock_entry r cp)"
  by (cases "cp_locks cp r") (auto simp: cp_lock_inv_def lock_entry_def lock_ok_def)

lemma cp_lock_inv_store:
  "cp_lock_inv cp \<Longrightarrow> lock_ok r ls \<Longrightarrow> cp_lock_inv (cp\<lparr>cp_locks := (cp_locks cp)(r \<mapsto> ls)\<rparr>)"
  by (auto simp: cp_lock_inv_def)

lemma lock_entry_store [simp]:
  "lock_entry q (cp\<lparr>cp_locks := (cp_locks cp)(r \<mapsto> ls)\<rparr>) = (if q = r then ls else lock_entry q cp)"
  by (simp add: lock_entry_def)

lemma cp_lock_inv_new: "cp_lock_inv (ControlPlane_new n)"
  by (simp add: cp_lock_inv_def ControlPlane_new_def)

lemma acquire_lock_inv: "cp_lock_inv cp \<Longrightarrow> cp_lock_inv (snd (acquire_lock r p cp))"
  using cp_lock_inv_entry [of cp r]
  by (auto simp: acquire_lock_def Let_def lock_ok_def split: option.splits intro!: cp_lock_inv_store)

lemma release_lock_inv: "cp_lock_inv cp \<Longrightarrow> cp_lock_inv (snd (release_lock r p cp))"
  using cp_lock_inv_entry [of cp r]
  by (auto simp: release_lock_def lock_entry_def lock_ok_def split: option.splits list.splits
      intro!: cp_lock_inv_store)

interpretation cplock: lock_table cp_lock_inv cp_holder cp_acquire cp_release
proof (unfold_locales, goal_cases)
  case (1 s r p) then show ?case by (simp add: cp_acquire_def acquire_lock_inv)
next
  case (2 s r p) then show ?case by (simp add: cp_release_def release_lock_inv)
next
  case (3 s r p) then show ?case
    by (auto simp: cp_acquire_def cp_holder_def acquire_lock_def Let_def split: option.splits)
next
  case (4 s r p) then show ?case
    by (auto simp: cp_acquire_def cp_holder_def acquire_lock_def Let_def fun_eq_iff split: option.splits)
next
  case (5 s r p) then show ?case
    by (auto simp: cp_release_def cp_holder_def release_lock_def lock_entry_def split: option.splits)
next
  case (6 s q r p) then show ?case
    by (auto simp: cp_release_def cp_holder_def release_lock_def split: option.splits if_splits)
next
  case (7 s r p) then show ?case
    using cp_lock_inv_entry [of s r]
    by (auto simp: cp_release_def cp_holder_def release_lock_def lock_entry_def lock_ok_def
        split: option.splits list.splits)
qed

fun cp_lock_step :: "LockOp \<Rightarrow> 'addr cp \<Rightarrow> (ControlPlaneError, unit) result \<times> 'addr cp" where
  "cp_lock_step (Acquire r p) cp = acquire_lock r p cp"
| "cp_lock_step (Release r p) cp = release_lock r p cp"

lemma cp_lock_run_state: "snd (cplock.lock_run ops cp) = snd (map_state cp_lock_step ops cp)"
proof (induction ops arbitrary: cp)
  case (Cons x ops)
  have "snd (cplock.lock_step x cp) = snd (cp_lock_step x cp)"
    by (cases x) (simp_all add: cp_acquire_def cp_release_def)
  with Cons show ?case
    by (simp add: cplock.lock_run_def)
qed (simp add: cplock.lock_run_def)

lemma acquire_queues:
  assumes "cp_locks cp r = Some \<lparr>ls_resource_id = r, ls_current_owner_pid = Some p, ls_waiting_pids = ws\<rparr>"
    and "distinct (p # ws @ qs)"
  shows "fst (map_state (acquire_lock r) qs cp) = map (\<lambda>q. Err (LockConflict r q)) qs \<and>
    cp_locks (snd (map_state (acquire_lock r) qs cp)) r =
      Some \<lparr>ls_resource_id = r, ls_current_owner_pid = Some p, ls_waiting_pids = ws @ qs\<rparr>"
  using assms
proof (induction qs arbitrary: cp ws)
  case (Cons q qs)
  let ?cp = "snd (acquire_lock r q cp)"
  have "fst (acquire_lock r q cp) = Err (LockConflict r q)"
    "cp_locks ?cp r = Some \<lparr>ls_resource_id = r, ls_current_owner_pid = Some p, ls_waiting_pids = ws @ [q]\<rparr>"
    using Cons.prems by (auto simp: acquire_lock_def lock_entry_def Let_def)
  with Cons.IH [of ?cp "ws @ [q]"] Cons.prems(2) show ?case
    by simp
qed simp

lemma release_hands_over:
  assumes "cp_locks cp r = Some \<lparr>ls_resource_id = r, ls_current_owner_pid = Some p, ls_waiting_pids = ws\<rparr>"
  shows "fst (map_state (release_lock r) (p # ws) cp) = replicate (Suc (length ws)) (Ok ()) \<and>
    cp_locks (snd (map_state (release_lock r) (p # ws) cp)) r =
      Some \<lparr>ls_resource_id = r, ls_current_owner_pid = None, ls_waiting_pids = []\<rparr>"
  using assms
proof (induction ws arbitrary: cp p)
  case (Cons q ws)
  let ?cp = "snd (release_lock r p cp)"
  have "fst (release_lock r p cp) = Ok ()"
    "cp_locks ?cp r = Some \<lparr>ls_resource_id = r, ls_current_owner_pid = Some q, ls_waiting_pids = ws\<rparr>"
    using Cons.prems by (auto simp: release_lock_def)
  with Cons.IH [of ?cp q] show ?case
    by simp
qed (simp add: release_lock_def)

section \<open>Properties\<close>


definition sample_region :: MemoryRegionDescriptor where
  "sample_region =
    \<lparr>rd_region_id = GlobalRegionId 7 0, rd_main_vaddr = 0x10000, rd_region_size = 0x3000, rd_staging_vaddr = 0,
     rd_staging_num_pages = 0, rd_staging_page_size = 4096, rd_prot_flags = MemoryProtectionFlags 3,
     rd_mem_flags = 0, rd_version = 0\<rparr>"


text \<open>
  C18: when registering a region ends.  For a region not registered yet whose base is
  aligned to its coherence unit, a power of two, and whose end is inside the address
  space, the registration loop returns if and only if the region leaves the last unit of
  the address space free; otherwise the address wraps around and the loop runs forever.
\<close>

theorem region_registration_terminates:
  assumes "cp_regions cp (rd_region_id d) = None" "coherence_unit d = 2 ^ k" "k < 64"
    and "2 ^ k dvd unat (rd_main_vaddr d)" "unat (rd_main_vaddr d) + unat (rd_region_size d) < 2 ^ 64"
  shows "register_region d cp \<noteq> None \<longleftrightarrow> unat (rd_main_vaddr d) + unat (rd_region_size d) \<le> 2 ^ 64 - 2 ^ k"
proof -
  have "unat (of_nat (2 ^ k) :: u64) = 2 ^ k"
    using power_strict_increasing [OF assms(3), of "2::nat"] by (simp only: unat_of_nat) simp
  then have ps: "unat (coherence_unit d) = 2 ^ k"
    using assms(2) by simp
  have k: "(2::nat) ^ k \<le> 2 ^ 64"
    using assms(3) by (intro power_increasing) simp_all
  show ?thesis
  proof (cases "unat (rd_main_vaddr d) + unat (rd_region_size d) \<le> 2 ^ 64 - 2 ^ k")
    case True
    then have "region_room d"
      using k by (simp add: region_room_def ps)
    with True register_region_result [OF assms(1)] show ?thesis
      by (simp add: register_region_def)
  next
    case False
    have "unat (rd_main_vaddr d + rd_region_size d) = unat (rd_main_vaddr d) + unat (rd_region_size d)"
      using assms(5) by (simp add: unat_word_ariths)
    moreover have "(2::nat) ^ k dvd 2 ^ 64"
      using assms(3) by (intro le_imp_power_dvd) simp
    ultimately have "register_pages (rd_main_vaddr d) (rd_main_vaddr d + rd_region_size d) (coherence_unit d)
        (cp_local_node_id cp) [] (cp_page_states cp) = None"
      using False assms(4) by (intro register_pages_diverges) (simp_all add: ps)
    with False assms(1) show ?thesis
      by (simp add: register_region_def register_region_with_metadata_def)
  qed
qed

definition top_region :: "u64 \<Rightarrow> MemoryRegionDescriptor" where
  "top_region sz = sample_region\<lparr>rd_main_vaddr := 0xFFFFFFFFFFFFE000, rd_region_size := sz, rd_staging_page_size := 4096\<rparr>"

theorem region_registration_terminates_witness:
  "register_region (top_region 0x1000) (ControlPlane_new (NodeId 1) :: unit cp) \<noteq> None \<and>
   register_region (top_region 0x1001) (ControlPlane_new (NodeId 1) :: unit cp) = None"
proof -
  have "coherence_unit (top_region sz) = 2 ^ 12" for sz
    by (simp add: coherence_unit_def top_region_def)
  from region_registration_terminates [OF _ this, of "ControlPlane_new (NodeId 1) :: unit cp" "0x1000"]
    region_registration_terminates [OF _ this, of "ControlPlane_new (NodeId 1) :: unit cp" "0x1001"] show ?thesis
    by (simp add: top_region_def ControlPlane_new_def del: not_None_eq)
qed

text \<open>
  C28: versions tell stale copies.  Over any sequence of fewer than \<open>2 ^ 64\<close> page
  operations, a page keeps its entry, its reader list stays free of duplicates and holds
  the readers added since the last exclusive write and not removed, and the version has
  changed exactly when some operation in between took the page for exclusive writing.
\<close>

theorem page_version_detects_writes:
  assumes "lookup_page_state v cp = Some e" "distinct (pe_replica_holders e)" "length ops < 2 ^ 64"
  shows "\<exists>e'. lookup_page_state v (snd (map_state page_step ops cp)) = Some e' \<and>
    (pe_version e' = pe_version e \<longleftrightarrow> (\<forall>owner. UpdateState v ExclusiveWrite owner \<notin> set ops)) \<and>
    distinct (pe_replica_holders e') \<and>
    set (pe_replica_holders e') = fold readers_after (filter (\<lambda>x. op_addr x = v) ops) (set (pe_replica_holders e))"
proof -
  let ?ws = "filter (\<lambda>x. op_addr x = v \<and> is_write x) ops"
  have "length ?ws < 2 ^ 64"
    using assms(3) le_less_trans length_filter_le by blast
  then have z: "(of_nat (length ?ws) :: u64) = 0 \<longleftrightarrow> ?ws = []"
    by (auto simp: word_unat_eq_iff unat_of_nat)
  have w: "op_addr x = v \<and> is_write x \<longleftrightarrow> (\<exists>owner. x = UpdateState v ExclusiveWrite owner)" for x
    by (cases x) auto
  have "?ws = [] \<longleftrightarrow> (\<forall>owner. UpdateState v ExclusiveWrite owner \<notin> set ops)"
    unfolding filter_empty_conv w by blast
  with z page_run [of cp v e ops] assms(1,2) show ?thesis
    by (auto simp: lookup_page_state_def)
qed

theorem page_version_detects_writes_witness:
  "\<exists>e cp. lookup_page_state 0 (cp :: unit cp) = Some e \<and>
     (\<exists>e'. lookup_page_state 0 (snd (map_state page_step
        [AddReader 0 (NodeId 2), UpdateState 0 ExclusiveWrite (NodeId 3), AddReader 0 (NodeId 4)] cp)) = Some e' \<and>
      pe_version e' \<noteq> pe_version e \<and> set (pe_replica_holders e') = {NodeId 4})"
proof -
  let ?e = "PageEntry_new 0 4096 (NodeId 1)"
  let ?cp = "(ControlPlane_new (NodeId 1) :: unit cp)\<lparr>cp_page_states := [0 \<mapsto> ?e]\<rparr>"
  have l: "lookup_page_state 0 ?cp = Some ?e"
    by (simp add: lookup_page_state_def)
  with page_version_detects_writes [OF l, of
      "[AddReader 0 (NodeId 2), UpdateState 0 ExclusiveWrite (NodeId 3), AddReader 0 (NodeId 4)]"]
  show ?thesis
    by (intro exI [of _ ?e] exI [of _ ?cp]) (auto simp: PageEntry_new_def)
qed

text \<open>
  C7: locks exclude each other.  Once a client has acquired a resource, no other client
  can acquire it after any sequence of further requests by anybody, as long as the owner
  does not release it.
\<close>

theorem lock_mutual_exclusion:
  assumes "cp_lock_inv cp" "fst (acquire_lock r p cp) = Ok ()" "Release r p \<notin> set ops" "q \<noteq> p"
  shows "fst (acquire_lock r q (snd (map_state cp_lock_step ops (snd (acquire_lock r p cp))))) = Err (LockConflict r q)"
proof -
  let ?cp = "snd (map_state cp_lock_step ops (snd (acquire_lock r p cp)))"
  have "\<not> fst (cp_acquire r q ?cp)"
    using cplock.mutual_exclusion [OF assms(1) _ assms(3,4)] assms(2)
    by (simp add: cp_acquire_def cp_lock_run_state)
  then show ?thesis
    by (auto simp: cp_acquire_def acquire_lock_def Let_def split: option.splits if_splits)
qed

theorem lock_mutual_exclusion_witness:
  "fst (acquire_lock 5 2 (snd (map_state cp_lock_step [Acquire 5 3, Release 5 3, Acquire 5 1]
     (snd (acquire_lock 5 1 (ControlPlane_new (NodeId 0) :: unit cp)))))) = Err (LockConflict 5 2)"
  using lock_mutual_exclusion [OF cp_lock_inv_new, of 5 1 "NodeId 0" "[Acquire 5 3, Release 5 3, Acquire 5 1]" 2]
  by (simp add: acquire_lock_def lock_entry_def ControlPlane_new_def Let_def del: map_state.simps)

text \<open>
  C20: locks are handed over first come, first served.  When \<open>p\<close> takes a free resource
  and distinct clients ask for it one after the other, each of them gets
  \<open>LockConflict\<close>; releases in exactly the order of the requests then all succeed, each
  releasing client having become the owner, and the resource ends up free.
\<close>

theorem lock_fifo_handover:
  assumes "cp_locks cp r = None" "distinct (p # qs)"
  shows "let cp1 = snd (acquire_lock r p cp); (res, cp2) = map_state (acquire_lock r) qs cp1;
             (rel, cp3) = map_state (release_lock r) (p # qs) cp2
         in fst (acquire_lock r p cp) = Ok () \<and> res = map (\<lambda>q. Err (LockConflict r q)) qs \<and>
            rel = replicate (Suc (length qs)) (Ok ()) \<and> cp_holder cp3 r = None"
proof -
  let ?cp1 = "snd (acquire_lock r p cp)"
  have a: "fst (acquire_lock r p cp) = Ok ()"
    "cp_locks ?cp1 r = Some \<lparr>ls_resource_id = r, ls_current_owner_pid = Some p, ls_waiting_pids = []\<rparr>"
    using assms(1) by (simp_all add: acquire_lock_def lock_entry_def)
  let ?cp2 = "snd (map_state (acquire_lock r) qs ?cp1)"
  have q: "fst (map_state (acquire_lock r) qs ?cp1) = map (\<lambda>q. Err (LockConflict r q)) qs"
    "cp_locks ?cp2 r = Some \<lparr>ls_resource_id = r, ls_current_owner_pid = Some p, ls_waiting_pids = qs\<rparr>"
    using acquire_queues [OF a(2), of qs] assms(2) by simp_all
  from release_hands_over [OF q(2)] a(1) q(1) show ?thesis
    by (simp add: case_prod_beta Let_def cp_holder_def lock_entry_def del: map_state.simps)
qed

theorem lock_fifo_handover_witness:
  "let cp1 = snd (acquire_lock 9 1 (ControlPlane_new (NodeId 0) :: unit cp));
       (res, cp2) = map_state (acquire_lock 9) [2, 3] cp1; (rel, cp3) = map_state (release_lock 9) [1, 2, 3] cp2
   in rel = [Ok (), Ok (), Ok ()] \<and> cp_holder cp3 9 = None"
  using lock_fifo_handover [of "ControlPlane_new (NodeId 0) :: unit cp" 9 1 "[2, 3]"]
  by (simp add: ControlPlane_new_def case_prod_beta Let_def numeral_2_eq_2 del: map_state.simps)

end
