(* ===== verification/Control_Transport.thy ===== *)
theory Control_Transport
  imports Prelude
begin

text \<open>
  The framed control protocol, from \<open>src/klnk/klnk-net/src/control_transport.rs\<close>: the
  streaming codecs for single messages and batches and the send and receive functions on
  sockets.  The serializer (bincode) is a pair of parameters \<open>ser\<close> and \<open>de\<close>.  A byte
  buffer is the list of its bytes; decoding returns what is left of it, also on errors.
  A socket to receive from is the bytes the peer sends before it closes, for the tokio
  functions, and the pieces in which they arrive for the single reads of io_uring.
\<close>

section \<open>Messages and errors\<close>

definition MAX_FRAME_SIZE :: nat where "MAX_FRAME_SIZE = 16 * 1024 * 1024"
definition PROTOCOL_VERSION :: u8 where "PROTOCOL_VERSION = 1"
definition HEADER_SIZE :: nat where "HEADER_SIZE = 6"
definition FLAG_COMPRESSED :: u8 where "FLAG_COMPRESSED = 1"
definition FLAG_BATCH :: u8 where "FLAG_BATCH = 2"

datatype io_error = UnexpectedEof | OtherIo string

datatype 'be TransportError =
    IoError io_error
  | SerializationError 'be
  | InvalidFrame
  | FrameTooLarge nat
  | UnsupportedVersion u8
  | UringError string
  | CompressionError string

datatype ControlMessagePayload =
    RegionRegister u32 u64 u64 u32
  | RegionDeregister u32 u64
  | LockAcquire u64 u64 u64
  | LockRelease u64 u64 u64
  | Heartbeat u32 u64
  | ResponseAck bool string

record ControlFrame =
  fr_version :: u8
  fr_flags :: u8
  fr_length :: u32
  fr_payload :: ControlMessagePayload

record ControlCodec =
  compression_level :: u32

definition ControlCodec_default :: ControlCodec where
  "ControlCodec_default = \<lparr>compression_level = 0\<rparr>"

definition with_compression :: "u32 \<Rightarrow> ControlCodec" where
  "with_compression level = \<lparr>compression_level = min level 9\<rparr>"

type_synonym ('be, 'm) serializer = "'m \<Rightarrow> ('be, u8 list) result"
type_synonym ('be, 'm) deserializer = "u8 list \<Rightarrow> ('be, 'm) result"

definition serialize_payload ::
    "('be, ControlMessagePayload) serializer \<Rightarrow> ControlCodec \<Rightarrow> ControlMessagePayload \<Rightarrow> ('be TransportError, u8 list) result" where
  "serialize_payload ser c item =
    (case ser item of
       Inl e \<Rightarrow> Err (SerializationError e)
     | Inr serialized \<Rightarrow>
         if compression_level c > 0 \<and> length serialized > 1024 then Ok serialized else Ok serialized)"

definition deserialize_payload ::
    "('be, ControlMessagePayload) deserializer \<Rightarrow> u8 list \<Rightarrow> u8 \<Rightarrow> ('be TransportError, ControlMessagePayload) result" where
  "deserialize_payload de data flags =
    (if (flags AND FLAG_COMPRESSED) \<noteq> 0 then Err (CompressionError ''Compressed frames not yet supported'')
     else case de data of Inl e \<Rightarrow> Err (SerializationError e) | Inr msg \<Rightarrow> Ok msg)"

section \<open>Frames\<close>

definition to_be_bytes :: "u32 \<Rightarrow> u8 list" where
  "to_be_bytes w = [ucast (drop_bit 24 w), ucast (drop_bit 16 w), ucast (drop_bit 8 w), ucast w]"

definition from_be_bytes :: "u8 list \<Rightarrow> u32" where
  "from_be_bytes bs = foldl (\<lambda>acc b. push_bit 8 acc OR ucast b) 0 bs"

definition frame_bytes :: "u8 \<Rightarrow> u8 list \<Rightarrow> u8 list" where
  "frame_bytes flags serialized =
    [PROTOCOL_VERSION] @ to_be_bytes (of_nat (length serialized)) @ [flags] @ serialized"

text \<open>The header tests both decoders start with: version, flags and payload length of a complete frame.\<close>

definition decode_header :: "u8 list \<Rightarrow> ('be TransportError, (u8 \<times> u8 \<times> nat) option) result" where
  "decode_header src =
    (if length src < HEADER_SIZE then Ok None
     else
       let version = src ! 0
       in if version \<noteq> PROTOCOL_VERSION then Err (UnsupportedVersion version)
          else
            let frame_len = unat (from_be_bytes (take 4 (drop 1 src))); flags = src ! 5
            in if frame_len > MAX_FRAME_SIZE then Err (FrameTooLarge frame_len)
               else if length src < HEADER_SIZE + frame_len then Ok None
               else Ok (Some (version, flags, frame_len)))"

definition decode ::
    "('be, ControlMessagePayload) deserializer \<Rightarrow> u8 list \<Rightarrow> ('be TransportError, ControlFrame option) result \<times> u8 list" where
  "decode de src =
    (case decode_header src of
       Inl e \<Rightarrow> (Err e, src)
     | Inr None \<Rightarrow> (Ok None, src)
     | Inr (Some (version, flags, frame_len)) \<Rightarrow>
         let payload_buf = take frame_len (drop HEADER_SIZE src);
             rest = drop (HEADER_SIZE + frame_len) src
         in case deserialize_payload de payload_buf flags of
              Inl e \<Rightarrow> (Err e, rest)
            | Inr msg \<Rightarrow>
                (Ok (Some \<lparr>fr_version = version, fr_flags = flags, fr_length = of_nat frame_len, fr_payload = msg\<rparr>), rest))"

definition encode ::
    "('be, ControlMessagePayload) serializer \<Rightarrow> ControlCodec \<Rightarrow> ControlMessagePayload \<Rightarrow> u8 list \<Rightarrow>
     ('be TransportError, unit) result \<times> u8 list" where
  "encode ser c item dst =
    (case serialize_payload ser c item of
       Inl e \<Rightarrow> (Err e, dst)
     | Inr serialized \<Rightarrow> (Ok (), dst @ frame_bytes 0 serialized))"

definition decode_batch ::
    "('be, ControlMessagePayload list) deserializer \<Rightarrow> u8 list \<Rightarrow>
     ('be TransportError, ControlMessagePayload list option) result \<times> u8 list" where
  "decode_batch de src =
    (case decode_header src of
       Inl e \<Rightarrow> (Err e, src)
     | Inr None \<Rightarrow> (Ok None, src)
     | Inr (Some (version, flags, frame_len)) \<Rightarrow>
         let payload_buf = take frame_len (drop HEADER_SIZE src);
             rest = drop (HEADER_SIZE + frame_len) src
         in if (flags AND FLAG_BATCH) = 0 then (Err InvalidFrame, rest)
            else case de payload_buf of
                   Inl e \<Rightarrow> (Err (SerializationError e), rest)
                 | Inr messages \<Rightarrow> (Ok (Some messages), rest))"

definition encode_batch ::
    "('be, ControlMessagePayload list) serializer \<Rightarrow> ControlMessagePayload list \<Rightarrow> u8 list \<Rightarrow>
     ('be TransportError, unit) result \<times> u8 list" where
  "encode_batch ser items dst =
    (case ser items of
       Inl e \<Rightarrow> (Err (SerializationError e), dst)
     | Inr serialized \<Rightarrow> (Ok (), dst @ frame_bytes FLAG_BATCH serialized))"

section \<open>Sockets\<close>

text \<open>The tokio functions; \<open>write\<close> says whether the socket accepts the bytes.\<close>

definition send_control_message_tokio ::
    "('be, ControlMessagePayload) serializer \<Rightarrow> (u8 list \<Rightarrow> (io_error, unit) result) \<Rightarrow> ControlMessagePayload \<Rightarrow>
     ('be TransportError, unit) result \<times> u8 list" where
  "send_control_message_tokio ser write msg =
    (case ser msg of
       Inl e \<Rightarrow> (Err (SerializationError e), [])
     | Inr serialized \<Rightarrow>
         let buf = frame_bytes 0 serialized
         in case write buf of Inl e \<Rightarrow> (Err (IoError e), []) | Inr _ \<Rightarrow> (Ok (), buf))"

definition read_exact :: "nat \<Rightarrow> u8 list \<Rightarrow> (io_error, u8 list) result \<times> u8 list" where
  "read_exact n input = (if length input < n then (Err UnexpectedEof, []) else (Ok (take n input), drop n input))"

definition recv_control_message_tokio ::
    "('be, ControlMessagePayload) deserializer \<Rightarrow> u8 list \<Rightarrow> ('be TransportError, ControlMessagePayload) result \<times> u8 list" where
  "recv_control_message_tokio de input =
    (case read_exact HEADER_SIZE input of
       (Inl e, input1) \<Rightarrow> (Err (IoError e), input1)
     | (Inr header, input1) \<Rightarrow>
         let version = header ! 0
         in if version \<noteq> PROTOCOL_VERSION then (Err (UnsupportedVersion version), input1)
            else
              let len = unat (from_be_bytes (take 4 (drop 1 header))); flags = header ! 5
              in if len > MAX_FRAME_SIZE then (Err (FrameTooLarge len), input1)
                 else
                   case read_exact len input1 of
                     (Inl e, input2) \<Rightarrow> (Err (IoError e), input2)
                   | (Inr payload, input2) \<Rightarrow>
                       if (flags AND FLAG_COMPRESSED) \<noteq> 0
                       then (Err (CompressionError ''Compressed frames not yet supported''), input2)
                       else case de payload of
                              Inl e \<Rightarrow> (Err (SerializationError e), input2)
                            | Inr msg \<Rightarrow> (Ok msg, input2))"

text \<open>One io_uring write reports how many bytes it took; one read returns at most one piece.\<close>

definition send_control_message_uring ::
    "('be, ControlMessagePayload) serializer \<Rightarrow> (u8 list \<Rightarrow> (string, nat) result) \<Rightarrow> ControlMessagePayload \<Rightarrow>
     ('be TransportError, unit) result \<times> u8 list" where
  "send_control_message_uring ser write msg =
    (case ser msg of
       Inl e \<Rightarrow> (Err (SerializationError e), [])
     | Inr serialized \<Rightarrow>
         let buf = frame_bytes 0 serialized
         in case write buf of Inl e \<Rightarrow> (Err (UringError e), []) | Inr n \<Rightarrow> (Ok (), take n buf))"

fun uring_read :: "nat \<Rightarrow> (string, u8 list) result list \<Rightarrow> (string, u8 list) result \<times> (string, u8 list) result list" where
  "uring_read n [] = (Ok [], [])"
| "uring_read n (Inl e # ps) = (Err e, ps)"
| "uring_read n (Inr p # ps) = (Ok (take n p), if length p \<le> n then ps else Inr (drop n p) # ps)"

definition recv_control_message_uring ::
    "('be, ControlMessagePayload) deserializer \<Rightarrow> (string, u8 list) result list \<Rightarrow>
     ('be TransportError, ControlMessagePayload) result \<times> (string, u8 list) result list" where
  "recv_control_message_uring de ps =
    (case uring_read HEADER_SIZE ps of
       (Inl e, ps1) \<Rightarrow> (Err (UringError e), ps1)
     | (Inr header, ps1) \<Rightarrow>
         if length header \<noteq> HEADER_SIZE then (Err InvalidFrame, ps1)
         else
           let version = header ! 0
           in if version \<noteq> PROTOCOL_VERSION then (Err (UnsupportedVersion version), ps1)
              else
                let len = unat (from_be_bytes (take 4 (drop 1 header))); flags = header ! 5
                in if len > MAX_FRAME_SIZE then (Err (FrameTooLarge len), ps1)
                   else
                     case uring_read len ps1 of
                       (Inl e, ps2) \<Rightarrow> (Err (UringError e), ps2)
                     | (Inr payload, ps2) \<Rightarrow>
                         if length payload \<noteq> len then (Err InvalidFrame, ps2)
                         else if (flags AND FLAG_COMPRESSED) \<noteq> 0
                         then (Err (CompressionError ''Compressed frames not yet supported''), ps2)
                         else case de payload of
                                Inl e \<Rightarrow> (Err (SerializationError e), ps2)
                              | Inr msg \<Rightarrow> (Ok msg, ps2))"

section \<open>Header lemmas\<close>

lemma byte_join:
  fixes w :: u32
  shows "push_bit n (ucast (ucast (drop_bit n w) :: u8)) OR take_bit n w = take_bit (n + 8) w"
  by (rule bit_word_eqI) (auto simp: bit_or_iff bit_push_bit_iff bit_unsigned_iff bit_drop_bit_eq bit_take_bit_iff)

lemma from_to_be_bytes [simp]: "from_be_bytes (to_be_bytes w) = w"
proof -
  have "from_be_bytes (to_be_bytes w) =
      push_bit 24 (ucast (ucast (drop_bit 24 w) :: u8)) OR (push_bit 16 (ucast (ucast (drop_bit 16 w) :: u8)) OR
        (push_bit 8 (ucast (ucast (drop_bit 8 w) :: u8)) OR (push_bit 0 (ucast (ucast (drop_bit 0 w) :: u8)) OR take_bit 0 w)))"
    by (simp add: from_be_bytes_def to_be_bytes_def or.assoc)
  then show ?thesis
    unfolding byte_join by (simp add: byte_join take_bit_word_eq_self)
qed

lemma length_to_be_bytes [simp]: "length (to_be_bytes w) = 4"
  by (simp add: to_be_bytes_def)

lemma frame_bytes_simps [simp]:
  "length (frame_bytes f bs) = HEADER_SIZE + length bs" "frame_bytes f bs ! 0 = PROTOCOL_VERSION"
  "frame_bytes f bs ! 5 = f" "take 4 (drop (Suc 0) (frame_bytes f bs)) = to_be_bytes (of_nat (length bs))"
  "drop HEADER_SIZE (frame_bytes f bs) = bs"
  by (simp_all add: frame_bytes_def to_be_bytes_def HEADER_SIZE_def)

lemma unat_length_word: "length (bs :: u8 list) \<le> MAX_FRAME_SIZE \<Longrightarrow> unat (of_nat (length bs) :: u32) = length bs"
  by (simp add: unat_of_nat MAX_FRAME_SIZE_def)

lemma header_append:
  assumes "HEADER_SIZE \<le> length xs"
  shows "(xs @ ys) ! 0 = xs ! 0" "(xs @ ys) ! 5 = xs ! 5" "take 4 (drop (Suc 0) (xs @ ys)) = take 4 (drop (Suc 0) xs)"
  using assms by (auto simp: HEADER_SIZE_def nth_append)

lemma decode_header_frame:
  assumes "length bs \<le> MAX_FRAME_SIZE"
  shows "decode_header (frame_bytes f bs @ ys) = Ok (Some (PROTOCOL_VERSION, f, length bs))"
  using assms header_append [of "frame_bytes f bs" ys] by (simp add: decode_header_def unat_length_word Let_def del: take_append drop_append)

lemma decode_header_complete:
  "decode_header src = Ok (Some (v, f, n)) \<Longrightarrow> HEADER_SIZE + n \<le> length src"
  by (auto simp: decode_header_def Let_def split: if_splits)

lemma decode_header_append:
  "decode_header xs = (Ok (Some h) :: ('be TransportError, _) result) \<Longrightarrow>
    decode_header (xs @ ys) = (Ok (Some h) :: ('be TransportError, _) result)"
  "decode_header xs = Err e \<Longrightarrow> decode_header (xs @ ys) = Err e"
  using header_append [of xs ys] by (auto simp: decode_header_def Let_def split: if_splits)

lemma result_option_cases [case_names err none some]:
  obtains e where "r = Err e" | "r = Ok None" | x where "r = Ok (Some x)"
proof (cases r)
  case (Inr y)
  then show ?thesis
    by (cases y) (auto intro: that)
qed (auto intro: that)

lemma decode_None: "decode de xs = (Ok None, rest) \<Longrightarrow> rest = xs"
  by (auto simp: decode_def Let_def split: sum.splits option.splits)

lemma decode_shrinks: "decode de xs = (Ok (Some f), rest) \<Longrightarrow> length rest < length xs"
  by (auto simp: decode_def Let_def HEADER_SIZE_def split: sum.splits option.splits
      dest!: decode_header_complete [unfolded HEADER_SIZE_def])

lemma decode_append:
  fixes de :: "('be, ControlMessagePayload) deserializer"
  assumes "decode de xs = (r, rest)" "r \<noteq> Ok None"
  shows "fst (decode de (xs @ ys)) = r" "r = Ok (Some f) \<Longrightarrow> decode de (xs @ ys) = (r, rest @ ys)"
proof -
  have "fst (decode de (xs @ ys)) = r \<and> (r = Ok (Some f) \<longrightarrow> decode de (xs @ ys) = (r, rest @ ys))"
  proof (cases "decode_header xs :: ('be TransportError, _) result" rule: result_option_cases)
    case err
    with decode_header_append(2) [OF err, of ys] assms show ?thesis
      by (auto simp: decode_def)
  next
    case (some h)
    obtain v f n where h: "h = (v, f, n)"
      by (cases h)
    with some decode_header_append(1) [OF some, of ys] decode_header_complete [OF some [unfolded h]] assms show ?thesis
      by (auto simp: decode_def Let_def split: sum.splits)
  next
    case none
    with assms show ?thesis
      by (simp add: decode_def)
  qed
  then show "fst (decode de (xs @ ys)) = r" "r = Ok (Some f) \<Longrightarrow> decode de (xs @ ys) = (r, rest @ ys)"
    by auto
qed

section \<open>Reading a stream\<close>

text \<open>
  The reader of a framed stream: it appends each piece that arrives to its buffer and
  decodes until the decoder asks for more bytes.  It stops at the first error.
\<close>

function decode_all ::
    "('be, ControlMessagePayload) deserializer \<Rightarrow> u8 list \<Rightarrow>
     ('be TransportError, unit) result \<times> ControlFrame list \<times> u8 list" where
  "decode_all de buf =
    (case decode de buf of
       (Inl e, rest) \<Rightarrow> (Err e, [], rest)
     | (Inr None, rest) \<Rightarrow> (Ok (), [], rest)
     | (Inr (Some f), rest) \<Rightarrow> (let (r, fs, rest') = decode_all de rest in (r, f # fs, rest')))"
  by pat_completeness auto
termination
  by (relation "measure (\<lambda>(de, buf). length buf)") (auto intro: decode_shrinks [OF sym])

declare decode_all.simps [simp del]

fun feed ::
    "('be, ControlMessagePayload) deserializer \<Rightarrow> u8 list \<Rightarrow> u8 list list \<Rightarrow>
     ('be TransportError, unit) result \<times> ControlFrame list \<times> u8 list" where
  "feed de buf [] = (Ok (), [], buf)"
| "feed de buf (piece # pieces) =
    (case decode_all de (buf @ piece) of
       (Inl e, fs, rest) \<Rightarrow> (Err e, fs, rest)
     | (Inr _, fs, rest) \<Rightarrow> (let (r, gs, rest') = feed de rest pieces in (r, fs @ gs, rest')))"

lemma decode_all_append:
  assumes "decode_all de (xs @ ys) = (Ok (), fs, rest)"
  shows "\<exists>gs hs mid. decode_all de xs = (Ok (), gs, mid) \<and> decode_all de (mid @ ys) = (Ok (), hs, rest) \<and> fs = gs @ hs"
  using assms
proof (induction "length xs" arbitrary: xs fs rule: less_induct)
  case less
  obtain r rest1 where d: "decode de xs = (r, rest1)"
    by (cases "decode de xs")
  show ?case
  proof (cases r rule: result_option_cases)
    case err
    with decode_append(1) [OF d, of ys] less.prems show ?thesis
      by (cases "decode de (xs @ ys)") (simp add: decode_all.simps [of de "xs @ ys"])
  next
    case none
    with decode_None d have "decode_all de xs = (Ok (), [], xs)"
      by (fastforce simp: decode_all.simps [of de xs])
    with less.prems show ?thesis
      by simp
  next
    case (some f)
    with decode_append(2) [OF d] have d': "decode de (xs @ ys) = (Ok (Some f), rest1 @ ys)"
      by simp
    with less.prems obtain fs1 where fs1: "decode_all de (rest1 @ ys) = (Ok (), fs1, rest)" "fs = f # fs1"
      by (auto simp: decode_all.simps [of de "xs @ ys"] split: prod.splits)
    have "length rest1 < length xs"
      using decode_shrinks d some by blast
    from less.hyps [OF this fs1(1)] fs1(2) d some show ?thesis
      by (fastforce simp: decode_all.simps [of de xs])
  qed
qed

lemma decode_all_Nil: "decode_all de [] = (Ok (), [], [])"
  by (simp add: decode_all.simps decode_def decode_header_def HEADER_SIZE_def)

lemma decode_all_idem: "decode_all de xs = (Ok (), gs, mid) \<Longrightarrow> decode_all de mid = (Ok (), [], mid)"
proof (induction "length xs" arbitrary: xs gs rule: less_induct)
  case less
  obtain r rest1 where d: "decode de xs = (r, rest1)"
    by (cases "decode de xs")
  show ?case
  proof (cases "r = Ok None")
    case True
    with less.prems d decode_None [of de xs rest1] show ?thesis
      by (auto simp: decode_all.simps [of de xs])
  next
    case False
    with less.prems d obtain f fs1 where f: "r = Ok (Some f)" "decode_all de rest1 = (Ok (), fs1, mid)"
      by (auto simp: decode_all.simps [of de xs] split: sum.splits option.splits prod.splits)
    with less.hyps [OF _ f(2)] decode_shrinks d show ?thesis
      by blast
  qed
qed

lemma feed_decode_all:
  assumes "decode_all de (buf @ concat pieces) = (Ok (), fs, rest)" "decode_all de buf = (Ok (), [], buf)"
  shows "feed de buf pieces = (Ok (), fs, rest)"
  using assms
proof (induction pieces arbitrary: buf fs)
  case (Cons p ps)
  from Cons.prems(1) obtain gs hs mid where g: "decode_all de (buf @ p) = (Ok (), gs, mid)"
    "decode_all de (mid @ concat ps) = (Ok (), hs, rest)" "fs = gs @ hs"
    using decode_all_append [of de "buf @ p" "concat ps" fs rest] by auto
  from Cons.IH [OF g(2) decode_all_idem [OF g(1)]] g(1,3) show ?case
    by simp
qed simp

section \<open>Properties\<close>

text \<open>The wire image of a sequence of messages, one \<open>encode\<close> call after the other.\<close>

definition encode_seq ::
    "('be, ControlMessagePayload) serializer \<Rightarrow> ControlCodec \<Rightarrow> ControlMessagePayload list \<Rightarrow> u8 list \<Rightarrow>
     ('be TransportError, unit) result list \<times> u8 list" where
  "encode_seq ser c = map_state (encode ser c)"

lemma decode_frame:
  assumes "de bs = Ok m" "length bs \<le> MAX_FRAME_SIZE"
  shows "decode de (frame_bytes 0 bs @ ys) =
    (Ok (Some \<lparr>fr_version = PROTOCOL_VERSION, fr_flags = 0, fr_length = of_nat (length bs), fr_payload = m\<rparr>), ys)"
  using assms by (simp add: decode_def decode_header_frame deserialize_payload_def Let_def)

lemma encode_seq_append: "snd (encode_seq ser c ms dst) = dst @ snd (encode_seq ser c ms [])"
proof (induction ms arbitrary: dst)
  case (Cons m ms)
  have "snd (encode ser c m dst) = dst @ snd (encode ser c m [])"
    by (simp add: encode_def split: sum.splits)
  with Cons [of "snd (encode ser c m dst)"] Cons [of "snd (encode ser c m [])"] show ?case
    by (simp add: encode_seq_def)
qed (simp add: encode_seq_def)

lemma decode_all_encode_seq:
  assumes "\<forall>m bs. ser m = Ok bs \<longrightarrow> de bs = Ok m"
    and "\<forall>m \<in> set ms. \<exists>bs. ser m = Ok bs \<and> length bs \<le> MAX_FRAME_SIZE"
  shows "\<exists>fs. decode_all de (snd (encode_seq ser c ms [])) = (Ok (), fs, []) \<and> map fr_payload fs = ms \<and>
    (\<forall>f \<in> set fs. fr_version f = PROTOCOL_VERSION \<and> fr_flags f = 0)"
  using assms(2)
proof (induction ms)
  case Nil
  then show ?case
    by (simp add: encode_seq_def decode_all_Nil)
next
  case (Cons m ms)
  then obtain bs where bs: "ser m = Ok bs" "length bs \<le> MAX_FRAME_SIZE"
    by auto
  have "de bs = Ok m"
    using assms(1) bs(1) by blast
  note d = decode_frame [of de bs m, OF this bs(2)]
  have w: "snd (encode_seq ser c (m # ms) []) = frame_bytes 0 bs @ snd (encode_seq ser c ms [])"
    using bs(1) encode_seq_append [of ser c ms "frame_bytes 0 bs"]
    by (simp add: encode_seq_def encode_def serialize_payload_def)
  from Cons show ?case
    unfolding w by (subst decode_all.simps) (auto simp: d)
qed

lemma feed_encode_seq:
  assumes "\<forall>m bs. ser m = Ok bs \<longrightarrow> de bs = Ok m"
    and "\<forall>m \<in> set ms. \<exists>bs. ser m = Ok bs \<and> length bs \<le> MAX_FRAME_SIZE"
    and "concat pieces = snd (encode_seq ser c ms [])"
  shows "\<exists>fs. feed de [] pieces = (Ok (), fs, []) \<and> map fr_payload fs = ms \<and>
    (\<forall>f \<in> set fs. fr_version f = PROTOCOL_VERSION \<and> fr_flags f = 0)"
proof -
  obtain fs where fs: "decode_all de ([] @ concat pieces) = (Ok (), fs, [])" "map fr_payload fs = ms"
    "\<forall>f \<in> set fs. fr_version f = PROTOCOL_VERSION \<and> fr_flags f = 0"
    using decode_all_encode_seq [OF assms(1,2), of c] assms(3) by auto
  from feed_decode_all [OF fs(1) decode_all_Nil] fs(2,3) show ?thesis
    by auto
qed

text \<open>
  C3: the codec transports any sequence of messages over any fragmentation of the
  stream.  If the deserializer inverts the serializer and no serialized message exceeds
  the frame limit, then however the encoded bytes are cut into pieces, reading the pieces
  gives back exactly the messages, in order, and leaves nothing in the buffer.
\<close>

theorem codec_stream_roundtrip:
  assumes "\<forall>m bs. ser m = Ok bs \<longrightarrow> de bs = Ok m"
    and "\<forall>m \<in> set ms. \<exists>bs. ser m = Ok bs \<and> length bs \<le> MAX_FRAME_SIZE"
    and "concat pieces = snd (encode_seq ser c ms [])"
  shows "\<exists>fs. feed de [] pieces = (Ok (), fs, []) \<and> map fr_payload fs = ms \<and>
    (\<forall>f \<in> set fs. fr_version f = PROTOCOL_VERSION \<and> fr_flags f = 0)"
  using feed_encode_seq [OF assms] .

text \<open>A serializer for a few messages, and its inverse.\<close>

definition sample_ser :: "(unit, ControlMessagePayload) serializer" where
  "sample_ser m =
    (case m of
       Heartbeat n t \<Rightarrow> if t = 0 then Ok (to_be_bytes n) else Err ()
     | LockAcquire r off len \<Rightarrow>
         if off = 0 \<and> len = 0 \<and> ucast (ucast r :: u32) = r then Ok (0 # to_be_bytes (ucast r)) else Err ()
     | ResponseAck b msg \<Rightarrow> if b \<and> msg = ''OK'' then Ok [1] else Err ()
     | _ \<Rightarrow> Err ())"

definition sample_de :: "(unit, ControlMessagePayload) deserializer" where
  "sample_de bs =
    (if length bs = 4 then Ok (Heartbeat (from_be_bytes bs) 0)
     else if length bs = 5 then Ok (LockAcquire (ucast (from_be_bytes (drop 1 bs))) 0 0)
     else if length bs = 1 then Ok (ResponseAck True ''OK'') else Err ())"

lemma sample_ser_inverse: "\<forall>m bs. sample_ser m = Ok bs \<longrightarrow> sample_de bs = Ok m"
  by (auto simp: sample_ser_def sample_de_def split: ControlMessagePayload.splits if_splits)

theorem codec_stream_roundtrip_witness:
  "\<exists>fs. feed sample_de [] [[1, 0, 0], [0, 4, 0, 0, 0], [], [0, 7, 1, 0, 0, 0, 4, 0, 0, 0, 0, 9]] = (Ok (), fs, []) \<and>
     map fr_payload fs = [Heartbeat 7 0, Heartbeat 9 0]"
proof -
  have w: "concat [[1, 0, 0], [0, 4, 0, 0, 0], [], [0, 7, 1, 0, 0, 0, 4, 0, 0, 0, 0, 9]] =
      snd (encode_seq sample_ser ControlCodec_default [Heartbeat 7 0, Heartbeat 9 0] [])"
    by (simp add: encode_seq_def encode_def serialize_payload_def sample_ser_def ControlCodec_default_def
        frame_bytes_def to_be_bytes_def PROTOCOL_VERSION_def)
  have ok: "\<forall>m \<in> set [Heartbeat 7 0, Heartbeat 9 0]. \<exists>bs. sample_ser m = Ok bs \<and> length bs \<le> MAX_FRAME_SIZE"
    by (simp add: sample_ser_def MAX_FRAME_SIZE_def)
  show ?thesis
    using codec_stream_roundtrip [of sample_ser sample_de, OF sample_ser_inverse ok w] by (elim exE conjE) (intro exI conjI)
qed

section \<open>Where the halves of the protocol do not meet\<close>

text \<open>The encoder has no size limit: it produces frames that every decoder refuses.\<close>

lemma encode_oversized:
  assumes "ser m = Ok bs" "MAX_FRAME_SIZE < length bs" "length bs < 2 ^ 32"
  shows "encode ser c m [] = (Ok (), frame_bytes 0 bs)" "decode de (frame_bytes 0 bs) = (Err (FrameTooLarge (length bs)), frame_bytes 0 bs)"
proof -
  have "unat (of_nat (length bs) :: u32) = length bs"
    using assms(3) by (simp add: unat_of_nat)
  with assms show "encode ser c m [] = (Ok (), frame_bytes 0 bs)"
    "decode de (frame_bytes 0 bs) = (Err (FrameTooLarge (length bs)), frame_bytes 0 bs)"
    by (simp_all add: encode_def serialize_payload_def decode_def decode_header_def Let_def)
qed

lemma frame_split:
  obtains h where "frame_bytes f bs = h @ bs" "length h = HEADER_SIZE" "h ! 0 = PROTOCOL_VERSION" "h ! 5 = f"
    "take 4 (drop (Suc 0) h) = to_be_bytes (of_nat (length bs))"
proof (rule that)
  let ?h = "[PROTOCOL_VERSION] @ to_be_bytes (of_nat (length bs)) @ [f]"
  show "frame_bytes f bs = ?h @ bs"
    by (simp add: frame_bytes_def)
  show "length ?h = HEADER_SIZE" "?h ! 0 = PROTOCOL_VERSION" "?h ! 5 = f"
    "take 4 (drop (Suc 0) ?h) = to_be_bytes (of_nat (length bs))"
    by (simp_all add: HEADER_SIZE_def to_be_bytes_def)
qed

lemma recv_tokio_frame:
  assumes "length bs \<le> MAX_FRAME_SIZE"
  shows "recv_control_message_tokio de (frame_bytes 0 bs @ ys) =
    (case de bs of Inl e \<Rightarrow> (Err (SerializationError e), ys) | Inr m \<Rightarrow> (Ok m, ys))"
proof -
  obtain h where h: "frame_bytes 0 bs = h @ bs" "length h = HEADER_SIZE" "h ! 0 = PROTOCOL_VERSION" "h ! 5 = 0"
    "take 4 (drop (Suc 0) h) = to_be_bytes (of_nat (length bs))"
    by (rule frame_split)
  have "read_exact HEADER_SIZE (h @ bs @ ys) = (Ok h, bs @ ys)" "read_exact (length bs) (bs @ ys) = (Ok bs, ys)"
    using h(2) by (simp_all add: read_exact_def)
  then show ?thesis
    unfolding h(1) recv_control_message_tokio_def using assms h(3-5) by (simp add: unat_length_word)
qed

text \<open>
  A frame whose payload arrives in two pieces is lost by the io_uring receiver, which
  reads once, while the tokio receiver waits for the rest.
\<close>

lemma recv_uring_short_read:
  assumes "p @ q = bs" "q \<noteq> []" "length bs \<le> MAX_FRAME_SIZE" "de bs = Ok m"
  shows "fst (recv_control_message_uring de [Inr (take HEADER_SIZE (frame_bytes 0 bs)), Inr p, Inr q]) = Err InvalidFrame"
    "fst (recv_control_message_tokio de (take HEADER_SIZE (frame_bytes 0 bs) @ p @ q)) = Ok m"
proof -
  obtain h where h: "frame_bytes 0 bs = h @ bs" "length h = HEADER_SIZE" "h ! 0 = PROTOCOL_VERSION"
    "take 4 (drop (Suc 0) h) = to_be_bytes (of_nat (length bs))"
    by (rule frame_split)
  then have t: "take HEADER_SIZE (frame_bytes 0 bs) = h"
    by simp
  have "length p < length bs"
    using assms(1,2) by auto
  with h(2-4) assms(3) show "fst (recv_control_message_uring de [Inr (take HEADER_SIZE (frame_bytes 0 bs)), Inr p, Inr q]) = Err InvalidFrame"
    unfolding t by (simp add: recv_control_message_uring_def unat_length_word Let_def)
  show "fst (recv_control_message_tokio de (take HEADER_SIZE (frame_bytes 0 bs) @ p @ q)) = Ok m"
    using recv_tokio_frame [OF assms(3), of de "[]"] assms(1,4) h(2) unfolding t h(1) by simp
qed

end
