(* ===== verification/Daemon_Control.thy ===== *)
theory Daemon_Control
  imports Control_Plane Control_Transport
begin

text \<open>
  The control socket of the daemon, from \<open>src/klnk/klnk-daemon/src/main.rs\<close>: the handler
  of one request on the control plane, the loop that serves one client connection, and
  the stand-in resource limiter the binary is built with.  A connection is the bytes the
  client sends before it closes; \<open>write\<close> says, from the bytes already sent, whether the
  socket accepts the next response.
\<close>

section \<open>Messages of errors\<close>

fun show_error :: "ControlPlaneError \<Rightarrow> string" where
  "show_error (RegionAlreadyExists r) = ''Region already registered: '' @ show_region r"
| "show_error (RegionNotFound r) = ''Region not found: '' @ show_region r"
| "show_error (AddressNotMapped r v) =
    ''Virtual address 0x'' @ show_base 16 (unat v) @ '' not mapped in region '' @ show_region r"
| "show_error (LockConflict q p) =
    ''Lock acquisition conflict for resource 0x'' @ show_base 16 (unat q) @ '' by client PID '' @ show_base 10 (unat p)"
| "show_error (LockNotHeld q p) =
    ''Lock release error: resource 0x'' @ show_base 16 (unat q) @ '' not held by client PID '' @ show_base 10 (unat p)"

section \<open>Requests\<close>

definition ack_of :: "(ControlPlaneError, unit) result \<Rightarrow> ControlMessagePayload" where
  "ack_of r = (case r of Inr _ \<Rightarrow> ResponseAck True ''OK'' | Inl e \<Rightarrow> ResponseAck False (show_error e))"

definition region_desc :: "u32 \<Rightarrow> u64 \<Rightarrow> u64 \<Rightarrow> u32 \<Rightarrow> MemoryRegionDescriptor" where
  "region_desc pid vaddr sz flags =
    \<lparr>rd_region_id = GlobalRegionId pid (ucast vaddr), rd_main_vaddr = vaddr, rd_region_size = sz,
     rd_staging_vaddr = 0, rd_staging_num_pages = 0, rd_staging_page_size = 4096,
     rd_prot_flags = MemoryProtectionFlags flags, rd_mem_flags = 0, rd_version = 0\<rparr>"

fun process_control_payload ::
    "ControlMessagePayload \<Rightarrow> 'addr cp \<Rightarrow> (ControlMessagePayload \<times> 'addr cp) option" where
  "process_control_payload (RegionRegister pid vaddr sz flags) cp =
    map_option (map_prod ack_of id) (register_region (region_desc pid vaddr sz flags) cp)"
| "process_control_payload (RegionDeregister pid vaddr) cp =
    map_option (map_prod ack_of id) (deregister_region (GlobalRegionId pid (ucast vaddr)) cp)"
| "process_control_payload (LockAcquire region_id offset len) cp =
    Some (map_prod ack_of id (acquire_lock region_id (ucast offset) cp))"
| "process_control_payload (LockRelease region_id offset len) cp =
    Some (map_prod ack_of id (release_lock region_id (ucast offset) cp))"
| "process_control_payload (Heartbeat n t) cp = Some (ResponseAck True ''Heartbeat'', cp)"
| "process_control_payload (ResponseAck b m) cp = Some (ResponseAck False ''Unsupported'', cp)"

lemma recv_tokio_shrinks:
  "recv_control_message_tokio de input = (Ok m, rest) \<Longrightarrow> length rest < length input"
  by (auto simp: recv_control_message_tokio_def read_exact_def HEADER_SIZE_def Let_def split: if_splits sum.splits)

text \<open>The result is the outcome of the connection, the bytes sent and the final control plane.\<close>

function handle_client ::
    "('be, ControlMessagePayload) serializer \<Rightarrow> ('be, ControlMessagePayload) deserializer \<Rightarrow>
     (u8 list \<Rightarrow> u8 list \<Rightarrow> (io_error, unit) result) \<Rightarrow> u8 list \<Rightarrow> u8 list \<Rightarrow> 'addr cp \<Rightarrow>
     (('be TransportError, unit) result \<times> u8 list \<times> 'addr cp) option" where
  "handle_client ser de write input out cp =
    (case recv_control_message_tokio de input of
       (Inl e, _) \<Rightarrow> Some (case e of IoError UnexpectedEof \<Rightarrow> Ok () | _ \<Rightarrow> Err e, out, cp)
     | (Inr payload, input1) \<Rightarrow>
         case process_control_payload payload cp of
           None \<Rightarrow> None
         | Some (response, cp1) \<Rightarrow>
             case send_control_message_tokio ser (write out) response of
               (Inl e, _) \<Rightarrow> Some (Err e, out, cp1)
             | (Inr _, sent) \<Rightarrow> handle_client ser de write input1 (out @ sent) cp1)"
  by pat_completeness auto
termination
  by (relation "measure (\<lambda>(ser, de, write, input, out, cp). length input)") (auto intro: recv_tokio_shrinks [OF sym])

declare handle_client.simps [simp del]

section \<open>The limiter of the binary\<close>

text \<open>
  \<open>main.rs\<close> declares a module of its own for the resource limits; the limiter of
  \<open>limits.rs\<close> is not part of the binary.
\<close>

record StubConfig =
  st_max_staging_bytes :: nat
  st_high_watermark_pct :: rat
  st_low_watermark_pct :: rat
  st_max_active_descriptors :: nat

definition StubConfig_default :: StubConfig where
  "StubConfig_default = \<lparr>st_max_staging_bytes = 8 * 1024 * 1024 * 1024, st_high_watermark_pct = f64_round (85 / 100),
     st_low_watermark_pct = f64_round (60 / 100), st_max_active_descriptors = 1024\<rparr>"

record StubLimiter =
  st_used_staging_bytes :: nat
  st_active_descriptors :: nat
  st_config :: StubConfig

definition StubLimiter_new :: "StubConfig \<Rightarrow> StubLimiter" where
  "StubLimiter_new c = \<lparr>st_used_staging_bytes = 0, st_active_descriptors = 0, st_config = c\<rparr>"

text \<open>The division by a limit of zero gives NaN or infinity.\<close>

definition stub_check_backpressure :: "StubLimiter \<Rightarrow> bool" where
  "stub_check_backpressure l =
    (let used = f64_of_nat (st_used_staging_bytes l); limit = f64_of_nat (st_max_staging_bytes (st_config l));
         ratio = (if limit = 0 then (if used = 0 then NaN else PosInf) else Fin (f64_round (used / limit)))
     in f64_ge ratio (st_high_watermark_pct (st_config l)))"

definition stub_reserve_memory :: "nat \<Rightarrow> StubLimiter \<Rightarrow> (unit, unit) result \<times> StubLimiter" where
  "stub_reserve_memory bytes l = (Ok (), l)"

definition stub_release_memory :: "nat \<Rightarrow> StubLimiter \<Rightarrow> StubLimiter" where
  "stub_release_memory bytes l = l"

lemma stub_never_limits:
  assumes "0 < st_high_watermark_pct c"
  shows "fst (stub_reserve_memory n l) = Ok ()"
    "\<not> stub_check_backpressure (snd (map_state stub_reserve_memory ns (StubLimiter_new c)))"
proof -
  have "snd (map_state stub_reserve_memory ns l) = l" for l
    by (induction ns) (simp_all add: stub_reserve_memory_def)
  with assms show "\<not> stub_check_backpressure (snd (map_state stub_reserve_memory ns (StubLimiter_new c)))"
    by (simp add: stub_check_backpressure_def StubLimiter_new_def f64_of_nat_def f64_round_def Let_def)
qed (simp add: stub_reserve_memory_def)

section \<open>Serving a connection\<close>

text \<open>A client's byte stream: its requests, one frame each.\<close>

definition requests :: "('be, ControlMessagePayload) serializer \<Rightarrow> ControlMessagePayload list \<Rightarrow> u8 list" where
  "requests ser ms = snd (encode_seq ser ControlCodec_default ms [])"

fun process_all :: "ControlMessagePayload list \<Rightarrow> 'addr cp \<Rightarrow> (ControlMessagePayload list \<times> 'addr cp) option" where
  "process_all [] cp = Some ([], cp)"
| "process_all (m # ms) cp =
    (case process_control_payload m cp of
       None \<Rightarrow> None
     | Some (r, cp1) \<Rightarrow> (case process_all ms cp1 of None \<Rightarrow> None | Some (rs, cp2) \<Rightarrow> Some (r # rs, cp2)))"

lemma requests_Cons: "ser m = Ok bs \<Longrightarrow> requests ser (m # ms) = frame_bytes 0 bs @ requests ser ms"
  using encode_seq_append [of ser ControlCodec_default ms "frame_bytes 0 bs"]
  by (simp add: requests_def encode_seq_def encode_def serialize_payload_def)

lemma recv_eof: "recv_control_message_tokio de [] = (Err (IoError UnexpectedEof), [])"
  by (simp add: recv_control_message_tokio_def read_exact_def HEADER_SIZE_def)

lemma handle_client_run:
  assumes "\<forall>m bs. ser m = Ok bs \<longrightarrow> de bs = Ok m" "\<forall>out bs. write out bs = Ok ()"
    and "\<forall>m \<in> set ms. \<exists>bs. ser m = Ok bs \<and> length bs \<le> MAX_FRAME_SIZE"
    and "\<forall>m \<in> set rs. \<exists>bs. ser m = Ok bs \<and> length bs \<le> MAX_FRAME_SIZE"
    and "process_all ms cp = Some (rs, cp')"
  shows "handle_client ser de write (requests ser ms) out cp = Some (Ok (), out @ requests ser rs, cp')"
  using assms(3-5)
proof (induction ms arbitrary: cp rs out)
  case Nil
  then show ?case
    by (simp add: handle_client.simps requests_def encode_seq_def recv_eof)
next
  case (Cons m ms)
  obtain bs where bs: "ser m = Ok bs" "length bs \<le> MAX_FRAME_SIZE" "de bs = Ok m"
    using assms(1) Cons.prems(1) by auto
  obtain r cp1 rs' where r: "process_control_payload m cp = Some (r, cp1)" "process_all ms cp1 = Some (rs', cp')" "rs = r # rs'"
    using Cons.prems(3) by (auto split: option.splits)
  obtain bs' where bs': "ser r = Ok bs'"
    using Cons.prems(2) r(3) by auto
  have "recv_control_message_tokio de (requests ser (m # ms)) = (Ok m, requests ser ms)"
    using recv_tokio_frame [OF bs(2), of de "requests ser ms"] bs(1,3) by (simp add: requests_Cons)
  moreover have "send_control_message_tokio ser (write out) r = (Ok (), frame_bytes 0 bs')"
    using assms(2) bs' by (simp add: send_control_message_tokio_def)
  moreover note Cons.IH [where cp = cp1 and rs = rs' and out = "out @ frame_bytes 0 bs'"] Cons.prems(1,2) r bs'
  ultimately show ?case
    by (subst handle_client.simps) (simp add: requests_Cons)
qed

section \<open>Identities\<close>

text \<open>A client that registers a page-aligned region into the last page of the address space is never answered.\<close>

lemma daemon_hangs_at_top:
  assumes "cp_regions cp (GlobalRegionId pid (ucast vaddr)) = None" "4096 dvd unat vaddr"
    and "unat vaddr + unat sz < 2 ^ 64" "2 ^ 64 - 4096 < unat vaddr + unat sz"
  shows "process_control_payload (RegionRegister pid vaddr sz flags) cp = None"
proof -
  have "unat (vaddr + sz) = unat vaddr + unat sz"
    using assms(3) by (simp add: unat_word_ariths)
  then have "register_pages vaddr (vaddr + sz) 4096 (cp_local_node_id cp) [] (cp_page_states cp) = None"
    using assms(2,4) by (intro register_pages_diverges) simp_all
  with assms(1) show ?thesis
    by (simp add: register_region_def register_region_with_metadata_def region_desc_def coherence_unit_def)
qed

text \<open>
  A region is named by the low half of its address: two regions of one process whose
  addresses agree there cannot both be registered, and removing one by its address
  removes the other.
\<close>

lemma region_ids_truncate:
  assumes "v' = v + 2 ^ 32" "get_region (GlobalRegionId pid (ucast v)) cp = Ok d"
  shows "\<exists>msg. process_control_payload (RegionRegister pid v' sz flags) cp = Some (ResponseAck False msg, cp)"
    "process_control_payload (RegionDeregister pid v') cp = process_control_payload (RegionDeregister pid v) cp"
proof -
  have u: "(ucast v' :: u32) = ucast v"
    unfolding assms(1)
    by (simp add: word_unat_eq_iff unsigned_ucast_eq take_bit_eq_mod unat_word_ariths mod_mod_cancel)
  show "process_control_payload (RegionDeregister pid v') cp = process_control_payload (RegionDeregister pid v) cp"
    by (simp add: u)
  show "\<exists>msg. process_control_payload (RegionRegister pid v' sz flags) cp = Some (ResponseAck False msg, cp)"
    using assms(2) by (auto simp: region_desc_def register_region_def register_region_with_metadata_def u ack_of_def
        get_region_def split: option.splits)
qed

section \<open>Properties\<close>

text \<open>
  C10: the daemon answers every request of a connection.  A client that sends any
  sequence of requests and closes gets, if the socket takes the responses, exactly one
  response per request, in order; the connection ends without an error and the control
  plane is the one that processing the requests one after the other gives.
\<close>

theorem daemon_answers_every_request:
  assumes "\<forall>m bs. ser m = Ok bs \<longrightarrow> de bs = Ok m" "\<forall>out bs. write out bs = Ok ()"
    and "\<forall>m \<in> set ms. \<exists>bs. ser m = Ok bs \<and> length bs \<le> MAX_FRAME_SIZE"
    and "\<forall>m \<in> set rs. \<exists>bs. ser m = Ok bs \<and> length bs \<le> MAX_FRAME_SIZE"
    and "process_all ms cp = Some (rs, cp')"
  shows "\<exists>out. handle_client ser de write (snd (encode_seq ser ControlCodec_default ms [])) [] cp = Some (Ok (), out, cp') \<and>
    (\<forall>pieces. concat pieces = out \<longrightarrow> (\<exists>fs. feed de [] pieces = (Ok (), fs, []) \<and> map fr_payload fs = rs))"
proof -
  have "handle_client ser de write (requests ser ms) [] cp = Some (Ok (), requests ser rs, cp')"
    using handle_client_run [OF assms, of "[]"] by simp
  moreover have "\<exists>fs. feed de [] pieces = (Ok (), fs, []) \<and> map fr_payload fs = rs" if "concat pieces = requests ser rs" for pieces
    using feed_encode_seq [OF assms(1,4) that [unfolded requests_def]] by blast
  ultimately show ?thesis
    unfolding requests_def by blast
qed

theorem daemon_answers_every_request_witness:
  "\<exists>out cp'. handle_client sample_ser sample_de (\<lambda>_ _. Ok ())
     (snd (encode_seq sample_ser ControlCodec_default [LockAcquire 5 0 0, LockAcquire 6 0 0] []))
     [] (ControlPlane_new (NodeId 1) :: unit cp) = Some (Ok (), out, cp') \<and> cp_holder cp' 6 = Some 0"
proof -
  let ?cp = "ControlPlane_new (NodeId 1) :: unit cp" and ?rs = "[ResponseAck True ''OK'', ResponseAck True ''OK'']"
  obtain cp' where cp': "process_all [LockAcquire 5 0 0, LockAcquire 6 0 0] ?cp = Some (?rs, cp')" "cp_holder cp' 6 = Some 0"
    by (simp add: acquire_lock_def lock_entry_def ControlPlane_new_def ack_of_def cp_holder_def Let_def)
  have "\<forall>m \<in> set [LockAcquire 5 0 0, LockAcquire 6 0 0]. \<exists>bs. sample_ser m = Ok bs \<and> length bs \<le> MAX_FRAME_SIZE"
    "\<forall>m \<in> set ?rs. \<exists>bs. sample_ser m = Ok bs \<and> length bs \<le> MAX_FRAME_SIZE"
    by (simp_all add: sample_ser_def MAX_FRAME_SIZE_def)
  from daemon_answers_every_request [OF sample_ser_inverse _ this cp'(1), of "\<lambda>_ _. Ok ()"] cp'(2) show ?thesis
    by auto
qed

text \<open>
  Locks taken through the daemon do not exclude clients.  A lock request carries no
  client identity and the daemon takes the offset as the owner: once a request for a
  range has been granted, the same request from anybody else is granted too, either of
  them can release the lock for both, and a request for any other offset of the region,
  however far away, is refused.
\<close>

theorem daemon_locks_do_not_exclude:
  assumes "cp_locks cp r = None" "(ucast off' :: u32) \<noteq> ucast off"
  shows "\<exists>cp1 cp2 cp3. process_control_payload (LockAcquire r off len) cp = Some (ResponseAck True ''OK'', cp1) \<and>
    process_control_payload (LockAcquire r off len') cp1 = Some (ResponseAck True ''OK'', cp2) \<and>
    process_control_payload (LockRelease r off len') cp2 = Some (ResponseAck True ''OK'', cp3) \<and>
    cp_holder cp3 r = None \<and>
    (\<exists>msg cp4. process_control_payload (LockAcquire r off' len') cp1 = Some (ResponseAck False msg, cp4))"
  using assms by (auto simp: acquire_lock_def release_lock_def lock_entry_def ack_of_def cp_holder_def Let_def)

theorem daemon_locks_do_not_exclude_witness:
  "\<exists>cp1 cp2. process_control_payload (LockAcquire 7 0 4096) (ControlPlane_new (NodeId 1) :: unit cp) = Some (ResponseAck True ''OK'', cp1) \<and>
     process_control_payload (LockAcquire 7 0 4096) cp1 = Some (ResponseAck True ''OK'', cp2) \<and>
     (\<exists>msg cp4. process_control_payload (LockAcquire 7 8192 4096) cp1 = Some (ResponseAck False msg, cp4))"
  using daemon_locks_do_not_exclude [of "ControlPlane_new (NodeId 1) :: unit cp" 7 8192 0 4096 4096]
  by (auto simp: ControlPlane_new_def)

end
