(* ===== verification/Rma.thy ===== *)
theory Rma
  imports Prelude "HOL-Library.AList"
begin

text \<open>
  The remote-memory shim \<open>src/klnk/librmashim\<close>: the memory-region registry
  (\<open>mr_registry.rs\<close>), the software provider (\<open>rdma_provider.rs\<close>), the receive-queue
  manager (\<open>rq_refill.rs\<close>) and the transport engine (\<open>lib.rs\<close>).  The engine always has a
  provider, since its constructor creates one.  Hash maps are HOL maps; the engine's map
  of regions, which registration scans, is an association list in its iteration order.
  Socket addresses are a type parameter.
\<close>

section \<open>The memory-region registry\<close>

datatype MemoryRegionError =
    AlreadyExists u32
  | NotFound u32
  | InvalidDescriptor string

record MemoryRegion =
  mr_rkey :: u32
  mr_lkey :: u32
  mr_vaddr :: u64
  mr_size :: u64
  mr_flags :: u32
  mr_node_id :: u32

definition MemoryRegion_new :: "u32 \<Rightarrow> u32 \<Rightarrow> u64 \<Rightarrow> u64 \<Rightarrow> u32 \<Rightarrow> u32 \<Rightarrow> MemoryRegion" where
  "MemoryRegion_new rkey lkey vaddr sz flags node_id =
    \<lparr>mr_rkey = rkey, mr_lkey = lkey, mr_vaddr = vaddr, mr_size = sz, mr_flags = flags, mr_node_id = node_id\<rparr>"

definition mr_contains_range :: "MemoryRegion \<Rightarrow> u64 \<Rightarrow> u64 \<Rightarrow> bool" where
  "mr_contains_range r target_vaddr len \<longleftrightarrow>
     target_vaddr \<ge> mr_vaddr r \<and> target_vaddr + len \<le> mr_vaddr r + mr_size r"

record MemoryRegionRegistry =
  rr_regions :: "u32 \<rightharpoonup> MemoryRegion"
  rr_vaddr_index :: "u64 \<times> u64 \<rightharpoonup> u32"

definition Registry_new :: MemoryRegionRegistry where
  "Registry_new = \<lparr>rr_regions = Map.empty, rr_vaddr_index = Map.empty\<rparr>"

definition mr_register ::
    "MemoryRegion \<Rightarrow> MemoryRegionRegistry \<Rightarrow> (MemoryRegionError, unit) result \<times> MemoryRegionRegistry" where
  "mr_register region reg =
    (if mr_vaddr region = 0 \<or> mr_size region = 0
     then (Err (InvalidDescriptor ''Base address and size must be non-zero''), reg)
     else if rr_regions reg (mr_rkey region) \<noteq> None then (Err (AlreadyExists (mr_rkey region)), reg)
     else (Ok (), reg\<lparr>rr_vaddr_index := (rr_vaddr_index reg)((mr_vaddr region, mr_size region) \<mapsto> mr_rkey region),
                     rr_regions := (rr_regions reg)(mr_rkey region \<mapsto> region)\<rparr>))"

definition mr_register_region ::
    "u64 \<Rightarrow> u64 \<Rightarrow> u32 \<Rightarrow> u32 \<Rightarrow> u32 \<Rightarrow> u32 \<Rightarrow> MemoryRegionRegistry \<Rightarrow>
     (MemoryRegionError, MemoryRegion) result \<times> MemoryRegionRegistry" where
  "mr_register_region vaddr sz rkey lkey flags node_id reg =
    (let mr = MemoryRegion_new rkey lkey vaddr sz flags node_id
     in case mr_register mr reg of (Inl e, reg1) \<Rightarrow> (Err e, reg1) | (Inr _, reg1) \<Rightarrow> (Ok mr, reg1))"

definition mr_get :: "u32 \<Rightarrow> MemoryRegionRegistry \<Rightarrow> MemoryRegion option" where
  "mr_get rkey reg = rr_regions reg rkey"

definition get_by_vaddr_size :: "u64 \<Rightarrow> u64 \<Rightarrow> MemoryRegionRegistry \<Rightarrow> MemoryRegion option" where
  "get_by_vaddr_size vaddr sz reg =
    (case rr_vaddr_index reg (vaddr, sz) of Some rkey \<Rightarrow> rr_regions reg rkey | None \<Rightarrow> None)"

definition mr_deregister ::
    "u32 \<Rightarrow> MemoryRegionRegistry \<Rightarrow> (MemoryRegionError, MemoryRegion) result \<times> MemoryRegionRegistry" where
  "mr_deregister rkey reg =
    (case rr_regions reg rkey of
       Some region \<Rightarrow>
         (Ok region, reg\<lparr>rr_regions := (rr_regions reg)(rkey := None),
                         rr_vaddr_index := (rr_vaddr_index reg)((mr_vaddr region, mr_size region) := None)\<rparr>)
     | None \<Rightarrow> (Err (NotFound rkey), reg))"

definition mr_clear :: "MemoryRegionRegistry \<Rightarrow> MemoryRegionRegistry" where
  "mr_clear reg = reg\<lparr>rr_regions := Map.empty, rr_vaddr_index := Map.empty\<rparr>"

section \<open>The software provider\<close>

datatype QpState = Reset | Init | ReadyToReceive | ReadyToSend | QpError

record QueuePair =
  qp_num :: u32
  qp_state :: QpState

record 'addr RdmaProvider =
  pv_qps :: "'addr \<rightharpoonup> QueuePair"
  pv_mr_registry :: MemoryRegionRegistry
  pv_next_qp_num :: u32
  pv_completed_wrs :: u32

definition RdmaProvider_new :: "'addr RdmaProvider" where
  "RdmaProvider_new = \<lparr>pv_qps = Map.empty, pv_mr_registry = Registry_new, pv_next_qp_num = 1, pv_completed_wrs = 0\<rparr>"

definition pv_register_region ::
    "u64 \<Rightarrow> u64 \<Rightarrow> u32 \<Rightarrow> 'addr RdmaProvider \<Rightarrow> (MemoryRegionError, MemoryRegion) result \<times> 'addr RdmaProvider" where
  "pv_register_region vaddr sz flags p =
    (case get_by_vaddr_size vaddr sz (pv_mr_registry p) of
       Some existing \<Rightarrow> (Ok existing, p)
     | None \<Rightarrow>
         let rkey = pv_next_qp_num p; p1 = p\<lparr>pv_next_qp_num := rkey + 1\<rparr>;
             region = MemoryRegion_new rkey rkey vaddr sz flags 0
         in (case mr_register region (pv_mr_registry p1) of
               (Inl e, reg1) \<Rightarrow> (Err e, p1\<lparr>pv_mr_registry := reg1\<rparr>)
             | (Inr _, reg1) \<Rightarrow> (Ok region, p1\<lparr>pv_mr_registry := reg1\<rparr>)))"

definition pv_deregister_region ::
    "u32 \<Rightarrow> 'addr RdmaProvider \<Rightarrow> (MemoryRegionError, unit) result \<times> 'addr RdmaProvider" where
  "pv_deregister_region rkey p =
    (case mr_deregister rkey (pv_mr_registry p) of
       (Inl e, reg1) \<Rightarrow> (Err e, p\<lparr>pv_mr_registry := reg1\<rparr>)
     | (Inr _, reg1) \<Rightarrow> (Ok (), p\<lparr>pv_mr_registry := reg1\<rparr>))"

definition create_qp :: "'addr \<Rightarrow> 'addr RdmaProvider \<Rightarrow> QueuePair \<times> 'addr RdmaProvider" where
  "create_qp peer p =
    (case pv_qps p peer of
       Some qp \<Rightarrow> (qp, p)
     | None \<Rightarrow>
         let qp = \<lparr>qp_num = pv_next_qp_num p, qp_state = Init\<rparr>
         in (qp, p\<lparr>pv_next_qp_num := pv_next_qp_num p + 1, pv_qps := (pv_qps p)(peer \<mapsto> qp)\<rparr>))"

definition get_or_create_qp :: "'addr \<Rightarrow> 'addr RdmaProvider \<Rightarrow> QueuePair \<times> 'addr RdmaProvider" where
  "get_or_create_qp peer p = (case pv_qps p peer of Some qp \<Rightarrow> (qp, p) | None \<Rightarrow> create_qp peer p)"

definition post_wr :: "'addr \<Rightarrow> 'addr RdmaProvider \<Rightarrow> 'addr RdmaProvider" where
  "post_wr peer p =
    (let p1 = snd (get_or_create_qp peer p) in p1\<lparr>pv_completed_wrs := pv_completed_wrs p1 + 1\<rparr>)"

definition post_read :: "'addr \<Rightarrow> u64 \<Rightarrow> u32 \<Rightarrow> u64 \<Rightarrow> nat \<Rightarrow> 'addr RdmaProvider \<Rightarrow> 'addr RdmaProvider" where
  "post_read peer remote_vaddr rkey local_vaddr len p = post_wr peer p"

definition post_write :: "'addr \<Rightarrow> u64 \<Rightarrow> u32 \<Rightarrow> u64 \<Rightarrow> nat \<Rightarrow> 'addr RdmaProvider \<Rightarrow> 'addr RdmaProvider" where
  "post_write peer remote_vaddr rkey local_vaddr len p = post_wr peer p"

definition post_atomic_cas :: "'addr \<Rightarrow> u64 \<Rightarrow> u32 \<Rightarrow> u64 \<Rightarrow> u64 \<Rightarrow> 'addr RdmaProvider \<Rightarrow> u64 \<times> 'addr RdmaProvider" where
  "post_atomic_cas peer remote_vaddr rkey compare swap p = (compare, post_wr peer p)"

definition post_atomic_faa :: "'addr \<Rightarrow> u64 \<Rightarrow> u32 \<Rightarrow> u64 \<Rightarrow> 'addr RdmaProvider \<Rightarrow> u64 \<times> 'addr RdmaProvider" where
  "post_atomic_faa peer remote_vaddr rkey add p = (add, post_wr peer p)"

definition poll_cq :: "nat \<Rightarrow> 'addr RdmaProvider \<Rightarrow> nat \<times> 'addr RdmaProvider" where
  "poll_cq max_entries p =
    (let count = pv_completed_wrs p in if count > 0 then (unat count, p\<lparr>pv_completed_wrs := 0\<rparr>) else (0, p))"

section \<open>The receive queue\<close>

datatype RqRefillError = InvalidConfig nat nat

record RqConfig =
  rq_capacity :: nat
  rq_low_watermark :: nat
  rq_batch_size :: nat

definition RqConfig_default :: RqConfig where
  "RqConfig_default = \<lparr>rq_capacity = 512, rq_low_watermark = 128, rq_batch_size = 64\<rparr>"

record RqRefillManager =
  rq_config :: RqConfig
  rq_outstanding_depth :: u64

definition RqRefill_new :: "RqConfig \<Rightarrow> (RqRefillError, RqRefillManager) result" where
  "RqRefill_new c =
    (if rq_low_watermark c \<ge> rq_capacity c \<or> rq_capacity c = 0 then Err (InvalidConfig (rq_capacity c) (rq_low_watermark c))
     else Ok \<lparr>rq_config = c, rq_outstanding_depth = 0\<rparr>)"

definition needs_refill :: "RqRefillManager \<Rightarrow> bool" where
  "needs_refill m \<longleftrightarrow> unat (rq_outstanding_depth m) < rq_low_watermark (rq_config m)"

definition refill_deficit :: "RqRefillManager \<Rightarrow> nat" where
  "refill_deficit m =
    (let current = unat (rq_outstanding_depth m)
     in if current < rq_capacity (rq_config m)
        then min (rq_capacity (rq_config m) - current) (rq_batch_size (rq_config m)) else 0)"

definition post_refill_batch :: "nat \<Rightarrow> RqRefillManager \<Rightarrow> nat \<times> RqRefillManager" where
  "post_refill_batch num_buffers m =
    (if num_buffers = 0 then (0, m)
     else let batch_len = min num_buffers (rq_batch_size (rq_config m))
          in (batch_len, m\<lparr>rq_outstanding_depth := rq_outstanding_depth m + of_nat batch_len\<rparr>))"

definition on_work_completion :: "nat \<Rightarrow> RqRefillManager \<Rightarrow> RqRefillManager" where
  "on_work_completion count m = m\<lparr>rq_outstanding_depth := of_nat (unat (rq_outstanding_depth m) - count)\<rparr>"

section \<open>The transport engine\<close>

datatype RmaError =
    DeviceNotFound string
  | ContextCreationFailed
  | MemoryRegistrationFailed u64 u64
  | QueuePairError string
  | CompletionError string
  | RmaIoError string
  | Unimplemented string

record RegisteredRegion =
  rg_lkey :: u32
  rg_rkey :: u32
  rg_vaddr :: u64
  rg_length :: u64
  rg_gpu_id :: "u32 option"

record 'addr RmaTransportEngine =
  en_hardware_accelerated :: bool
  en_registered_regions :: "(u32 \<times> RegisteredRegion) list"
  en_completed_ops :: u64
  en_provider :: "'addr RdmaProvider"

definition auto_detect :: "string option \<Rightarrow> string option \<Rightarrow> 'addr RmaTransportEngine" where
  "auto_detect device_name detected =
    (let active_device = (case device_name of Some d \<Rightarrow> Some d | None \<Rightarrow> detected)
     in \<lparr>en_hardware_accelerated = (active_device \<noteq> None), en_registered_regions = [], en_completed_ops = 0,
         en_provider = RdmaProvider_new\<rparr>)"

definition register_memory_region ::
    "u64 \<Rightarrow> u64 \<Rightarrow> u32 option \<Rightarrow> 'addr RmaTransportEngine \<Rightarrow> (RmaError, RegisteredRegion) result \<times> 'addr RmaTransportEngine" where
  "register_memory_region vaddr len gpu_id e =
    (if vaddr = 0 \<or> len = 0 then (Err (MemoryRegistrationFailed vaddr len), e)
     else case find (\<lambda>(k, r). rg_vaddr r = vaddr \<and> rg_length r = len \<and> rg_gpu_id r = gpu_id) (en_registered_regions e) of
            Some (k, region) \<Rightarrow> (Ok region, e)
          | None \<Rightarrow>
              case pv_register_region vaddr len 3 (en_provider e) of
                (Inl x, p1) \<Rightarrow> (Err (MemoryRegistrationFailed vaddr len), e\<lparr>en_provider := p1\<rparr>)
              | (Inr mr, p1) \<Rightarrow>
                  let reg = \<lparr>rg_lkey = mr_lkey mr, rg_rkey = mr_rkey mr, rg_vaddr = mr_vaddr mr, rg_length = mr_size mr,
                             rg_gpu_id = gpu_id\<rparr>
                  in (Ok reg, e\<lparr>en_provider := p1,
                                en_registered_regions := AList.update (rg_rkey reg) reg (en_registered_regions e)\<rparr>))"

definition deregister_memory_region ::
    "u32 \<Rightarrow> 'addr RmaTransportEngine \<Rightarrow> (RmaError, unit) result \<times> 'addr RmaTransportEngine" where
  "deregister_memory_region rkey e =
    (case pv_deregister_region rkey (en_provider e) of
       (Inl x, p1) \<Rightarrow> (Err (MemoryRegistrationFailed 0 0), e\<lparr>en_provider := p1\<rparr>)
     | (Inr _, p1) \<Rightarrow>
         (Ok (), e\<lparr>en_provider := p1, en_registered_regions := AList.delete rkey (en_registered_regions e)\<rparr>))"

definition rdma_read ::
    "'addr \<Rightarrow> u64 \<Rightarrow> u32 \<Rightarrow> u64 \<Rightarrow> nat \<Rightarrow> 'addr RmaTransportEngine \<Rightarrow> (RmaError, unit) result \<times> 'addr RmaTransportEngine" where
  "rdma_read peer remote_vaddr rkey local_vaddr len e =
    (Ok (), e\<lparr>en_provider := post_read peer remote_vaddr rkey local_vaddr len (en_provider e),
              en_completed_ops := en_completed_ops e + 1\<rparr>)"

definition rdma_write ::
    "'addr \<Rightarrow> u64 \<Rightarrow> u32 \<Rightarrow> u64 \<Rightarrow> nat \<Rightarrow> 'addr RmaTransportEngine \<Rightarrow> (RmaError, unit) result \<times> 'addr RmaTransportEngine" where
  "rdma_write peer remote_vaddr rkey local_vaddr len e =
    (Ok (), e\<lparr>en_provider := post_write peer remote_vaddr rkey local_vaddr len (en_provider e),
              en_completed_ops := en_completed_ops e + 1\<rparr>)"

definition rdma_write_immediate ::
    "'addr \<Rightarrow> u64 \<Rightarrow> u32 \<Rightarrow> u64 \<Rightarrow> nat \<Rightarrow> u32 \<Rightarrow> 'addr RmaTransportEngine \<Rightarrow>
     (RmaError, unit) result \<times> 'addr RmaTransportEngine" where
  "rdma_write_immediate peer remote_vaddr rkey local_vaddr len immediate_data =
    rdma_write peer remote_vaddr rkey local_vaddr len"

definition rdma_atomic_cas ::
    "'addr \<Rightarrow> u64 \<Rightarrow> u32 \<Rightarrow> u64 \<Rightarrow> u64 \<Rightarrow> 'addr RmaTransportEngine \<Rightarrow> (RmaError, u64) result \<times> 'addr RmaTransportEngine" where
  "rdma_atomic_cas peer remote_vaddr rkey compare swap e =
    (let (old, p1) = post_atomic_cas peer remote_vaddr rkey compare swap (en_provider e)
     in (Ok old, e\<lparr>en_provider := p1\<rparr>))"

text \<open>A polling call returns that many identical, successful completions.\<close>

definition poll_completions :: "'addr RmaTransportEngine \<Rightarrow> nat \<times> 'addr RmaTransportEngine" where
  "poll_completions e = (let (count, p1) = poll_cq 16 (en_provider e) in (count, e\<lparr>en_provider := p1\<rparr>))"

definition register_staging_pool ::
    "u64 \<Rightarrow> u64 \<Rightarrow> 'addr RmaTransportEngine \<Rightarrow> (RmaError, RegisteredRegion) result \<times> 'addr RmaTransportEngine" where
  "register_staging_pool vaddr len = register_memory_region vaddr len None"

section \<open>The registry invariant\<close>

definition live :: "'addr RmaTransportEngine \<Rightarrow> u32 \<rightharpoonup> RegisteredRegion" where
  "live e = map_of (en_registered_regions e)"

text \<open>Keys and queue-pair numbers come from one 32-bit counter.\<close>

definition keys_left :: "'addr RmaTransportEngine \<Rightarrow> bool" where
  "keys_left e \<longleftrightarrow> unat (pv_next_qp_num (en_provider e)) < 2 ^ 32 - 1"

text \<open>The two indices of the registry agree, and every key lies below the counter.\<close>

definition reg_inv :: "'addr RdmaProvider \<Rightarrow> bool" where
  "reg_inv p \<longleftrightarrow>
    (\<forall>k mr. rr_regions (pv_mr_registry p) k = Some mr \<longrightarrow> mr_rkey mr = k \<and> k < pv_next_qp_num p \<and>
       rr_vaddr_index (pv_mr_registry p) (mr_vaddr mr, mr_size mr) = Some k) \<and>
    (\<forall>v n k. rr_vaddr_index (pv_mr_registry p) (v, n) = Some k \<longrightarrow>
       (\<exists>mr. rr_regions (pv_mr_registry p) k = Some mr \<and> mr_vaddr mr = v \<and> mr_size mr = n))"

definition same_range :: "RegisteredRegion \<Rightarrow> MemoryRegion \<Rightarrow> bool" where
  "same_range r mr \<longleftrightarrow> rg_rkey r = mr_rkey mr \<and> rg_vaddr r = mr_vaddr mr \<and> rg_length r = mr_size mr"

definition rma_inv :: "'addr RmaTransportEngine \<Rightarrow> bool" where
  "rma_inv e \<longleftrightarrow> reg_inv (en_provider e) \<and> distinct (map fst (en_registered_regions e)) \<and>
     (\<forall>k. rel_option same_range (live e k) (rr_regions (pv_mr_registry (en_provider e)) k))"

lemma word_less_succ:
  fixes k n :: "'a::len word"
  assumes "k \<le> n" "unat n < 2 ^ LENGTH('a) - 1"
  shows "k < n + 1"
  using assms unat_add_one_less [of n] by (simp add: word_less_nat_alt word_le_nat_alt)

lemma reg_inv_weaken:
  assumes "reg_inv p" "pv_mr_registry p' = pv_mr_registry p" "pv_next_qp_num p \<le> pv_next_qp_num p'"
  shows "reg_inv p'"
  using assms unfolding reg_inv_def by (auto intro: order_less_le_trans)

lemma rma_inv_cong:
  assumes "rma_inv e" "reg_inv (en_provider e')" "pv_mr_registry (en_provider e') = pv_mr_registry (en_provider e)"
    and "en_registered_regions e' = en_registered_regions e"
  shows "rma_inv e'"
  using assms by (simp add: rma_inv_def live_def)

lemma post_wr_inv:
  assumes "reg_inv p" "unat (pv_next_qp_num p) < 2 ^ 32 - 1"
  shows "reg_inv (post_wr peer p)" "pv_mr_registry (post_wr peer p) = pv_mr_registry p"
proof -
  show r: "pv_mr_registry (post_wr peer p) = pv_mr_registry p"
    by (simp add: post_wr_def get_or_create_qp_def create_qp_def Let_def split: option.splits)
  have "pv_next_qp_num p \<le> pv_next_qp_num (post_wr peer p)"
    using word_less_succ [OF order_refl, of "pv_next_qp_num p"] assms(2)
    by (auto simp: post_wr_def get_or_create_qp_def create_qp_def Let_def split: option.splits)
  with assms(1) r show "reg_inv (post_wr peer p)"
    using reg_inv_weaken by blast
qed

lemma pv_register_new:
  assumes "reg_inv p" "unat (pv_next_qp_num p) < 2 ^ 32 - 1" "v \<noteq> 0" "n \<noteq> 0"
    and "get_by_vaddr_size v n (pv_mr_registry p) = None"
  shows "\<exists>mr p'. pv_register_region v n f p = (Ok mr, p') \<and> mr = MemoryRegion_new (pv_next_qp_num p) (pv_next_qp_num p) v n f 0 \<and>
    reg_inv p' \<and> rr_regions (pv_mr_registry p') = (rr_regions (pv_mr_registry p))(pv_next_qp_num p \<mapsto> mr) \<and>
    rr_regions (pv_mr_registry p) (pv_next_qp_num p) = None"
proof -
  let ?k = "pv_next_qp_num p" and ?reg = "pv_mr_registry p"
  let ?mr = "MemoryRegion_new ?k ?k v n f 0"
  have fresh: "rr_regions ?reg ?k = None"
    using assms(1) unfolding reg_inv_def by (metis less_irrefl option.exhaust)
  have noidx: "rr_vaddr_index ?reg (v, n) = None"
    using assms(1,5) unfolding reg_inv_def get_by_vaddr_size_def by (fastforce split: option.splits)
  have nokey: "rr_vaddr_index ?reg (w, m) \<noteq> Some ?k" for w m
    using assms(1) fresh unfolding reg_inv_def by (metis option.distinct(1))
  let ?p = "p\<lparr>pv_next_qp_num := ?k + 1, pv_mr_registry := ?reg\<lparr>rr_vaddr_index := (rr_vaddr_index ?reg)((v, n) \<mapsto> ?k),
      rr_regions := (rr_regions ?reg)(?k \<mapsto> ?mr)\<rparr>\<rparr>"
  have "pv_register_region v n f p = (Ok ?mr, ?p)"
    using assms(3-5) fresh
    by (simp add: pv_register_region_def mr_register_def MemoryRegion_new_def Let_def)
  moreover have "reg_inv ?p"
    using assms(1) noidx nokey fresh word_less_succ [OF less_imp_le, of _ ?k] word_less_succ [OF order_refl, of ?k] assms(2)
    unfolding reg_inv_def by (auto simp: MemoryRegion_new_def)
  ultimately show ?thesis
    using fresh by simp
qed

lemma get_by_range_sound:
  assumes "reg_inv p" "get_by_vaddr_size v n (pv_mr_registry p) = Some mr"
  shows "rr_regions (pv_mr_registry p) (mr_rkey mr) = Some mr" "mr_vaddr mr = v" "mr_size mr = n"
proof -
  obtain k where k: "rr_vaddr_index (pv_mr_registry p) (v, n) = Some k" "rr_regions (pv_mr_registry p) k = Some mr"
    using assms(2) by (auto simp: get_by_vaddr_size_def split: option.splits)
  with assms(1) show "rr_regions (pv_mr_registry p) (mr_rkey mr) = Some mr" "mr_vaddr mr = v" "mr_size mr = n"
    unfolding reg_inv_def by fastforce+
qed

lemma live_region:
  assumes "rma_inv e" "live e k = Some r"
  obtains mr where "rr_regions (pv_mr_registry (en_provider e)) k = Some mr" "same_range r mr" "rg_rkey r = k"
proof -
  have "rel_option same_range (Some r) (rr_regions (pv_mr_registry (en_provider e)) k)"
    using assms by (metis rma_inv_def)
  then obtain mr where mr: "rr_regions (pv_mr_registry (en_provider e)) k = Some mr" "same_range r mr"
    by (auto simp: option_rel_Some1)
  moreover have "mr_rkey mr = k"
    using assms(1) mr(1) by (simp add: rma_inv_def reg_inv_def)
  ultimately show ?thesis
    using that by (simp add: same_range_def)
qed

lemma live_range_unique:
  assumes "rma_inv e" "live e k = Some r" "live e k' = Some r'" "rg_vaddr r = rg_vaddr r'" "rg_length r = rg_length r'"
  shows "k = k'"
proof -
  obtain mr mr' where m: "rr_regions (pv_mr_registry (en_provider e)) k = Some mr" "same_range r mr"
    "rr_regions (pv_mr_registry (en_provider e)) k' = Some mr'" "same_range r' mr'"
    using live_region [OF assms(1,2)] live_region [OF assms(1,3)] by metis
  have "rr_vaddr_index (pv_mr_registry (en_provider e)) (mr_vaddr mr, mr_size mr) = Some k"
    "rr_vaddr_index (pv_mr_registry (en_provider e)) (mr_vaddr mr', mr_size mr') = Some k'"
    using assms(1) m(1,3) by (simp_all add: rma_inv_def reg_inv_def)
  moreover have "mr_vaddr mr = mr_vaddr mr'" "mr_size mr = mr_size mr'"
    using m(2,4) assms(4,5) by (simp_all add: same_range_def)
  ultimately show ?thesis
    by simp
qed

lemma register_spec:
  assumes "rma_inv e" "keys_left e" "v \<noteq> 0" "n \<noteq> 0"
  shows "\<exists>reg e'. register_memory_region v n g e = (Ok reg, e') \<and> rma_inv e' \<and>
    rg_vaddr reg = v \<and> rg_length reg = n \<and> rg_gpu_id reg = g \<and> live e' = (live e)(rg_rkey reg \<mapsto> reg) \<and>
    (\<forall>r. live e (rg_rkey reg) = Some r \<longrightarrow> rg_vaddr r = v \<and> rg_length r = n)"
proof (cases "find (\<lambda>(k, r). rg_vaddr r = v \<and> rg_length r = n \<and> rg_gpu_id r = g) (en_registered_regions e)")
  case (Some kr)
  obtain k r where kr: "kr = (k, r)"
    by (cases kr)
  then have r: "(k, r) \<in> set (en_registered_regions e)" "rg_vaddr r = v" "rg_length r = n" "rg_gpu_id r = g"
    using Some by (auto simp: find_Some_iff) (metis nth_mem)
  have l: "live e k = Some r"
    using r(1) assms(1) by (simp add: live_def rma_inv_def)
  then have "rg_rkey r = k"
    using live_region [OF assms(1)] by blast
  with l have "live e = (live e)(rg_rkey r \<mapsto> r)" "live e (rg_rkey r) = Some r"
    by (simp_all add: fun_upd_idem)
  with Some kr r assms show ?thesis
    by (auto simp: register_memory_region_def)
next
  case None
  let ?p = "en_provider e"
  have inv: "reg_inv ?p" and lv: "\<And>k. rel_option same_range (live e k) (rr_regions (pv_mr_registry ?p) k)"
    and dis: "distinct (map fst (en_registered_regions e))"
    using assms(1) by (simp_all add: rma_inv_def)
  have "\<exists>mr p'. pv_register_region v n 3 ?p = (Ok mr, p') \<and> mr_vaddr mr = v \<and> mr_size mr = n \<and> reg_inv p' \<and>
      rr_regions (pv_mr_registry p') = (rr_regions (pv_mr_registry ?p))(mr_rkey mr \<mapsto> mr) \<and>
      (\<forall>m. rr_regions (pv_mr_registry ?p) (mr_rkey mr) = Some m \<longrightarrow> m = mr)"
  proof (cases "get_by_vaddr_size v n (pv_mr_registry ?p)")
    case None
    with pv_register_new [OF inv _ assms(3,4) None, of 3] assms(2) show ?thesis
      by (auto simp: keys_left_def MemoryRegion_new_def)
  next
    case (Some mr)
    with get_by_range_sound [OF inv Some] inv show ?thesis
      by (simp add: pv_register_region_def fun_upd_idem)
  qed
  then obtain mr p' where mr: "pv_register_region v n 3 ?p = (Ok mr, p')" "mr_vaddr mr = v" "mr_size mr = n" "reg_inv p'"
    "rr_regions (pv_mr_registry p') = (rr_regions (pv_mr_registry ?p))(mr_rkey mr \<mapsto> mr)"
    "\<forall>m. rr_regions (pv_mr_registry ?p) (mr_rkey mr) = Some m \<longrightarrow> m = mr"
    by blast
  let ?r = "\<lparr>rg_lkey = mr_lkey mr, rg_rkey = mr_rkey mr, rg_vaddr = v, rg_length = n, rg_gpu_id = g\<rparr>"
  let ?e = "e\<lparr>en_provider := p', en_registered_regions := AList.update (mr_rkey mr) ?r (en_registered_regions e)\<rparr>"
  have reg: "register_memory_region v n g e = (Ok ?r, ?e)"
    using None mr(1-3) assms(3,4) by (simp add: register_memory_region_def Let_def)
  have live: "live ?e = (live e)(mr_rkey mr \<mapsto> ?r)"
    by (simp add: live_def update_conv')
  have "rma_inv ?e"
    using mr(2-5) lv dis unfolding rma_inv_def live by (simp add: distinct_update same_range_def)
  moreover have "rg_vaddr r = v \<and> rg_length r = n" if l: "live e (mr_rkey mr) = Some r" for r
    using live_region [OF assms(1) l] mr(2,3,6) by (metis same_range_def)
  ultimately show ?thesis
    using reg live by auto
qed

lemma deregister_spec:
  assumes "rma_inv e"
  shows "rma_inv (snd (deregister_memory_region k e)) \<and>
    live (snd (deregister_memory_region k e)) = (live e)(k := None) \<and>
    fst (deregister_memory_region k e) = (if live e k = None then Err (MemoryRegistrationFailed 0 0) else Ok ())"
proof -
  let ?p = "en_provider e"
  have inv: "reg_inv ?p" and lv: "\<And>k. rel_option same_range (live e k) (rr_regions (pv_mr_registry ?p) k)"
    and dis: "distinct (map fst (en_registered_regions e))"
    using assms by (simp_all add: rma_inv_def)
  show ?thesis
  proof (cases "rr_regions (pv_mr_registry ?p) k")
    case None
    then have "live e k = None"
      using lv [of k] by simp
    with None assms show ?thesis
      by (simp add: deregister_memory_region_def pv_deregister_region_def mr_deregister_def fun_upd_idem)
  next
    case (Some mr)
    then obtain r where r: "live e k = Some r"
      using lv [of k] by (metis option_rel_Some2)
    let ?reg = "(pv_mr_registry ?p)\<lparr>rr_regions := (rr_regions (pv_mr_registry ?p))(k := None),
        rr_vaddr_index := (rr_vaddr_index (pv_mr_registry ?p))((mr_vaddr mr, mr_size mr) := None)\<rparr>"
    let ?e = "e\<lparr>en_provider := ?p\<lparr>pv_mr_registry := ?reg\<rparr>, en_registered_regions := AList.delete k (en_registered_regions e)\<rparr>"
    have d: "deregister_memory_region k e = (Ok (), ?e)"
      using Some by (simp add: deregister_memory_region_def pv_deregister_region_def mr_deregister_def)
    have live: "live ?e = (live e)(k := None)"
      by (simp add: live_def delete_conv')
    have idx: "rr_vaddr_index (pv_mr_registry ?p) (mr_vaddr mr, mr_size mr) = Some k"
      using inv Some by (simp add: reg_inv_def)
    have "(mr_vaddr m, mr_size m) \<noteq> (mr_vaddr mr, mr_size mr)"
      if "rr_regions (pv_mr_registry ?p) q = Some m" "q \<noteq> k" for q m
      using inv idx that unfolding reg_inv_def by (metis option.inject)
    moreover have "q \<noteq> k"
      if "rr_vaddr_index (pv_mr_registry ?p) (v, n) = Some q" "(v, n) \<noteq> (mr_vaddr mr, mr_size mr)" for q v n
      using inv Some that unfolding reg_inv_def by (metis option.inject)
    ultimately have "reg_inv (?p\<lparr>pv_mr_registry := ?reg\<rparr>)"
      using inv unfolding reg_inv_def by (auto split: if_splits)
    then have "rma_inv ?e"
      using lv dis unfolding rma_inv_def live by (simp add: distinct_delete)
    with d live r show ?thesis
      by simp
  qed
qed

section \<open>Reachable engines\<close>

inductive rma_reachable :: "'addr RmaTransportEngine \<Rightarrow> bool" where
  rma_start: "rma_reachable (auto_detect device detected)"
| rma_register: "rma_reachable e \<Longrightarrow> keys_left e \<Longrightarrow> rma_reachable (snd (register_memory_region v n g e))"
| rma_deregister: "rma_reachable e \<Longrightarrow> rma_reachable (snd (deregister_memory_region k e))"
| rma_read: "rma_reachable e \<Longrightarrow> keys_left e \<Longrightarrow> rma_reachable (snd (rdma_read a rv k lv len e))"
| rma_write: "rma_reachable e \<Longrightarrow> keys_left e \<Longrightarrow> rma_reachable (snd (rdma_write a rv k lv len e))"
| rma_cas: "rma_reachable e \<Longrightarrow> keys_left e \<Longrightarrow> rma_reachable (snd (rdma_atomic_cas a rv k cmp sw e))"
| rma_poll: "rma_reachable e \<Longrightarrow> rma_reachable (snd (poll_completions e))"

lemma auto_detect_inv: "rma_inv (auto_detect device detected)"
  by (simp add: rma_inv_def reg_inv_def live_def auto_detect_def RdmaProvider_new_def Registry_new_def Let_def)

lemma posted_inv:
  assumes "rma_inv e" "keys_left e" "en_provider e' = post_wr a (en_provider e)"
    and "en_registered_regions e' = en_registered_regions e"
  shows "rma_inv e'"
proof -
  have "reg_inv (en_provider e)" "unat (pv_next_qp_num (en_provider e)) < 2 ^ 32 - 1"
    using assms(1,2) by (simp_all add: rma_inv_def keys_left_def)
  from post_wr_inv [OF this, of a] show ?thesis
    by (intro rma_inv_cong [OF assms(1)]) (simp_all add: assms(3,4))
qed

lemma rma_reachable_inv: "rma_reachable e \<Longrightarrow> rma_inv e"
proof (induction rule: rma_reachable.induct)
  case (rma_register e v n g)
  show ?case
  proof (cases "v = 0 \<or> n = 0")
    case True
    with rma_register show ?thesis
      by (auto simp: register_memory_region_def)
  next
    case False
    with register_spec [of e v n g] rma_register show ?thesis
      by auto
  qed
next
  case (rma_deregister e k)
  then show ?case
    using deregister_spec by blast
next
  case (rma_poll e)
  have "pv_mr_registry (snd (poll_cq 16 (en_provider e))) = pv_mr_registry (en_provider e)"
    "pv_next_qp_num (snd (poll_cq 16 (en_provider e))) = pv_next_qp_num (en_provider e)"
    by (simp_all add: poll_cq_def Let_def)
  with rma_poll.IH show ?case
    by (intro rma_inv_cong [OF rma_poll.IH])
      (auto simp: poll_completions_def rma_inv_def Let_def split: prod.splits elim: reg_inv_weaken)
qed (auto intro: auto_detect_inv posted_inv simp: rdma_read_def rdma_write_def rdma_atomic_cas_def post_read_def
    post_write_def post_atomic_cas_def)

section \<open>Registered ranges\<close>

lemma register_next:
  "pv_next_qp_num (en_provider (snd (register_memory_region v n g e))) \<in>
     {pv_next_qp_num (en_provider e), pv_next_qp_num (en_provider e) + 1}"
  by (simp add: register_memory_region_def pv_register_region_def mr_register_def Let_def
      split: option.splits sum.splits prod.splits if_splits)

lemma register_hardware:
  "en_hardware_accelerated (snd (register_memory_region v n g e)) = en_hardware_accelerated e"
  by (simp add: register_memory_region_def Let_def split: option.splits sum.splits prod.splits)

text \<open>A region is covered when its key is live for its range; registrations keep this.\<close>

definition covered :: "'addr RmaTransportEngine \<Rightarrow> RegisteredRegion \<Rightarrow> bool" where
  "covered e r \<longleftrightarrow>
    (\<exists>r'. live e (rg_rkey r) = Some r' \<and> rg_vaddr r' = rg_vaddr r \<and> rg_length r' = rg_length r)"

lemma register_covered:
  assumes "rma_inv e" "keys_left e" "covered e r"
  shows "covered (snd (register_memory_region v n g e)) r"
proof (cases "v = 0 \<or> n = 0")
  case True
  with assms(3) show ?thesis
    by (simp add: register_memory_region_def)
next
  case False
  then obtain reg e' where "register_memory_region v n g e = (Ok reg, e')" "live e' = (live e)(rg_rkey reg \<mapsto> reg)"
    "rg_vaddr reg = v" "rg_length reg = n" "\<forall>r. live e (rg_rkey reg) = Some r \<longrightarrow> rg_vaddr r = v \<and> rg_length r = n"
    using register_spec [OF assms(1,2), of v n g] by auto
  with assms(3) show ?thesis
    by (auto simp: covered_def)
qed

section \<open>Properties\<close>

text \<open>
  C13: memory registration is exact, and shared.  In every state that registrations,
  removals, transfers and polls lead to, while the counter has keys left, registering a
  non-empty range returns a region for exactly this range: under the key of the live
  region of the range if there is one, whose entry it takes over, and under a key that no
  live region has otherwise; nothing else changes.  Removing that key succeeds once and
  leaves no region of the range, also for a client that registered it before.
\<close>

theorem rma_registration_exact:
  assumes "rma_reachable e" "keys_left e" "v \<noteq> 0" "n \<noteq> 0"
  shows "\<exists>reg e1 e2. register_memory_region v n g e = (Ok reg, e1) \<and>
    rg_vaddr reg = v \<and> rg_length reg = n \<and> rg_gpu_id reg = g \<and> live e1 = (live e)(rg_rkey reg \<mapsto> reg) \<and>
    (\<forall>k r. live e k = Some r \<longrightarrow> (k = rg_rkey reg \<longleftrightarrow> rg_vaddr r = v \<and> rg_length r = n)) \<and>
    deregister_memory_region (rg_rkey reg) e1 = (Ok (), e2) \<and> live e2 = (live e)(rg_rkey reg := None) \<and>
    fst (deregister_memory_region (rg_rkey reg) e2) = Err (MemoryRegistrationFailed 0 0)"
proof -
  obtain reg e1 where r: "register_memory_region v n g e = (Ok reg, e1)" "rma_inv e1" "rg_vaddr reg = v" "rg_length reg = n"
    "rg_gpu_id reg = g" "live e1 = (live e)(rg_rkey reg \<mapsto> reg)"
    "\<forall>r. live e (rg_rkey reg) = Some r \<longrightarrow> rg_vaddr r = v \<and> rg_length r = n"
    using register_spec [OF rma_reachable_inv [OF assms(1)] assms(2-4), of g] by blast
  have "k = rg_rkey reg" if "live e k = Some s" "rg_vaddr s = v \<and> rg_length s = n" for k s
    using live_range_unique [OF r(2), of k s "rg_rkey reg" reg] r(3,4,6) that by (cases "k = rg_rkey reg") simp_all
  with r(7) have "\<forall>k s. live e k = Some s \<longrightarrow> (k = rg_rkey reg \<longleftrightarrow> rg_vaddr s = v \<and> rg_length s = n)"
    by blast
  moreover define e2 where "e2 = snd (deregister_memory_region (rg_rkey reg) e1)"
  have d: "rma_inv e2" "live e2 = (live e)(rg_rkey reg := None)" "fst (deregister_memory_region (rg_rkey reg) e1) = Ok ()"
    using deregister_spec [OF r(2), of "rg_rkey reg"] r(6) by (simp_all add: e2_def)
  moreover have "deregister_memory_region (rg_rkey reg) e1 = (Ok (), e2)"
    using d(3) by (simp add: e2_def prod_eq_iff)
  moreover have "fst (deregister_memory_region (rg_rkey reg) e2) = Err (MemoryRegistrationFailed 0 0)"
    using deregister_spec [OF d(1), of "rg_rkey reg"] d(2) by simp
  ultimately show ?thesis
    using r(1-6) by blast
qed

theorem rma_registration_exact_witness:
  "\<exists>reg e1 e2. register_memory_region 4096 64 None (auto_detect None None :: unit RmaTransportEngine) = (Ok reg, e1) \<and>
     rg_vaddr reg = 4096 \<and> deregister_memory_region (rg_rkey reg) e1 = (Ok (), e2) \<and>
     fst (deregister_memory_region (rg_rkey reg) e2) = Err (MemoryRegistrationFailed 0 0)"
  using rma_registration_exact [OF rma_start, of None None 4096 64 None]
  by (fastforce simp: keys_left_def auto_detect_def RdmaProvider_new_def)

end
