(* ===== verification/Dsm_Api.thy ===== *)
theory Dsm_Api
  imports Daemon_Control Rma
begin

text \<open>
  The block interface of the shared memory: the types and the trait of
  \<open>src/api/src/lib.rs\<close> and its implementation on the control plane and the transport
  engine, from \<open>src/klnk/klnk-dsm-api/src/lib.rs\<close>.  Memory is a function from addresses to
  bytes; the raw copies of the source read and write it.  A copy reads all of its source
  before it writes, which is what the code does for ranges that do not overlap, the only
  ones its copy primitive allows.
\<close>

section \<open>Types of the interface\<close>

type_synonym RegionId = u64
type_synonym BlockMetadata = "u8 list"

datatype DsmError =
    DsmRegionAlreadyExists RegionId
  | DsmRegionNotFound RegionId
  | FetchFailed RegionId string
  | UpdateFailed RegionId string
  | DsmIoError string
  | Internal string

record BlockData =
  bd_payload :: "u8 list"
  bd_metadata :: BlockMetadata

section \<open>Memory\<close>

type_synonym memory = "u64 \<Rightarrow> u8"

definition read_mem :: "memory \<Rightarrow> u64 \<Rightarrow> u64 \<Rightarrow> u8 list" where
  "read_mem m a n = map (\<lambda>i. m (a + of_nat i)) [0 ..< unat n]"

definition copy_mem :: "u64 \<Rightarrow> u64 \<Rightarrow> u64 \<Rightarrow> memory \<Rightarrow> memory" where
  "copy_mem src dst n m = (\<lambda>a. if a - dst < n then m (src + (a - dst)) else m a)"

section \<open>The backend\<close>

definition region_id_to_global :: "RegionId \<Rightarrow> GlobalRegionId" where
  "region_id_to_global r = GlobalRegionId (ucast (drop_bit 32 r)) (ucast (r AND 0xFFFFFFFF))"

record 'addr RemoteBlockInfo =
  rb_peer_addr :: 'addr
  rb_remote_vaddr :: u64
  rb_rkey :: u32
  rb_size :: u64
  rb_metadata :: BlockMetadata

record 'addr KlnkDsmBackend =
  kb_control_plane :: "'addr cp"
  kb_rma_engine :: "'addr RmaTransportEngine"
  kb_local_blocks :: "RegionId \<rightharpoonup> u64 \<times> u64"
  kb_remote_blocks :: "RegionId \<rightharpoonup> 'addr RemoteBlockInfo"

definition KlnkDsmBackend_new :: "'addr cp \<Rightarrow> 'addr RmaTransportEngine \<Rightarrow> 'addr KlnkDsmBackend" where
  "KlnkDsmBackend_new cp en =
    \<lparr>kb_control_plane = cp, kb_rma_engine = en, kb_local_blocks = Map.empty, kb_remote_blocks = Map.empty\<rparr>"

definition register_remote_block_info ::
    "RegionId \<Rightarrow> 'addr \<Rightarrow> u64 \<Rightarrow> u32 \<Rightarrow> u64 \<Rightarrow> BlockMetadata \<Rightarrow> 'addr KlnkDsmBackend \<Rightarrow> 'addr KlnkDsmBackend" where
  "register_remote_block_info rid peer remote_vaddr rkey sz md b =
    b\<lparr>kb_remote_blocks := (kb_remote_blocks b)(rid \<mapsto>
       \<lparr>rb_peer_addr = peer, rb_remote_vaddr = remote_vaddr, rb_rkey = rkey, rb_size = sz, rb_metadata = md\<rparr>)\<rparr>"

definition block_desc :: "RegionId \<Rightarrow> u64 \<Rightarrow> u64 \<Rightarrow> MemoryRegionDescriptor" where
  "block_desc rid vaddr sz =
    \<lparr>rd_region_id = region_id_to_global rid, rd_main_vaddr = vaddr, rd_region_size = sz, rd_staging_vaddr = 0,
     rd_staging_num_pages = 1, rd_staging_page_size = max sz 4096,
     rd_prot_flags = MemoryProtectionFlags (PROT_READ OR PROT_WRITE), rd_mem_flags = 0, rd_version = 0\<rparr>"

definition register_block ::
    "RegionId \<Rightarrow> u64 \<Rightarrow> u64 \<Rightarrow> BlockMetadata \<Rightarrow> 'addr KlnkDsmBackend \<Rightarrow>
     ((DsmError, unit) result \<times> 'addr KlnkDsmBackend) option" where
  "register_block rid vaddr sz md b =
    (case register_region_with_metadata (block_desc rid vaddr sz) md (kb_control_plane b) of
       None \<Rightarrow> None
     | Some (Inl e, cp1) \<Rightarrow> Some (Err (Internal (show_error e)), b\<lparr>kb_control_plane := cp1\<rparr>)
     | Some (Inr _, cp1) \<Rightarrow>
         Some (Ok (), b\<lparr>kb_control_plane := cp1, kb_local_blocks := (kb_local_blocks b)(rid \<mapsto> (vaddr, sz))\<rparr>))"

fun show_rma_error :: "RmaError \<Rightarrow> string" where
  "show_rma_error (DeviceNotFound d) = ''InfiniBand/RoCE device not found: '' @ d"
| "show_rma_error ContextCreationFailed = ''Failed to create Verbs context or protection domain''"
| "show_rma_error (MemoryRegistrationFailed v n) =
    ''Memory region registration failed at vaddr 0x'' @ show_base 16 (unat v) @ '', size '' @ show_base 10 (unat n)"
| "show_rma_error (QueuePairError m) = ''Queue pair error on endpoint '' @ m"
| "show_rma_error (CompletionError m) = ''Completion queue error: '' @ m"
| "show_rma_error (RmaIoError m) = ''Network I/O error: '' @ m"
| "show_rma_error (Unimplemented m) = ''Operation not yet implemented: '' @ m"

definition size_mismatch :: "u64 \<Rightarrow> u64 \<Rightarrow> string" where
  "size_mismatch expected got =
    ''size mismatch: expected '' @ show_base 10 (unat expected) @ '', got '' @ show_base 10 (unat got)"

definition fetch_block ::
    "RegionId \<Rightarrow> 'addr \<Rightarrow> u64 \<Rightarrow> u64 \<Rightarrow> 'addr KlnkDsmBackend \<times> memory \<Rightarrow>
     (DsmError, BlockData) result \<times> 'addr KlnkDsmBackend \<times> memory" where
  "fetch_block rid peer_addr local_vaddr sz = (\<lambda>(b, m).
     case kb_local_blocks b rid of
       Some (src_vaddr, src_size) \<Rightarrow>
         if src_size \<noteq> sz then (Err (Internal (size_mismatch sz src_size)), b, m)
         else
           let m1 = copy_mem src_vaddr local_vaddr sz m;
               md = (case get_page_metadata src_vaddr (kb_control_plane b) of Some md \<Rightarrow> md | None \<Rightarrow> [])
           in (Ok \<lparr>bd_payload = read_mem m1 local_vaddr sz, bd_metadata = md\<rparr>, b, m1)
     | None \<Rightarrow>
         case kb_remote_blocks b rid of
           None \<Rightarrow> (Err (FetchFailed rid ''remote block info not registered''), b, m)
         | Some info \<Rightarrow>
             if rb_size info \<noteq> sz then (Err (FetchFailed rid (size_mismatch sz (rb_size info))), b, m)
             else
               case rdma_read (rb_peer_addr info) (rb_remote_vaddr info) (rb_rkey info) local_vaddr (unat sz)
                      (kb_rma_engine b) of
                 (Inl e, en1) \<Rightarrow> (Err (FetchFailed rid (show_rma_error e)), b\<lparr>kb_rma_engine := en1\<rparr>, m)
               | (Inr _, en1) \<Rightarrow>
                   (Ok \<lparr>bd_payload = read_mem m local_vaddr sz, bd_metadata = rb_metadata info\<rparr>,
                    b\<lparr>kb_rma_engine := en1\<rparr>, m))"

definition update_metadata ::
    "RegionId \<Rightarrow> BlockMetadata \<Rightarrow> 'addr KlnkDsmBackend \<Rightarrow> (DsmError, unit) result \<times> 'addr KlnkDsmBackend" where
  "update_metadata rid md b =
    (case kb_local_blocks b rid of
       None \<Rightarrow> (Err (DsmRegionNotFound rid), b)
     | Some (vaddr, _) \<Rightarrow> (Ok (), b\<lparr>kb_control_plane := snd (set_page_metadata vaddr md (kb_control_plane b))\<rparr>))"

section \<open>Lemmas\<close>

lemma of_nat_less_word:
  assumes "i < unat (n :: u64)"
  shows "(of_nat i :: u64) < n"
  using assms unsigned_less [of n, where ?'a = nat] by (simp add: word_less_nat_alt unat_of_nat)

text \<open>Reading a block back from where it has been copied.\<close>

lemma read_copy_mem: "read_mem (copy_mem src dst n m) dst n = read_mem m src n"
  by (simp add: read_mem_def copy_mem_def of_nat_less_word)

lemma region_id_inj: "region_id_to_global r = region_id_to_global s \<Longrightarrow> r = s"
proof -
  assume eq: "region_id_to_global r = region_id_to_global s"
  then have hi: "(ucast (drop_bit 32 r) :: u32) = ucast (drop_bit 32 s)"
    and lo: "(ucast (r AND 0xFFFFFFFF) :: u32) = ucast (s AND 0xFFFFFFFF)"
    by (simp_all add: region_id_to_global_def)
  have "0xFFFFFFFF = (mask 32 :: u64)"
    by (simp add: mask_eq_exp_minus_1)
  then have lo': "bit (ucast (r AND mask 32) :: u32) k = bit (ucast (s AND mask 32) :: u32) k" for k
    using lo by simp
  show "r = s"
  proof (rule bit_word_eqI)
    fix k
    assume "k < LENGTH(64)"
    then show "bit r k \<longleftrightarrow> bit s k"
      using lo' [of k] arg_cong [OF hi, of "\<lambda>w. bit w (k - 32)"]
      by (cases "k < 32") (auto simp: bit_ucast_iff bit_and_iff bit_mask_iff bit_drop_bit_eq)
  qed
qed

definition block_room :: "u64 \<Rightarrow> u64 \<Rightarrow> bool" where
  "block_room v sz \<longleftrightarrow> sz \<noteq> 0 \<and> unat v + 2 * unat sz + 4096 \<le> 2 ^ 64"

lemma block_grid:
  assumes "block_room v sz"
  shows "region_room (block_desc rid v sz)" "v \<in> region_grid (block_desc rid v sz)"
proof -
  have u: "coherence_unit (block_desc rid v sz) = max sz 4096"
    by (simp add: coherence_unit_def block_desc_def)
  have "unat (max sz (4096 :: u64)) \<le> unat sz + 4096"
    by (simp add: max_def)
  with assms show "region_room (block_desc rid v sz)"
    by (simp add: region_room_def u block_room_def) (simp add: block_desc_def)
  have "unat v + unat sz < 2 ^ 64" "0 < unat sz"
    using assms by (simp_all add: block_room_def unat_gt_0)
  then have "v < v + sz"
    by (simp add: word_less_nat_alt unat_word_ariths)
  then show "v \<in> region_grid (block_desc rid v sz)"
    by (simp add: region_grid_def page_grid_def block_desc_def)
qed

lemma register_block_result:
  assumes "get_region (region_id_to_global rid) (kb_control_plane b) = Err x" "block_room v sz"
  shows "\<exists>b1. register_block rid v sz md b = Some (Ok (), b1) \<and> kb_local_blocks b1 = (kb_local_blocks b)(rid \<mapsto> (v, sz)) \<and>
    get_page_metadata v (kb_control_plane b1) = Some md"
proof -
  let ?d = "block_desc rid v sz"
  have "cp_regions (kb_control_plane b) (rd_region_id ?d) = None"
    using assms(1) by (auto simp: get_region_def block_desc_def split: option.splits)
  from register_region_result [OF this block_grid(1) [OF assms(2)], of md] block_grid(2) [OF assms(2), of rid] show ?thesis
    by (simp add: register_block_def get_page_metadata_def PageEntry_new_with_metadata_def)
qed

section \<open>Properties\<close>



text \<open>
  A remote fetch completes without reading anything: the payload is what the destination
  held before, because the engine's read moves no data.
\<close>

lemma remote_fetch_moves_nothing:
  assumes "kb_local_blocks b rid = None" "kb_remote_blocks b rid = Some info" "rb_size info = sz"
  shows "\<exists>b1. fetch_block rid peer dst sz (b, m) =
    (Ok \<lparr>bd_payload = read_mem m dst sz, bd_metadata = rb_metadata info\<rparr>, b1, m)"
  using assms by (simp add: fetch_block_def rdma_read_def)

text \<open>Two blocks at one address share their metadata: the later registration replaces it.\<close>

lemma blocks_at_one_address_share_metadata:
  assumes "register_block rid v sz md b = Some (Ok (), b1)" "register_block rid' v sz md' b1 = Some (Ok (), b2)"
    and "rid \<noteq> rid'" "block_room v sz"
  shows "bd_metadata (projr (fst (fetch_block rid peer dst sz (b2, m)))) = md'"
proof -
  obtain x where "get_region (region_id_to_global rid') (kb_control_plane b1) = Err x"
    using assms(2) by (auto simp: register_block_def register_region_with_metadata_def get_region_def block_desc_def
        split: option.splits if_splits)
  from register_block_result [OF this assms(4), of md'] assms(2) have
    "kb_local_blocks b2 = (kb_local_blocks b1)(rid' \<mapsto> (v, sz))" "get_page_metadata v (kb_control_plane b2) = Some md'"
    by auto
  moreover have "kb_local_blocks b1 rid = Some (v, sz)"
    using assms(1) by (auto simp: register_block_def split: option.splits sum.splits)
  ultimately show ?thesis
    using assms(3) by (simp add: fetch_block_def Let_def)
qed

end
