(* ===== verification/Configuration.thy ===== *)
theory Configuration
  imports Raft
begin

text \<open>
  The configuration of a node, from \<open>src/config/src/lib.rs\<close>: the sections of the file,
  the built-in defaults, loading with its two errors and the numeric node identifier.
  Reading a file and parsing TOML are parameters.  The sections named \<open>RaftConfig\<close> and
  \<open>SchedulerConfig\<close> in the source are called \<open>RaftSection\<close> and \<open>SchedulerSection\<close> here,
  since the master crate has types of these names.
\<close>

section \<open>Sections\<close>

datatype ('io, 'te) ConfigError = ConfigIoError string 'io | ConfigParseError string 'te

record GeneralConfig =
  gc_log_level :: string
  gc_control_socket :: string
  gc_data_bind_addr :: string
  gc_node_id :: string

record KlnkConfig =
  kc_enable_uffd_move :: bool
  kc_fallback_copy :: bool
  kc_staging_num_pages :: nat
  kc_huge_page_size :: nat

record TierConfig =
  tc_l0_enabled :: bool
  tc_l0_device_ids :: "u32 list"
  tc_l1_enabled :: bool
  tc_l2_enabled :: bool
  tc_l2_path :: string

record StoreConfig =
  sto_tier :: TierConfig
  sto_block_size :: nat

record RaftSection =
  rs_embedded :: bool
  rs_initial_peers :: "string list"
  rs_etcd_endpoints :: "string list"

record SchedulerSection =
  ss_prefetch_window :: nat
  ss_l0_promote_threshold :: u64
  ss_l1_demote_idle_secs :: u64
  ss_lru_decay :: f64

record ShardingConfig =
  shc_shard_count :: nat

record MasterConfig =
  mc_raft :: RaftSection
  mc_scheduler :: SchedulerSection
  mc_sharding :: ShardingConfig

record RdmaConfig =
  rdc_device_name :: string
  rdc_enable_gdr :: bool
  rdc_rq_prepost_count :: nat
  rdc_control_immediate :: bool

record TcpConfig =
  tcp_io_uring_enabled :: bool
  tcp_port :: u16

record TransportConfig =
  trc_default_protocol :: string
  trc_rdma :: RdmaConfig
  trc_tcp :: TcpConfig

record EbpfConfig =
  ebc_enabled :: bool
  ebc_program_path :: string
  ebc_report_interval_ms :: u64

record TuningConfig =
  tun_numa_node :: int
  tun_operation_timeout_ms :: u64
  tun_memlock_limit :: nat

record PrecisionConfig =
  prc_format_generation :: u8
  prc_sink_window :: nat
  prc_local_window :: nat
  prc_critical_layer_count :: nat
  prc_elevated_pressure_threshold :: f64
  prc_nominal_pressure_threshold :: f64
  prc_critical_pressure_threshold :: f64
  prc_critical_relax_threshold :: f64

record VirthubConfig =
  vc_general :: GeneralConfig
  vc_klnk :: KlnkConfig
  vc_store :: StoreConfig
  vc_master :: MasterConfig
  vc_transport :: TransportConfig
  vc_ebpf :: EbpfConfig
  vc_tuning :: TuningConfig
  vc_precision :: PrecisionConfig

section \<open>Defaults\<close>

definition PrecisionConfig_default :: PrecisionConfig where
  "PrecisionConfig_default =
    \<lparr>prc_format_generation = 1, prc_sink_window = 16, prc_local_window = 64, prc_critical_layer_count = 2,
     prc_elevated_pressure_threshold = Fin (f64_round (78 / 100)),
     prc_nominal_pressure_threshold = Fin (f64_round (70 / 100)),
     prc_critical_pressure_threshold = Fin (f64_round (88 / 100)),
     prc_critical_relax_threshold = Fin (f64_round (82 / 100))\<rparr>"

definition VirthubConfig_default :: VirthubConfig where
  "VirthubConfig_default =
    \<lparr>vc_general =
       \<lparr>gc_log_level = ''info'', gc_control_socket = ''/tmp/virthub_control.sock'',
        gc_data_bind_addr = ''0.0.0.0:19001'', gc_node_id = ''node-1''\<rparr>,
     vc_klnk =
       \<lparr>kc_enable_uffd_move = True, kc_fallback_copy = True, kc_staging_num_pages = 16, kc_huge_page_size = 2097152\<rparr>,
     vc_store =
       \<lparr>sto_tier = \<lparr>tc_l0_enabled = False, tc_l0_device_ids = [0, 1], tc_l1_enabled = True, tc_l2_enabled = False,
                    tc_l2_path = ''/mnt/nvme/virthub_cache''\<rparr>,
        sto_block_size = 2097152\<rparr>,
     vc_master =
       \<lparr>mc_raft = \<lparr>rs_embedded = True, rs_initial_peers = [''node-1'', ''node-2'', ''node-3''],
                   rs_etcd_endpoints = [''http://127.0.0.1:2379'']\<rparr>,
        mc_scheduler = \<lparr>ss_prefetch_window = 8, ss_l0_promote_threshold = 100, ss_l1_demote_idle_secs = 60,
                        ss_lru_decay = Fin (f64_round (8 / 10))\<rparr>,
        mc_sharding = \<lparr>shc_shard_count = 64\<rparr>\<rparr>,
     vc_transport =
       \<lparr>trc_default_protocol = ''rdma'',
        trc_rdma = \<lparr>rdc_device_name = '''', rdc_enable_gdr = False, rdc_rq_prepost_count = 1024,
                    rdc_control_immediate = True\<rparr>,
        trc_tcp = \<lparr>tcp_io_uring_enabled = True, tcp_port = 19002\<rparr>\<rparr>,
     vc_ebpf =
       \<lparr>ebc_enabled = True, ebc_program_path = ''/usr/lib/virthub/stride_tracer.bpf.o'', ebc_report_interval_ms = 100\<rparr>,
     vc_tuning = \<lparr>tun_numa_node = - 1, tun_operation_timeout_ms = 500, tun_memlock_limit = 0\<rparr>,
     vc_precision = PrecisionConfig_default\<rparr>"

section \<open>Loading\<close>

definition load_from_file ::
    "(string \<Rightarrow> ('io, string) result) \<Rightarrow> (string \<Rightarrow> ('te, VirthubConfig) result) \<Rightarrow> string \<Rightarrow>
     (('io, 'te) ConfigError, VirthubConfig) result" where
  "load_from_file read_to_string from_str path =
    (case read_to_string path of
       Inl source \<Rightarrow> Err (ConfigIoError path source)
     | Inr content \<Rightarrow>
         case from_str content of
           Inl source \<Rightarrow> Err (ConfigParseError path source)
         | Inr config \<Rightarrow> Ok config)"

definition load_default ::
    "(string \<Rightarrow> ('io, string) result) \<Rightarrow> (string \<Rightarrow> ('te, VirthubConfig) result) \<Rightarrow> string option \<Rightarrow>
     (('io, 'te) ConfigError, VirthubConfig) result" where
  "load_default read_to_string from_str env_var =
    load_from_file read_to_string from_str (case env_var of Some path \<Rightarrow> path | None \<Rightarrow> ''conf/virthub.toml'')"

definition parsed_node_id :: "VirthubConfig \<Rightarrow> u64" where
  "parsed_node_id c =
    (case parse_u64 (trim_node (gc_node_id (vc_general c))) of Some n \<Rightarrow> n | None \<Rightarrow> 1)"

text \<open>The configuration the daemon starts with: any load error is answered by the defaults.\<close>

definition app_config ::
    "(string \<Rightarrow> ('io, string) result) \<Rightarrow> (string \<Rightarrow> ('te, VirthubConfig) result) \<Rightarrow> string option \<Rightarrow> VirthubConfig" where
  "app_config read_to_string from_str env_var =
    (case load_default read_to_string from_str env_var of Inl _ \<Rightarrow> VirthubConfig_default | Inr c \<Rightarrow> c)"

text \<open>The daemon parses the identifier itself, without removing the prefix.\<close>

definition daemon_node_id :: "VirthubConfig \<Rightarrow> NodeId" where
  "daemon_node_id c = NodeId (case parse_u64 (gc_node_id (vc_general c)) of Some n \<Rightarrow> n | None \<Rightarrow> 1)"

section \<open>Printed numbers are parsed back\<close>

lemma parse_digits_append:
  "parse_digits a (xs @ ys) = Option.bind (parse_digits a xs) (\<lambda>b. parse_digits b ys)"
  by (induction xs arbitrary: a) (simp_all add: Let_def)

lemma show_base_10:
  "show_base 10 n = (if n < 10 then [] else show_base 10 (n div 10)) @ [char_of (48 + n mod 10)]"
  by (subst show_base.simps) simp

lemma digit_parsed: "d < 10 \<Longrightarrow> parse_digits a [char_of (48 + d)] = Some (a * 10 + d)"
  by (simp add: Let_def)

lemma parse_show: "parse_digits 0 (show_base 10 n) = Some n"
proof (induction n rule: less_induct)
  case (less n)
  show ?case
  proof (cases "n < 10")
    case True
    then show ?thesis
      using digit_parsed [of n 0] by (subst show_base_10) simp
  next
    case False
    have "parse_digits 0 (show_base 10 (n div 10)) = Some (n div 10)"
      using False by (intro less.IH) simp
    with False digit_parsed [of "n mod 10" "n div 10"] show ?thesis
      by (subst show_base_10) (simp add: parse_digits_append del: parse_digits.simps)
  qed
qed

lemma show_digits: "c \<in> set (show_base 10 n) \<Longrightarrow> 48 \<le> (of_char c :: nat) \<and> (of_char c :: nat) \<le> 57"
proof (induction n arbitrary: c rule: less_induct)
  case (less n)
  have "c = char_of (48 + n mod 10) \<or> 10 \<le> n \<and> c \<in> set (show_base 10 (n div 10))"
    using less.prems by (subst (asm) show_base_10) (auto split: if_splits)
  then show ?case
    using less.IH [of "n div 10" c] by auto
qed

lemma show_not_Nil: "show_base 10 n \<noteq> []"
  by (subst show_base_10) simp

lemma show_hd_digit: "48 \<le> (of_char (hd (show_base 10 n)) :: nat) \<and> (of_char (hd (show_base 10 n)) :: nat) \<le> 57"
  by (rule show_digits [OF hd_in_set [OF show_not_Nil]])

lemma parse_u64_show:
  assumes "n < 2 ^ 64"
  shows "parse_u64 (show_base 10 n) = Some (of_nat n)"
proof -
  obtain c cs where s: "show_base 10 n = c # cs"
    using show_not_Nil by (cases "show_base 10 n") auto
  have "c \<noteq> CHR ''+''"
    using show_hd_digit [of n] s by auto
  with s assms parse_show [of n] show ?thesis
    by (simp add: parse_u64_def del: parse_digits.simps)
qed

lemma trim_show: "trim_node (show_base 10 n) = show_base 10 n"
proof -
  have "take 5 (show_base 10 n) \<noteq> ''node-''"
    using show_hd_digit [of n] by (cases "show_base 10 n") auto
  then show ?thesis
    by (subst trim_node.simps) simp
qed

lemma trim_prefixed: "trim_node (''node-'' @ s) = trim_node s"
  by (subst trim_node.simps) simp

lemma parse_u64_node: "parse_u64 (''node-'' @ s) = None"
  by (simp add: parse_u64_def Let_def)

lemma load_default_errors:
  "read_to_string path = Err e \<Longrightarrow> load_from_file read_to_string from_str path = Err (ConfigIoError path e)"
  "read_to_string path = Ok content \<Longrightarrow> from_str content = Err e' \<Longrightarrow>
    load_from_file read_to_string from_str path = Err (ConfigParseError path e')"
  by (simp_all add: load_from_file_def)

section \<open>Properties\<close>

text \<open>
  The identity of a node.  For every number below \<open>2 ^ 64\<close>, a configuration that
  names the node by the number or by the number behind the documented prefix \<open>node-\<close> gives
  that number as the parsed identifier.  The daemon does not use this function: it takes
  the plain number, and with the prefix it runs as node 1 whatever the number is, so any
  two nodes of a cluster named in the documented way have the same identity.
\<close>

theorem configured_node_identity:
  assumes "n < 2 ^ 64"
  shows "(gc_node_id (vc_general c) = show_base 10 n \<longrightarrow>
      parsed_node_id c = of_nat n \<and> daemon_node_id c = NodeId (of_nat n)) \<and>
    (gc_node_id (vc_general c) = ''node-'' @ show_base 10 n \<longrightarrow>
      parsed_node_id c = of_nat n \<and> daemon_node_id c = NodeId 1)"
  using parse_u64_show [OF assms] trim_prefixed [of "show_base 10 n"] parse_u64_node [of "show_base 10 n"]
  by (simp add: parsed_node_id_def daemon_node_id_def trim_show)

definition named :: "string \<Rightarrow> VirthubConfig" where
  "named s = VirthubConfig_default\<lparr>vc_general := (vc_general VirthubConfig_default)\<lparr>gc_node_id := s\<rparr>\<rparr>"

theorem configured_node_identity_witness:
  "parsed_node_id (named ''node-7'') = 7 \<and> daemon_node_id (named ''node-7'') = NodeId 1 \<and>
    parsed_node_id (named ''7'') = 7 \<and> daemon_node_id (named ''7'') = NodeId 7"
proof -
  have s: "show_base 10 7 = ''7''"
    by code_simp
  show ?thesis
    using configured_node_identity [of 7 "named ''node-7''"] configured_node_identity [of 7 "named ''7''"]
    by (simp add: s named_def)
qed

end
