(* ===== verification/Invalidation.thy ===== *)
theory Invalidation
  imports Control_Plane
begin

text \<open>
  The invalidation ring of the daemon, from \<open>src/klnk/klnk-daemon/src/invalidation.rs\<close>:
  remote writers take a ticket by advancing the tail with a compare-and-swap and then fill
  the entry of their ticket, the local poller consumes filled entries in ticket order and
  invalidates the pages they name.  The buffer memory is the two indices and the array of
  four-word entries; allocation and the RDMA registration of the memory are not modelled.
\<close>

section \<open>The buffer\<close>

definition ENTRY_SIZE :: nat where "ENTRY_SIZE = 32"
definition NUM_ENTRIES :: nat where "NUM_ENTRIES = 1024"
definition INVAL_BUFFER_SIZE :: nat where "INVAL_BUFFER_SIZE = 16 + NUM_ENTRIES * ENTRY_SIZE"

type_synonym inval_entry = "u64 \<times> u64 \<times> u64 \<times> u64"
type_synonym inval_msg = "u64 \<times> u64 \<times> u64"

record InvalidationBuffer =
  ib_head :: u64
  ib_tail :: u64
  ib_entries :: "inval_entry list"

definition InvalidationBuffer_new :: InvalidationBuffer where
  "InvalidationBuffer_new = \<lparr>ib_head = 0, ib_tail = 0, ib_entries = replicate NUM_ENTRIES (0, 0, 0, 0)\<rparr>"

definition set_head :: "u64 \<Rightarrow> InvalidationBuffer \<Rightarrow> InvalidationBuffer" where
  "set_head h b = b\<lparr>ib_head := h\<rparr>"

definition advance_tail_atomic :: "u64 \<Rightarrow> u64 \<Rightarrow> InvalidationBuffer \<Rightarrow> (u64, u64) result \<times> InvalidationBuffer" where
  "advance_tail_atomic expected new_val b =
    (if ib_tail b = expected then (Ok expected, b\<lparr>ib_tail := new_val\<rparr>) else (Err (ib_tail b), b))"

definition entry_slot :: "u64 \<Rightarrow> nat" where
  "entry_slot idx = unat (idx mod of_nat NUM_ENTRIES)"

definition read_entry_raw :: "u64 \<Rightarrow> InvalidationBuffer \<Rightarrow> inval_entry" where
  "read_entry_raw idx b = ib_entries b ! entry_slot idx"

definition write_entry_raw :: "u64 \<Rightarrow> inval_entry \<Rightarrow> InvalidationBuffer \<Rightarrow> InvalidationBuffer" where
  "write_entry_raw idx e b = b\<lparr>ib_entries := (ib_entries b)[entry_slot idx := e]\<rparr>"

text \<open>The consuming loop; the callback is a state transformer with a success flag.\<close>

function process_loop ::
    "(inval_msg \<Rightarrow> 's \<Rightarrow> bool \<times> 's) \<Rightarrow> u64 \<Rightarrow> u64 \<Rightarrow> nat \<Rightarrow> InvalidationBuffer \<Rightarrow> 's \<Rightarrow>
     nat \<times> u64 \<times> InvalidationBuffer \<times> 's" where
  "process_loop callback tail idx processed b s =
    (if idx < tail
     then
       let (valid, vaddr, version, page_size) = read_entry_raw idx b
       in if valid = 0 then (processed, idx, b, s)
          else
            let (ok, s') = callback (vaddr, version, page_size) s
            in if ok
               then process_loop callback tail (idx + 1) (processed + 1) (write_entry_raw idx (0, 0, 0, 0) b) s'
               else (processed, idx, b, s')
     else (processed, idx, b, s))"
  by pat_completeness auto
termination
proof (relation "measure (\<lambda>(f, tail, idx, p, b, s). unat tail - unat idx)")
  fix tail idx :: u64
  assume "idx < tail"
  then have "unat (idx + 1) = unat idx + 1"
    using unsigned_less [of tail, where ?'a = nat] by (intro unat_add_one_less) (simp add: word_less_nat_alt)
  with \<open>idx < tail\<close> have "unat tail - unat (idx + 1) < unat tail - unat idx"
    by (simp add: word_less_nat_alt)
  then show "((f', tail, idx + 1, p', b', s'), (f, tail, idx, p, b, s)) \<in>
      measure (\<lambda>(f, tail, idx, p, b, s). unat tail - unat idx)" for f' f :: "inval_msg \<Rightarrow> 's \<Rightarrow> bool \<times> 's"
      and p' p b' b s' s
    by simp
qed simp

declare process_loop.simps [simp del]

definition process_pending ::
    "(inval_msg \<Rightarrow> 's \<Rightarrow> bool \<times> 's) \<Rightarrow> InvalidationBuffer \<Rightarrow> 's \<Rightarrow> nat \<times> InvalidationBuffer \<times> 's" where
  "process_pending callback b s =
    (let (processed, idx, b', s') = process_loop callback (ib_tail b) (ib_head b) 0 b s
     in (processed, if processed > 0 then set_head idx b' else b', s'))"

definition write_entry :: "inval_msg \<Rightarrow> InvalidationBuffer \<Rightarrow> bool \<times> InvalidationBuffer" where
  "write_entry m b =
    (let tail = ib_tail b
     in if tail - ib_head b \<ge> of_nat NUM_ENTRIES then (False, b)
        else (True, (write_entry_raw tail (1, m) b)\<lparr>ib_tail := tail + 1\<rparr>))"

section \<open>The poller\<close>

definition invalidate_page :: "inval_msg \<Rightarrow> 'addr cp \<Rightarrow> bool \<times> 'addr cp" where
  "invalidate_page = (\<lambda>(vaddr, new_version, page_size) cp.
     case lookup_page_state vaddr cp of
       Some entry \<Rightarrow>
         if pe_primary_owner entry \<noteq> cp_local_node_id cp
         then
           let cp1 = snd (update_page_state vaddr Invalid (pe_primary_owner entry) cp);
               cp2 = snd (remove_reader vaddr (cp_local_node_id cp) cp1)
           in (True, cp2)
         else (False, cp)
     | None \<Rightarrow> (False, cp))"

text \<open>One turn of the polling loop.\<close>

definition poll_round :: "'addr cp \<times> InvalidationBuffer \<Rightarrow> nat \<times> 'addr cp \<times> InvalidationBuffer" where
  "poll_round = (\<lambda>(cp, b).
     if ib_tail b > ib_head b
     then let (processed, b', cp') = process_pending invalidate_page b cp in (processed, cp', b')
     else (0, cp, b))"

section \<open>Abstraction to a queue of tickets\<close>

definition msg_of :: "inval_entry \<Rightarrow> inval_msg option" where
  "msg_of e = (if fst e = 0 then None else Some (snd e))"

definition ticket :: "InvalidationBuffer \<Rightarrow> nat \<Rightarrow> inval_msg option" where
  "ticket b i = msg_of (ib_entries b ! (i mod NUM_ENTRIES))"

definition ring_abs :: "InvalidationBuffer \<Rightarrow> inval_msg option list" where
  "ring_abs b = map (ticket b) [unat (ib_head b) ..< unat (ib_tail b)]"

definition ring_inv :: "InvalidationBuffer \<Rightarrow> bool" where
  "ring_inv b \<longleftrightarrow> length (ib_entries b) = NUM_ENTRIES \<and> ib_head b \<le> ib_tail b \<and>
     unat (ib_tail b) - unat (ib_head b) \<le> NUM_ENTRIES \<and>
     (\<forall>i \<in> {unat (ib_tail b) ..< unat (ib_head b) + NUM_ENTRIES}. ticket b i = None)"

text \<open>What consuming should do: take accepted messages from the front, stop at a gap or a refusal.\<close>

fun drain :: "(inval_msg \<Rightarrow> 's \<Rightarrow> bool \<times> 's) \<Rightarrow> inval_msg option list \<Rightarrow> 's \<Rightarrow> nat \<times> inval_msg option list \<times> 's" where
  "drain f (Some m # q) s =
    (let (ok, s') = f m s
     in if ok then (let (n, q', s'') = drain f q s' in (Suc n, q', s'')) else (0, Some m # q, s'))"
| "drain f q s = (0, q, s)"

lemma entry_slot_mod: "entry_slot idx = unat idx mod NUM_ENTRIES"
  by (simp add: entry_slot_def unat_mod NUM_ENTRIES_def)

lemma read_entry_ticket: "msg_of (read_entry_raw idx b) = ticket b (unat idx)"
  by (simp add: read_entry_raw_def ticket_def entry_slot_mod)

lemma mod_inj_below:
  fixes i j n :: nat
  assumes "i mod n = j mod n" "i \<le> j" "j - i < n"
  shows "i = j"
proof -
  have "n dvd j - i"
    using mod_eq_dvd_iff_nat [OF assms(2), of n] assms(1) by metis
  with assms(3) have "j - i = 0"
    using dvd_imp_le [of n "j - i"] by linarith
  with assms(2) show ?thesis
    by simp
qed

lemma slot_inj:
  assumes "i mod NUM_ENTRIES = j mod NUM_ENTRIES" "h \<le> i" "i < h + NUM_ENTRIES" "h \<le> j" "j < h + NUM_ENTRIES"
  shows "i = j"
proof (cases "i \<le> j")
  case True
  then show ?thesis
    using mod_inj_below [OF assms(1)] assms(2,5) by linarith
next
  case False
  then show ?thesis
    using mod_inj_below [OF assms(1) [symmetric]] assms(3,4) by linarith
qed

lemma ticket_write:
  assumes "length (ib_entries b) = NUM_ENTRIES"
  shows "ticket (write_entry_raw idx e b) i =
    (if i mod NUM_ENTRIES = unat idx mod NUM_ENTRIES then msg_of e else ticket b i)"
proof -
  have "unat idx mod NUM_ENTRIES < NUM_ENTRIES"
    by (simp add: NUM_ENTRIES_def)
  with assms show ?thesis
    by (simp add: ticket_def write_entry_raw_def entry_slot_mod nth_list_update)
qed

lemma write_entry_raw_simps [simp]:
  "ib_head (write_entry_raw idx e b) = ib_head b" "ib_tail (write_entry_raw idx e b) = ib_tail b"
  "length (ib_entries (write_entry_raw idx e b)) = length (ib_entries b)"
  by (simp_all add: write_entry_raw_def)

text \<open>The buffer \<open>b'\<close> is \<open>b\<close> with the tickets \<open>i ..< j\<close> cleared.\<close>

definition cleared :: "nat \<Rightarrow> nat \<Rightarrow> InvalidationBuffer \<Rightarrow> InvalidationBuffer \<Rightarrow> bool" where
  "cleared i j b b' \<longleftrightarrow> ib_head b' = ib_head b \<and> ib_tail b' = ib_tail b \<and>
     length (ib_entries b') = length (ib_entries b) \<and>
     (\<forall>k. ticket b' k = (if \<exists>l \<in> {i ..< j}. k mod NUM_ENTRIES = l mod NUM_ENTRIES then None else ticket b k))"

lemma cleared_refl: "cleared i i b b"
  by (simp add: cleared_def)

lemma cleared_step:
  assumes "length (ib_entries b) = NUM_ENTRIES" "cleared (Suc (unat idx)) j (write_entry_raw idx (0, 0, 0, 0) b) b'"
    and "unat idx < j"
  shows "cleared (unat idx) j b b'"
proof -
  have "{unat idx ..< j} = insert (unat idx) {Suc (unat idx) ..< j}"
    using assms(3) by auto
  then have "(\<exists>l \<in> {unat idx ..< j}. k mod NUM_ENTRIES = l mod NUM_ENTRIES) \<longleftrightarrow>
      k mod NUM_ENTRIES = unat idx mod NUM_ENTRIES \<or> (\<exists>l \<in> {Suc (unat idx) ..< j}. k mod NUM_ENTRIES = l mod NUM_ENTRIES)" for k
    by simp
  with assms(1,2) show ?thesis
    unfolding cleared_def by (simp add: ticket_write msg_of_def)
qed

lemma process_loop_drain:
  assumes "length (ib_entries b) = NUM_ENTRIES" "unat tail - unat idx \<le> NUM_ENTRIES" "idx \<le> tail"
  shows "\<exists>n idx' b' s'. process_loop f tail idx p b s = (p + n, idx', b', s') \<and>
    drain f (map (ticket b) [unat idx ..< unat tail]) s = (n, map (ticket b') [unat idx' ..< unat tail], s') \<and>
    unat idx' = unat idx + n \<and> idx' \<le> tail \<and> cleared (unat idx) (unat idx') b b'"
  using assms
proof (induction "unat tail - unat idx" arbitrary: idx p b s rule: less_induct)
  case less
  show ?case
  proof (cases "idx < tail")
    case False
    with less.prems(3) have "idx = tail"
      by simp
    then show ?thesis
      by (subst process_loop.simps) (simp add: cleared_refl)
  next
    case True
    have up: "[unat idx ..< unat tail] = unat idx # [Suc (unat idx) ..< unat tail]"
      using True by (simp add: upt_conv_Cons word_less_nat_alt)
    obtain valid m where e: "read_entry_raw idx b = (valid, m)"
      by (cases "read_entry_raw idx b")
    obtain vaddr version psize where m: "m = (vaddr, version, psize)"
      by (cases m)
    note step = process_loop.simps [of f tail idx p b s]
    show ?thesis
    proof (cases "valid = 0")
      case v0: True
      then have "ticket b (unat idx) = None"
        using read_entry_ticket [of idx b] e by (simp add: msg_of_def)
      then show ?thesis
        using True v0 e m by (intro exI [of _ 0] exI [of _ idx] exI [of _ b] exI [of _ s]) (simp add: step up cleared_refl)
    next
      case v: False
      then have tk: "ticket b (unat idx) = Some m"
        using read_entry_ticket [of idx b] e by (simp add: msg_of_def)
      obtain ok s1 where fm: "f m s = (ok, s1)"
        by (cases "f m s")
      show ?thesis
      proof (cases ok)
        case False
        then show ?thesis
          using True v e m tk fm
          by (intro exI [of _ 0] exI [of _ idx] exI [of _ b] exI [of _ s1]) (simp add: step up cleared_refl)
      next
        case ok: True
        let ?b = "write_entry_raw idx (0, 0, 0, 0) b"
        have idx1: "unat (idx + 1) = Suc (unat idx)" "idx + 1 \<le> tail"
          using True unsigned_less [of tail, where ?'a = nat] unat_add_one_less [of idx]
          by (auto simp: word_less_nat_alt word_le_nat_alt)
        have same: "map (ticket ?b) [Suc (unat idx) ..< unat tail] = map (ticket b) [Suc (unat idx) ..< unat tail]"
        proof (rule map_cong [OF refl])
          fix k
          assume "k \<in> set [Suc (unat idx) ..< unat tail]"
          then have "unat idx < k" "k - unat idx < NUM_ENTRIES"
            using less.prems(2) by auto
          then show "ticket ?b k = ticket b k"
            using mod_inj_below [of "unat idx" NUM_ENTRIES k] by (auto simp: ticket_write [OF less.prems(1)])
        qed
        have lt: "unat tail - unat (idx + 1) < unat tail - unat idx"
          using True idx1(1) by (simp add: word_less_nat_alt)
        have len: "length (ib_entries ?b) = NUM_ENTRIES" and room: "unat tail - unat (idx + 1) \<le> NUM_ENTRIES"
          using less.prems(1,2) lt by simp_all
        obtain n idx' b' s' where ih: "process_loop f tail (idx + 1) (p + 1) ?b s1 = (p + 1 + n, idx', b', s')"
          "drain f (map (ticket b) [Suc (unat idx) ..< unat tail]) s1 = (n, map (ticket b') [unat idx' ..< unat tail], s')"
          "unat idx' = Suc (unat idx) + n" "idx' \<le> tail" "cleared (Suc (unat idx)) (unat idx') ?b b'"
          using less.hyps [OF lt len room idx1(2), of "p + 1" s1] unfolding idx1(1) same by blast
        have "cleared (unat idx) (unat idx') b b'"
          using cleared_step [OF less.prems(1) ih(5)] ih(3) by simp
        moreover have "process_loop f tail idx p b s = (p + Suc n, idx', b', s')"
          unfolding step using True v e m fm ok ih(1) by simp
        moreover have "drain f (map (ticket b) [unat idx ..< unat tail]) s =
            (Suc n, map (ticket b') [unat idx' ..< unat tail], s')"
          unfolding up using tk fm ok ih(2) by simp
        ultimately show ?thesis
          using ih(3,4) by (metis add_Suc_shift)
      qed
    qed
  qed
qed

section \<open>Refinement of the queue operations\<close>

lemma ticket_set_head [simp]: "ticket (set_head h b) = ticket b" "ticket (b\<lparr>ib_tail := t\<rparr>) = ticket b"
  by (simp_all add: fun_eq_iff ticket_def set_head_def)

lemma set_head_simps [simp]:
  "ib_head (set_head h b) = h" "ib_tail (set_head h b) = ib_tail b" "ib_entries (set_head h b) = ib_entries b"
  by (simp_all add: set_head_def)

lemma length_ring_abs: "length (ring_abs b) = unat (ib_tail b) - unat (ib_head b)"
  by (simp add: ring_abs_def)

lemma cleared_inv:
  assumes "ring_inv b" "cleared (unat (ib_head b)) (unat idx) b b'" "ib_head b \<le> idx" "idx \<le> ib_tail b"
  shows "ring_inv (set_head idx b')"
proof -
  have tail: "ib_tail b' = ib_tail b" and len: "length (ib_entries b') = NUM_ENTRIES"
    using assms(1,2) by (auto simp: cleared_def ring_inv_def)
  have "ticket b' i = None" if i: "unat (ib_tail b) \<le> i" "i < unat idx + NUM_ENTRIES" for i
  proof (cases "i < unat (ib_head b) + NUM_ENTRIES")
    case True
    then have "ticket b i = None"
      using assms(1) i(1) by (simp add: ring_inv_def)
    with assms(2) show ?thesis
      by (simp add: cleared_def)
  next
    case False
    then have "i - NUM_ENTRIES \<in> {unat (ib_head b) ..< unat idx}" "i mod NUM_ENTRIES = (i - NUM_ENTRIES) mod NUM_ENTRIES"
      using i(2) by (auto simp: le_mod_geq)
    with assms(2) show ?thesis
      unfolding cleared_def by metis
  qed
  moreover have "unat (ib_tail b) - unat idx \<le> NUM_ENTRIES"
    using assms(1,3) by (auto simp: ring_inv_def word_le_nat_alt)
  ultimately show ?thesis
    using assms(4) tail len by (auto simp: ring_inv_def)
qed

lemma process_pending_refines:
  assumes "ring_inv b"
  shows "\<exists>n b' s'. process_pending f b s = (n, b', s') \<and> ring_inv b' \<and> drain f (ring_abs b) s = (n, ring_abs b', s')"
proof -
  have len: "length (ib_entries b) = NUM_ENTRIES" "unat (ib_tail b) - unat (ib_head b) \<le> NUM_ENTRIES" "ib_head b \<le> ib_tail b"
    using assms by (simp_all add: ring_inv_def)
  obtain n idx b' s' where r: "process_loop f (ib_tail b) (ib_head b) 0 b s = (n, idx, b', s')"
    "drain f (map (ticket b) [unat (ib_head b) ..< unat (ib_tail b)]) s = (n, map (ticket b') [unat idx ..< unat (ib_tail b)], s')"
    "unat idx = unat (ib_head b) + n" "idx \<le> ib_tail b" "cleared (unat (ib_head b)) (unat idx) b b'"
    using process_loop_drain [OF len, of f 0 s] by auto
  have tail: "ib_tail b' = ib_tail b" "ib_head b' = ib_head b"
    using r(5) by (simp_all add: cleared_def)
  have "ib_head b \<le> idx"
    using r(3) by (simp add: word_le_nat_alt)
  then have inv: "ring_inv (set_head idx b')"
    using cleared_inv [OF assms r(5)] r(4) by blast
  have abs: "ring_abs (set_head idx b') = map (ticket b') [unat idx ..< unat (ib_tail b)]"
    by (simp add: ring_abs_def tail)
  have same: "(if n > 0 then set_head idx b' else b') = set_head idx b'"
    using r(3) tail(2) by (auto simp: set_head_def word_unat_eq_iff)
  show ?thesis
    using r(1,2) inv abs same unfolding process_pending_def ring_abs_def [of b] by (auto simp: Let_def)
qed

lemma ring_append:
  assumes "ring_inv b" "length (ring_abs b) < NUM_ENTRIES" "unat (ib_tail b) + 1 < 2 ^ 64"
    and "ticket b' (unat (ib_tail b)) = x" "\<And>i. i mod NUM_ENTRIES \<noteq> unat (ib_tail b) mod NUM_ENTRIES \<Longrightarrow> ticket b' i = ticket b i"
    and "ib_head b' = ib_head b" "ib_tail b' = ib_tail b + 1" "length (ib_entries b') = length (ib_entries b)"
  shows "ring_inv b' \<and> ring_abs b' = ring_abs b @ [x]"
proof -
  let ?h = "unat (ib_head b)" and ?t = "unat (ib_tail b)"
  have t: "unat (ib_tail b + 1) = Suc ?t"
    using assms(3) unat_add_one_less [of "ib_tail b"] by simp
  have le: "?h \<le> ?t" "?t < ?h + NUM_ENTRIES"
    using assms(1,2) by (auto simp: ring_inv_def word_le_nat_alt length_ring_abs)
  have other: "ticket b' i = ticket b i" if "?h \<le> i" "i < ?h + NUM_ENTRIES" "i \<noteq> ?t" for i
    using assms(5) slot_inj [of i ?t ?h] that le by blast
  have "map (ticket b') [?h ..< ?t] = map (ticket b) [?h ..< ?t]"
    by (rule map_cong [OF refl]) (use other le in auto)
  then have "ring_abs b' = ring_abs b @ [x]"
    using le t assms(4,6,7) by (simp add: ring_abs_def)
  moreover have "ring_inv b'"
  proof -
    have "ticket b' i = None" if "i \<in> {Suc ?t ..< ?h + NUM_ENTRIES}" for i
      using that other [of i] assms(1) le by (auto simp: ring_inv_def)
    moreover have "ib_head b \<le> ib_tail b + 1" "unat (ib_tail b + 1) - ?h \<le> NUM_ENTRIES"
      using le t by (simp_all add: word_le_nat_alt)
    ultimately show ?thesis
      using assms(1) t unfolding ring_inv_def by (simp add: assms(6-8))
  qed
  ultimately show ?thesis
    by blast
qed

lemma advance_tail_refines:
  assumes "ring_inv b" "length (ring_abs b) < NUM_ENTRIES" "unat (ib_tail b) + 1 < 2 ^ 64"
  shows "let b' = snd (advance_tail_atomic (ib_tail b) (ib_tail b + 1) b) in ring_inv b' \<and> ring_abs b' = ring_abs b @ [None]"
proof -
  have "unat (ib_tail b) < unat (ib_head b) + NUM_ENTRIES"
    using assms(1,2) by (auto simp: ring_inv_def word_le_nat_alt length_ring_abs)
  then have "ticket b (unat (ib_tail b)) = None"
    using assms(1) by (simp add: ring_inv_def)
  with ring_append [OF assms, of "b\<lparr>ib_tail := ib_tail b + 1\<rparr>" None] show ?thesis
    by (simp add: advance_tail_atomic_def)
qed

lemma write_entry_refines:
  assumes "ring_inv b" "unat (ib_tail b) + 1 < 2 ^ 64"
  shows "if length (ring_abs b) < NUM_ENTRIES
    then \<exists>b'. write_entry m b = (True, b') \<and> ring_inv b' \<and> ring_abs b' = ring_abs b @ [Some m]
    else write_entry m b = (False, b)"
proof -
  have len: "length (ib_entries b) = NUM_ENTRIES" "ib_head b \<le> ib_tail b"
    using assms(1) by (simp_all add: ring_inv_def)
  have "(ib_tail b - ib_head b \<ge> of_nat NUM_ENTRIES) \<longleftrightarrow> \<not> length (ring_abs b) < NUM_ENTRIES"
    using len(2) by (simp add: word_le_nat_alt unat_sub length_ring_abs NUM_ENTRIES_def not_less)
  moreover have "ring_inv b' \<and> ring_abs b' = ring_abs b @ [Some m]"
    if "length (ring_abs b) < NUM_ENTRIES" "b' = (write_entry_raw (ib_tail b) (1, m) b)\<lparr>ib_tail := ib_tail b + 1\<rparr>" for b'
    unfolding that(2) by (rule ring_append [OF assms(1) that(1) assms(2)]) (simp_all add: ticket_write len(1) msg_of_def)
  ultimately show ?thesis
    by (auto simp: write_entry_def Let_def)
qed

lemma fill_refines:
  assumes "ring_inv b" "ib_head b \<le> idx" "idx < ib_tail b" "v \<noteq> 0"
  shows "let b' = write_entry_raw idx (v, m) b
    in ring_inv b' \<and> ring_abs b' = (ring_abs b)[unat idx - unat (ib_head b) := Some m]"
proof -
  let ?h = "unat (ib_head b)" and ?t = "unat (ib_tail b)" and ?b = "write_entry_raw idx (v, m) b"
  have le: "?h \<le> unat idx" "unat idx < ?t" "?t \<le> ?h + NUM_ENTRIES" and len: "length (ib_entries b) = NUM_ENTRIES"
    using assms(1-3) by (auto simp: ring_inv_def word_le_nat_alt word_less_nat_alt)
  have tk: "ticket ?b i = (if i = unat idx then Some m else ticket b i)" if "?h \<le> i" "i < ?h + NUM_ENTRIES" for i
    using slot_inj [of i "unat idx" ?h] that le assms(4) ticket_write [OF len, of idx "(v, m)" i] by (auto simp: msg_of_def)
  have "ring_abs ?b = (ring_abs b)[unat idx - ?h := Some m]"
    using le tk by (intro nth_equalityI) (auto simp: ring_abs_def nth_list_update)
  moreover have "ring_inv ?b"
    using assms(1) le tk unfolding ring_inv_def by auto
  ultimately show ?thesis
    by (simp add: Let_def)
qed

lemma ring_inv_new: "ring_inv InvalidationBuffer_new" "ring_abs InvalidationBuffer_new = []"
  by (simp_all add: ring_inv_def ring_abs_def InvalidationBuffer_new_def ticket_def msg_of_def NUM_ENTRIES_def)

section \<open>The poller\<close>

definition invalidated :: "NodeId \<Rightarrow> DistributedPageEntry \<Rightarrow> DistributedPageEntry" where
  "invalidated local_node e =
    e\<lparr>pe_coherence_state := Invalid, pe_replica_holders := filter (\<lambda>n. n \<noteq> local_node) (pe_replica_holders e)\<rparr>"

lemma invalidate_page_known:
  assumes "cp_page_states cp v = Some e" "pe_primary_owner e \<noteq> cp_local_node_id cp"
  shows "invalidate_page (v, ver, sz) cp =
    (True, cp\<lparr>cp_page_states := (cp_page_states cp)(v \<mapsto> invalidated (cp_local_node_id cp) e)\<rparr>)"
  using assms by (simp add: invalidate_page_def lookup_page_state_def update_page_state_def remove_reader_def
      modify_page_def invalidated_def Let_def)

lemma drain_invalidates:
  assumes "\<forall>m \<in> set ms. \<exists>e. cp_page_states cp (fst m) = Some e \<and> pe_primary_owner e \<noteq> cp_local_node_id cp"
  shows "\<exists>cp'. drain invalidate_page (map Some ms) cp = (length ms, [], cp') \<and>
    (\<forall>v. cp_page_states cp' v = (if v \<in> fst ` set ms then map_option (invalidated (cp_local_node_id cp)) (cp_page_states cp v)
      else cp_page_states cp v))"
  using assms
proof (induction ms arbitrary: cp)
  case (Cons m ms)
  obtain v ver sz where m: "m = (v, ver, sz)"
    by (cases m)
  from Cons.prems m obtain e where e: "cp_page_states cp v = Some e" "pe_primary_owner e \<noteq> cp_local_node_id cp"
    by auto
  let ?l = "cp_local_node_id cp"
  let ?cp = "cp\<lparr>cp_page_states := (cp_page_states cp)(v \<mapsto> invalidated ?l e)\<rparr>"
  have "\<forall>m \<in> set ms. \<exists>e. cp_page_states ?cp (fst m) = Some e \<and> pe_primary_owner e \<noteq> cp_local_node_id ?cp"
    using Cons.prems e by (auto simp: invalidated_def)
  from Cons.IH [OF this] obtain cp' where cp': "drain invalidate_page (map Some ms) ?cp = (length ms, [], cp')"
    "\<forall>u. cp_page_states cp' u = (if u \<in> fst ` set ms then map_option (invalidated ?l) (cp_page_states ?cp u)
      else cp_page_states ?cp u)"
    by auto
  have "invalidated ?l (invalidated ?l e) = invalidated ?l e"
    by (simp add: invalidated_def)
  then have "cp_page_states cp' u = (if u \<in> fst ` set (m # ms) then map_option (invalidated ?l) (cp_page_states cp u)
      else cp_page_states cp u)" for u
    using cp'(2) e(1) m by auto
  with cp'(1) invalidate_page_known [OF e, of ver sz] m show ?case
    by simp
qed simp

section \<open>Properties\<close>

text \<open>
  C6: the ring is a queue of tickets.  Under the ring invariant, which a fresh buffer
  has, advancing the tail of a ring that is not full appends an empty ticket, filling the
  entry of an outstanding ticket, in any order, puts the message at that ticket's place,
  and consuming always terminates and does what consuming the queue from the front does:
  it hands messages to the callback in ticket order, each once, and stops at the first
  ticket that is not filled or whose message the callback refuses.  Every step keeps the
  invariant.
\<close>

theorem inval_ring_refines_queue:
  assumes "ring_inv b"
  shows "(\<exists>n b' s'. process_pending f b s = (n, b', s') \<and> ring_inv b' \<and>
      drain f (ring_abs b) s = (n, ring_abs b', s')) \<and>
    (length (ring_abs b) < NUM_ENTRIES \<and> unat (ib_tail b) + 1 < 2 ^ 64 \<longrightarrow>
      (let b' = snd (advance_tail_atomic (ib_tail b) (ib_tail b + 1) b)
       in ring_inv b' \<and> ring_abs b' = ring_abs b @ [None])) \<and>
    (ib_head b \<le> idx \<and> idx < ib_tail b \<and> v \<noteq> 0 \<longrightarrow>
      (let b' = write_entry_raw idx (v, m) b
       in ring_inv b' \<and> ring_abs b' = (ring_abs b)[unat idx - unat (ib_head b) := Some m]))"
  using process_pending_refines [OF assms, of f s] advance_tail_refines [OF assms] fill_refines [OF assms, of idx v m]
  by blast

theorem inval_ring_refines_queue_witness:
  "\<exists>b n b' s'. ring_abs b = [Some (4096, 1, 4096), Some (8192, 1, 4096)] \<and>
     process_pending (\<lambda>m seen. (fst m = 4096, seen @ [m])) b [] = (n, b', s') \<and> n = 1 \<and>
     ring_abs b' = [Some (8192, 1, 4096)] \<and> s' = [(4096, 1, 4096), (8192, 1, 4096)]"
proof -
  let ?f = "\<lambda>(m :: inval_msg) seen. (fst m = 4096, seen @ [m])"
  obtain b1 where b1: "ring_inv b1" "ring_abs b1 = [Some (4096, 1, 4096)]" "ib_tail b1 = 1"
    using write_entry_refines [OF ring_inv_new(1), of "(4096, 1, 4096)"] ring_inv_new(2)
    by (auto simp: write_entry_def InvalidationBuffer_new_def NUM_ENTRIES_def Let_def)
  obtain b where b: "ring_inv b" "ring_abs b = [Some (4096, 1, 4096), Some (8192, 1, 4096)]"
    using write_entry_refines [OF b1(1), of "(8192, 1, 4096)"] b1(2,3) by (auto simp: NUM_ENTRIES_def)
  from inval_ring_refines_queue [OF b(1), of ?f "[]"] obtain n b' s' where
    "process_pending ?f b [] = (n, b', s')" "drain ?f (ring_abs b) [] = (n, ring_abs b', s')"
    by blast
  with b(2) show ?thesis
    by auto
qed

text \<open>
  C30: one polling round applies all pending invalidations.  When every ticket is filled
  and names a page that is known and owned by another node, one round empties the ring,
  marks each named page invalid and drops the local node from its readers, without
  touching versions, owners or any other page.
\<close>

theorem poller_applies_invalidations:
  assumes "ring_inv b" "ring_abs b = map Some ms" "ms \<noteq> []"
    and "\<forall>m \<in> set ms. \<exists>e. lookup_page_state (fst m) cp = Some e \<and> pe_primary_owner e \<noteq> cp_local_node_id cp"
  shows "\<exists>cp' b'. poll_round (cp, b) = (length ms, cp', b') \<and> ring_abs b' = [] \<and>
    (\<forall>v. lookup_page_state v cp' =
      (if v \<in> fst ` set ms
       then map_option (\<lambda>e. e\<lparr>pe_coherence_state := Invalid,
              pe_replica_holders := filter (\<lambda>n. n \<noteq> cp_local_node_id cp) (pe_replica_holders e)\<rparr>) (lookup_page_state v cp)
       else lookup_page_state v cp))"
proof -
  have "0 < length (ring_abs b)"
    using assms(2,3) by simp
  then have lt: "ib_head b < ib_tail b"
    by (simp add: length_ring_abs word_less_nat_alt)
  obtain n b' cp' where r: "process_pending invalidate_page b cp = (n, b', cp')"
    "drain invalidate_page (map Some ms) cp = (n, ring_abs b', cp')"
    using process_pending_refines [OF assms(1), of invalidate_page cp] assms(2) by auto
  from drain_invalidates [of ms cp] assms(4) r(2)
  have "n = length ms" "ring_abs b' = []"
    "\<forall>v. cp_page_states cp' v = (if v \<in> fst ` set ms then map_option (invalidated (cp_local_node_id cp)) (cp_page_states cp v)
      else cp_page_states cp v)"
    by (auto simp: lookup_page_state_def)
  with lt r(1) show ?thesis
    by (auto simp: poll_round_def lookup_page_state_def invalidated_def [abs_def])
qed

theorem poller_applies_invalidations_witness:
  "\<exists>(cp :: unit cp) b cp' b'. ring_abs b = [Some (4096, 1, 4096)] \<and> poll_round (cp, b) = (1, cp', b') \<and> ring_abs b' = []"
proof -
  let ?cp = "(ControlPlane_new (NodeId 1) :: unit cp)\<lparr>cp_page_states := [4096 \<mapsto> PageEntry_new 4096 4096 (NodeId 2)]\<rparr>"
  obtain b where b: "ring_inv b" "ring_abs b = map Some [(4096, 1, 4096)]"
    using write_entry_refines [OF ring_inv_new(1), of "(4096, 1, 4096)"] ring_inv_new(2)
    by (auto simp: write_entry_def InvalidationBuffer_new_def NUM_ENTRIES_def Let_def)
  have "\<forall>m \<in> set [(4096 :: u64, 1 :: u64, 4096 :: u64)].
      \<exists>e. lookup_page_state (fst m) ?cp = Some e \<and> pe_primary_owner e \<noteq> cp_local_node_id ?cp"
    by (simp add: lookup_page_state_def PageEntry_new_def ControlPlane_new_def)
  from poller_applies_invalidations [OF b _ this] b(2) show ?thesis
    by fastforce
qed

text \<open>
  One refused message blocks the ring for good.  If the first pending message names
  a page that the control plane does not know or that the local node owns, polling rounds
  change nothing, however many there are: the message stays at the head and the ones
  behind it are never applied.
\<close>

theorem poller_head_of_line_blocking:
  assumes "ring_inv b" "ring_abs b = Some (v, ver, sz) # q"
    and "\<forall>e. lookup_page_state v cp = Some e \<longrightarrow> pe_primary_owner e = cp_local_node_id cp"
  shows "((snd \<circ> poll_round) ^^ k) (cp, b) = (cp, b)"
proof -
  have "0 < length (ring_abs b)"
    using assms(2) by simp
  then have lt: "ib_head b < ib_tail b"
    by (simp add: length_ring_abs word_less_nat_alt)
  have refuse: "invalidate_page (v, ver, sz) cp = (False, cp)"
    using assms(3) by (auto simp: invalidate_page_def split: option.splits)
  have "ticket b (unat (ib_head b)) = Some (v, ver, sz)"
    using assms(2) lt by (auto simp: ring_abs_def upt_conv_Cons word_less_nat_alt)
  then have "\<exists>x. x \<noteq> 0 \<and> read_entry_raw (ib_head b) b = (x, v, ver, sz)"
    unfolding read_entry_ticket [symmetric] by (cases "read_entry_raw (ib_head b) b") (auto simp: msg_of_def split: if_splits)
  then have "process_loop invalidate_page (ib_tail b) (ib_head b) 0 b cp = (0, ib_head b, b, cp)"
    using lt refuse by (subst process_loop.simps) auto
  then have "poll_round (cp, b) = (0, cp, b)"
    using lt by (simp add: poll_round_def process_pending_def)
  then show ?thesis
    by (induction k) (simp_all del: funpow.simps add: funpow_Suc_right)
qed

theorem poller_head_of_line_blocking_witness:
  "\<exists>b. ring_abs b = [Some (4096, 1, 4096)] \<and>
     ((snd \<circ> poll_round) ^^ 5) (ControlPlane_new (NodeId 1) :: unit cp, b) = (ControlPlane_new (NodeId 1), b)"
proof -
  obtain b where b: "ring_inv b" "ring_abs b = [Some (4096, 1, 4096)]"
    using write_entry_refines [OF ring_inv_new(1), of "(4096, 1, 4096)"] ring_inv_new(2)
    by (auto simp: write_entry_def InvalidationBuffer_new_def NUM_ENTRIES_def Let_def)
  have "((snd \<circ> poll_round) ^^ 5) (ControlPlane_new (NodeId 1) :: unit cp, b) = (ControlPlane_new (NodeId 1), b)"
    by (rule poller_head_of_line_blocking [OF b]) (simp add: lookup_page_state_def ControlPlane_new_def)
  with b(2) show ?thesis
    by blast
qed

end
