(* ===== verification/Staging_Pool.thy ===== *)
theory Staging_Pool
  imports Prelude
begin

text \<open>
  The staging slot pool of \<open>store/src/staging_pool.rs\<close>, with the bounded lock-free queue
  of free slots as a list, and the contract that the fault handler and the prefetcher
  rely on.  The memory mapping call is a parameter of the constructor.
\<close>

section \<open>Definitions\<close>

definition PAGE_SIZE_4K :: nat where "PAGE_SIZE_4K = 4096"

datatype StagingPoolError =
    MmapFailed int
  | PoolExhausted nat
  | InvalidSlotIndex nat nat
  | PoolUninitialized

record StagingSlotHandle =
  slot_idx :: nat
  slot_vaddr :: u64
  slot_size :: nat

record StagingMemoryPool =
  sp_base_ptr :: u64
  sp_total_bytes :: nat
  sp_slot_page_size :: nat
  sp_num_slots :: nat
  sp_free_slots :: "nat list"
  sp_numa_node :: u32
  sp_is_freed :: bool
  sp_active :: u64

definition StagingPool_new ::
  "(nat \<Rightarrow> (int, u64) result) \<Rightarrow> nat \<Rightarrow> nat \<Rightarrow> u32 \<Rightarrow> (StagingPoolError, StagingMemoryPool) result" where
  "StagingPool_new mmap num_slots slot_page_size numa_node =
     (if num_slots = 0 then Err (PoolExhausted 0)
      else if slot_page_size = 0 \<or> slot_page_size mod PAGE_SIZE_4K \<noteq> 0 then Err (InvalidSlotIndex 0 0)
      else
        (let total_bytes = num_slots * slot_page_size in
         case mmap total_bytes of
           Inl errno \<Rightarrow> Err (MmapFailed errno)
         | Inr ptr \<Rightarrow>
             if ptr = 0 then Err (MmapFailed 0)
             else Ok \<lparr>sp_base_ptr = ptr, sp_total_bytes = total_bytes, sp_slot_page_size = slot_page_size,
                      sp_num_slots = num_slots, sp_free_slots = [0..<num_slots], sp_numa_node = numa_node,
                      sp_is_freed = False, sp_active = 0\<rparr>))"

definition pop_slot ::
  "StagingMemoryPool \<Rightarrow> (StagingPoolError, StagingSlotHandle) result \<times> StagingMemoryPool" where
  "pop_slot p =
     (case sp_free_slots p of
        i # rest \<Rightarrow>
          (Ok \<lparr>slot_idx = i, slot_vaddr = sp_base_ptr p + of_nat (i * sp_slot_page_size p),
               slot_size = sp_slot_page_size p\<rparr>,
           p\<lparr>sp_free_slots := rest, sp_active := sp_active p + 1\<rparr>)
      | [] \<Rightarrow> (Err (PoolExhausted (sp_num_slots p)), p))"

text \<open>The queue has room for \<open>num_slots\<close> entries; a push to a full queue is dropped silently.\<close>

definition push_slot ::
  "nat \<Rightarrow> StagingMemoryPool \<Rightarrow> (StagingPoolError, unit) result \<times> StagingMemoryPool" where
  "push_slot i p =
     (if i \<ge> sp_num_slots p then (Err (InvalidSlotIndex i (sp_num_slots p)), p)
      else if length (sp_free_slots p) < sp_num_slots p
      then (Ok (), p\<lparr>sp_free_slots := sp_free_slots p @ [i], sp_active := sp_active p - 1\<rparr>)
      else (Ok (), p))"

fun pop_slots_batch :: "nat \<Rightarrow> StagingMemoryPool \<Rightarrow> StagingSlotHandle list \<times> StagingMemoryPool" where
  "pop_slots_batch 0 p = ([], p)"
| "pop_slots_batch (Suc n) p =
     (case pop_slot p of
        (Inl _, p') \<Rightarrow> ([], p')
      | (Inr s, p') \<Rightarrow> (case pop_slots_batch n p' of (ss, p'') \<Rightarrow> (s # ss, p'')))"

definition available_slots :: "StagingMemoryPool \<Rightarrow> nat" where
  "available_slots p = length (sp_free_slots p)"

definition active_slots :: "StagingMemoryPool \<Rightarrow> u64" where
  "active_slots p = sp_active p"

definition has_capacity :: "nat \<Rightarrow> StagingMemoryPool \<Rightarrow> bool" where
  "has_capacity count p \<longleftrightarrow> available_slots p \<ge> count"

text \<open>Dropping the pool unmaps it once; the boolean says whether \<open>munmap\<close> is called.\<close>

definition StagingPool_drop :: "StagingMemoryPool \<Rightarrow> bool \<times> StagingMemoryPool" where
  "StagingPool_drop p = (\<not> sp_is_freed p, p\<lparr>sp_is_freed := True\<rparr>)"

section \<open>The slot contract\<close>

text \<open>
  What a client of a slot pool may assume: free slots are handed out in queue order, an
  empty pool refuses, and returning a slot that is out makes it free again.
\<close>

locale slot_pool =
  fixes invar :: "'s \<Rightarrow> bool"
    and slots :: "'s \<Rightarrow> nat"
    and free :: "'s \<Rightarrow> nat list"
    and pop :: "'s \<Rightarrow> (nat \<times> 's) option"
    and push :: "nat \<Rightarrow> 's \<Rightarrow> 's"
  assumes free_ok: "invar s \<Longrightarrow> distinct (free s) \<and> set (free s) \<subseteq> {..<slots s}"
    and pop_nil: "invar s \<Longrightarrow> free s = [] \<Longrightarrow> pop s = None"
    and pop_cons: "invar s \<Longrightarrow> free s = i # r \<Longrightarrow> \<exists>s'. pop s = Some (i, s') \<and> invar s' \<and> slots s' = slots s \<and> free s' = r"
    and push_ok: "invar s \<Longrightarrow> i < slots s \<Longrightarrow> i \<notin> set (free s) \<Longrightarrow>
      invar (push i s) \<and> slots (push i s) = slots s \<and> free (push i s) = free s @ [i]"
begin

fun pops :: "nat \<Rightarrow> 's \<Rightarrow> nat list \<times> 's" where
  "pops 0 s = ([], s)"
| "pops (Suc n) s = (case pop s of None \<Rightarrow> ([], s) | Some (i, s') \<Rightarrow> (case pops n s' of (is, s'') \<Rightarrow> (i # is, s'')))"

lemma pops_correct:
  "invar s \<Longrightarrow> fst (pops n s) = take n (free s) \<and> invar (snd (pops n s)) \<and>
     slots (snd (pops n s)) = slots s \<and> free (snd (pops n s)) = drop n (free s)"
proof (induction n arbitrary: s)
  case (Suc n)
  show ?case
  proof (cases "free s")
    case Nil
    with Suc.prems pop_nil show ?thesis
      by simp
  next
    case (Cons i r)
    with pop_cons [OF Suc.prems Cons] Suc.IH show ?thesis
      by (auto split: prod.splits) fastforce+
  qed
qed simp

lemma pops_exhaust:
  "invar s \<Longrightarrow> length (free s) \<le> n \<Longrightarrow> pop (snd (pops n s)) = None"
  using pops_correct [of s n] pop_nil by simp

text \<open>A client state: the pool and the slots the client holds.\<close>

inductive client :: "'s \<Rightarrow> nat set \<Rightarrow> bool" where
  client_start: "invar s \<Longrightarrow> set (free s) = {..<slots s} \<Longrightarrow> client s {}"
| client_pop: "client s H \<Longrightarrow> pop s = Some (i, s') \<Longrightarrow> client s' (insert i H)"
| client_push: "client s H \<Longrightarrow> i \<in> H \<Longrightarrow> client (push i s) (H - {i})"

lemma client_partition:
  "client s H \<Longrightarrow> invar s \<and> set (free s) \<inter> H = {} \<and> set (free s) \<union> H = {..<slots s}"
proof (induction rule: client.induct)
  case (client_pop s H i s')
  then have inv: "invar s"
    by simp
  with client_pop(2) pop_nil obtain j r where f: "free s = j # r"
    by (cases "free s") auto
  from pop_cons [OF inv f] client_pop(2) have "j = i" "invar s'" "slots s' = slots s" "free s' = r"
    by auto
  with f free_ok [OF inv] client_pop.IH show ?case
    by auto
next
  case (client_push s H i)
  then have "i < slots s" "i \<notin> set (free s)"
    by auto
  with push_ok [of s i] client_push show ?case
    by auto
qed simp

lemma client_pop_fresh: "client s H \<Longrightarrow> pop s = Some (i, s') \<Longrightarrow> i \<notin> H \<and> i < slots s"
proof -
  assume c: "client s H" and p: "pop s = Some (i, s')"
  from client_partition [OF c] pop_nil p obtain j r where f: "free s = j # r"
    by (cases "free s") auto
  with client_partition [OF c] pop_cons [of s j r] p show ?thesis
    by auto
qed

end

section \<open>The pool satisfies the contract\<close>

definition sp_inv :: "StagingMemoryPool \<Rightarrow> bool" where
  "sp_inv p \<longleftrightarrow> distinct (sp_free_slots p) \<and> set (sp_free_slots p) \<subseteq> {..<sp_num_slots p} \<and>
     sp_num_slots p < 2 ^ 64 \<and> length (sp_free_slots p) + unat (sp_active p) = sp_num_slots p"

definition sp_pop :: "StagingMemoryPool \<Rightarrow> (nat \<times> StagingMemoryPool) option" where
  "sp_pop p = (case pop_slot p of (Inl _, _) \<Rightarrow> None | (Inr h, p') \<Rightarrow> Some (slot_idx h, p'))"

definition sp_push :: "nat \<Rightarrow> StagingMemoryPool \<Rightarrow> StagingMemoryPool" where
  "sp_push i p = snd (push_slot i p)"

lemma distinct_bounded_length: "distinct xs \<Longrightarrow> set xs \<subseteq> {..<n} \<Longrightarrow> i < n \<Longrightarrow> i \<notin> set xs \<Longrightarrow> length xs < n"
  by (metis card_lessThan card_seteq distinct_card finite_lessThan leI lessThan_iff)

interpretation staging: slot_pool sp_inv sp_num_slots sp_free_slots sp_pop sp_push
proof unfold_locales
  fix s :: StagingMemoryPool and i r
  assume inv: "sp_inv s"
  show "distinct (sp_free_slots s) \<and> set (sp_free_slots s) \<subseteq> {..<sp_num_slots s}"
    using inv by (simp add: sp_inv_def)
  show "sp_pop s = None" if "sp_free_slots s = []"
    using that by (simp add: sp_pop_def pop_slot_def)
  show "\<exists>s'. sp_pop s = Some (i, s') \<and> sp_inv s' \<and> sp_num_slots s' = sp_num_slots s \<and> sp_free_slots s' = r"
    if f: "sp_free_slots s = i # r"
  proof -
    have "unat (sp_active s + 1) = unat (sp_active s) + 1"
      using inv f by (intro unat_add_one_less) (simp add: sp_inv_def)
    with inv f show ?thesis
      by (simp add: sp_pop_def pop_slot_def sp_inv_def)
  qed
  show "sp_inv (sp_push i s) \<and> sp_num_slots (sp_push i s) = sp_num_slots s \<and>
      sp_free_slots (sp_push i s) = sp_free_slots s @ [i]" if i: "i < sp_num_slots s" "i \<notin> set (sp_free_slots s)"
  proof -
    have lt: "length (sp_free_slots s) < sp_num_slots s"
      using inv i distinct_bounded_length by (auto simp: sp_inv_def)
    then have "sp_active s \<noteq> 0"
      using inv by (auto simp: sp_inv_def)
    then have "unat (sp_active s - 1) = unat (sp_active s) - 1" "0 < unat (sp_active s)"
      by (simp_all add: unat_minus_one unat_gt_0)
    with inv i lt show ?thesis
      by (auto simp: sp_push_def push_slot_def sp_inv_def)
  qed
qed

section \<open>Properties\<close>

text \<open>A pool and the handles its clients hold: clients pop handles and push back handles they hold.\<close>

inductive pool_client :: "StagingMemoryPool \<Rightarrow> StagingSlotHandle set \<Rightarrow> bool" where
  pc_new: "StagingPool_new mmap n sz numa = Ok p \<Longrightarrow> n < 2 ^ 64 \<Longrightarrow> pool_client p {}"
| pc_pop: "pool_client p H \<Longrightarrow> pop_slot p = (Inr h, p') \<Longrightarrow> pool_client p' (insert h H)"
| pc_push: "pool_client p H \<Longrightarrow> h \<in> H \<Longrightarrow> pool_client (snd (push_slot (slot_idx h) p)) (H - {h})"

definition handle_at :: "StagingMemoryPool \<Rightarrow> nat \<Rightarrow> StagingSlotHandle" where
  "handle_at p i = \<lparr>slot_idx = i, slot_vaddr = sp_base_ptr p + of_nat (i * sp_slot_page_size p),
                    slot_size = sp_slot_page_size p\<rparr>"

lemma pop_slot_handle:
  "pop_slot p = (Inr h, p') \<Longrightarrow> h = handle_at p (slot_idx h) \<and> sp_pop p = Some (slot_idx h, p') \<and>
     handle_at p' = handle_at p"
  by (auto simp: pop_slot_def sp_pop_def handle_at_def fun_eq_iff split: list.splits)

lemma push_slot_handle: "handle_at (snd (push_slot i p)) = handle_at p"
  by (auto simp: push_slot_def handle_at_def fun_eq_iff)

lemma pool_client_inv:
  "pool_client p H \<Longrightarrow> staging.client p (slot_idx ` H) \<and> (\<forall>h\<in>H. h = handle_at p (slot_idx h))"
proof (induction rule: pool_client.induct)
  case (pc_new mmap n sz numa p)
  then have "sp_inv p \<and> set (sp_free_slots p) = {..<sp_num_slots p}"
    by (auto simp: StagingPool_new_def sp_inv_def Let_def split: if_splits sum.splits)
  then show ?case
    by (auto intro: staging.client_start)
next
  case (pc_pop p H h p')
  note hp = pop_slot_handle [OF pc_pop(2)]
  from staging.client_pop [of p "slot_idx ` H" "slot_idx h" p'] hp pc_pop.IH
  have "staging.client p' (slot_idx ` insert h H)"
    by simp
  with hp pc_pop.IH show ?case
    by (auto simp del: image_insert)
next
  case (pc_push p H h)
  have inj: "inj_on slot_idx H"
    using pc_push.IH by (metis inj_onI)
  have "slot_idx ` (H - {h}) = slot_idx ` H - {slot_idx h}"
    using inj pc_push(2) by (auto simp: inj_on_def)
  with staging.client_push [of p "slot_idx ` H" "slot_idx h"] pc_push
  have "staging.client (snd (push_slot (slot_idx h) p)) (slot_idx ` (H - {h}))"
    by (simp add: sp_push_def)
  with pc_push.IH show ?case
    by (simp add: push_slot_handle)
qed

lemma pool_client_inj: "pool_client p H \<Longrightarrow> inj_on slot_idx H"
  using pool_client_inv by (metis inj_onI)

text \<open>The byte range of a handle, as natural numbers.\<close>

definition slot_range :: "StagingSlotHandle \<Rightarrow> nat set" where
  "slot_range h = {unat (slot_vaddr h) ..< unat (slot_vaddr h) + slot_size h}"

lemma slot_range_handle:
  assumes "i < n" "unat base + n * sz \<le> 2 ^ 64" "sp_base_ptr p = base" "sp_slot_page_size p = sz" "0 < sz"
  shows "slot_range (handle_at p i) = {unat base + i * sz ..< unat base + i * sz + sz}"
proof -
  have "i * sz + sz \<le> n * sz"
    using mult_le_mono1 [of "Suc i" n sz] assms(1) by simp
  then have lt: "unat base + i * sz < 2 ^ 64"
    using assms(2,5) by linarith
  then have "unat (of_nat (i * sz) :: u64) = i * sz"
    by (simp add: unat_of_nat del: of_nat_mult)
  with lt have "unat (base + of_nat (i * sz)) = unat base + i * sz"
    by (simp add: unat_word_ariths del: of_nat_mult)
  then show ?thesis
    using assms(3,4) by (simp add: slot_range_def handle_at_def)
qed

lemma strided_disjoint:
  fixes sz :: nat
  assumes "i \<noteq> j"
  shows "{b + i * sz ..< b + i * sz + sz} \<inter> {b + j * sz ..< b + j * sz + sz} = {}"
proof -
  have "x < y \<Longrightarrow> x * sz + sz \<le> y * sz" for x y
    using mult_le_mono1 [of "Suc x" y sz] by simp
  then show ?thesis
    using assms by (cases "i < j") (force simp: not_less)+
qed

text \<open>
  C14: staging slots never alias.  While clients only return slots they hold, the held and
  the free slots together are all the slots of the pool, the active counter is the number
  of held slots, and two different held handles have disjoint byte ranges inside the
  mapping (which does not wrap around the address space).
\<close>

theorem staging_slots_disjoint:
  assumes "pool_client p H" "unat (sp_base_ptr p) + sp_num_slots p * sp_slot_page_size p \<le> 2 ^ 64"
    and "0 < sp_slot_page_size p"
  shows "card H + available_slots p = sp_num_slots p \<and> unat (active_slots p) = card H \<and>
    (\<forall>h\<in>H. \<forall>h'\<in>H. h \<noteq> h' \<longrightarrow> slot_range h \<inter> slot_range h' = {}) \<and>
    (\<forall>h\<in>H. slot_range h \<subseteq> {unat (sp_base_ptr p) ..<
        unat (sp_base_ptr p) + sp_num_slots p * sp_slot_page_size p})"
proof -
  let ?n = "sp_num_slots p" and ?b = "unat (sp_base_ptr p)" and ?z = "sp_slot_page_size p"
  have cl: "staging.client p (slot_idx ` H)" and hd: "\<And>h. h \<in> H \<Longrightarrow> h = handle_at p (slot_idx h)"
    using pool_client_inv [OF assms(1)] by auto
  note part = staging.client_partition [OF cl]
  have inv: "sp_inv p"
    using part by simp
  have "finite (slot_idx ` H)"
    using part by (metis finite_Un finite_lessThan)
  then have "card (set (sp_free_slots p)) + card (slot_idx ` H) = card {..<?n}"
    using part by (subst card_Un_disjoint [symmetric]) auto
  then have cnt: "card H + available_slots p = ?n"
    using inv card_image [OF pool_client_inj [OF assms(1)]]
    by (simp add: sp_inv_def available_slots_def distinct_card)
  moreover have "unat (active_slots p) = card H"
    using inv cnt by (simp add: sp_inv_def available_slots_def active_slots_def)
  moreover have rng: "slot_idx h < ?n" "slot_range h = {?b + slot_idx h * ?z ..< ?b + slot_idx h * ?z + ?z}"
    if "h \<in> H" for h
  proof -
    show "slot_idx h < ?n"
      using part that by auto
    from slot_range_handle [OF this assms(2) refl refl assms(3)]
    show "slot_range h = {?b + slot_idx h * ?z ..< ?b + slot_idx h * ?z + ?z}"
      using hd [OF that] by simp
  qed
  moreover have "slot_range h \<inter> slot_range h' = {}" if "h \<in> H" "h' \<in> H" "h \<noteq> h'" for h h'
  proof -
    have "slot_idx h \<noteq> slot_idx h'"
      using that pool_client_inj [OF assms(1)] by (auto simp: inj_on_def)
    then show ?thesis
      unfolding rng(2) [OF that(1)] rng(2) [OF that(2)] by (rule strided_disjoint)
  qed
  moreover have "slot_range h \<subseteq> {?b ..< ?b + ?n * ?z}" if "h \<in> H" for h
    using rng [OF that] mult_le_mono1 [of "Suc (slot_idx h)" ?n ?z] by auto
  ultimately show ?thesis
    by blast
qed

definition sample_pool :: StagingMemoryPool where
  "sample_pool = \<lparr>sp_base_ptr = 0x10000, sp_total_bytes = 8192, sp_slot_page_size = 4096, sp_num_slots = 2,
     sp_free_slots = [0, 1], sp_numa_node = 0, sp_is_freed = False, sp_active = 0\<rparr>"

lemma sample_pool_new: "StagingPool_new (\<lambda>_. Inr 0x10000) 2 4096 0 = Ok sample_pool"
  by (simp add: StagingPool_new_def sample_pool_def PAGE_SIZE_4K_def Let_def upt_rec)

lemma sample_client:
  "\<exists>h h' p. pool_client p {h, h'} \<and> h \<noteq> h' \<and> slot_idx h = 0 \<and> h = handle_at sample_pool 0 \<and>
     p = sample_pool\<lparr>sp_free_slots := [], sp_active := 2\<rparr>"
proof -
  let ?p1 = "sample_pool\<lparr>sp_free_slots := [1], sp_active := 1\<rparr>"
  let ?p2 = "sample_pool\<lparr>sp_free_slots := [], sp_active := 2\<rparr>"
  have 1: "pop_slot sample_pool = (Inr (handle_at sample_pool 0), ?p1)"
    by (simp add: pop_slot_def sample_pool_def handle_at_def)
  have 2: "pop_slot ?p1 = (Inr (handle_at sample_pool 1), ?p2)"
    by (simp add: pop_slot_def sample_pool_def handle_at_def)
  have "pool_client sample_pool {}"
    by (rule pc_new [OF sample_pool_new]) simp
  from pc_pop [OF pc_pop [OF this 1] 2] have "pool_client ?p2 {handle_at sample_pool 0, handle_at sample_pool 1}"
    by (simp add: insert_commute)
  then show ?thesis
    by (intro exI [of _ "handle_at sample_pool 0"] exI [of _ "handle_at sample_pool 1"] exI [of _ ?p2])
      (simp add: handle_at_def)
qed

theorem staging_slots_disjoint_witness:
  "\<exists>h h' p. pool_client p {h, h'} \<and> h \<noteq> h' \<and> slot_range h \<inter> slot_range h' = {}"
proof -
  obtain h h' p where p: "pool_client p {h, h'}" "h \<noteq> h'" "p = sample_pool\<lparr>sp_free_slots := [], sp_active := 2\<rparr>"
    using sample_client by blast
  have "slot_range h \<inter> slot_range h' = {}"
    using staging_slots_disjoint [OF p(1)] p(2,3) by (simp add: sample_pool_def)
  with p show ?thesis
    by blast
qed

text \<open>
  A slot returned twice is handed out twice.  \<open>push_slot\<close> does not check that the
  slot is out: with two slots held, returning the first one twice brings the active
  counter to zero although the second slot is still held, and the next two callers get
  the same slot, with the same address.
\<close>

theorem staging_double_push_aliases:
  "\<exists>p h h'. pool_client p {h, h'} \<and> h \<noteq> h' \<and>
     (let q = snd (push_slot (slot_idx h) (snd (push_slot (slot_idx h) p)))
      in active_slots q = 0 \<and> fst (pop_slots_batch 2 q) = [h, h])"
proof -
  obtain h h' p where p: "pool_client p {h, h'}" "h \<noteq> h'" "slot_idx h = 0" "h = handle_at sample_pool 0"
    "p = sample_pool\<lparr>sp_free_slots := [], sp_active := 2\<rparr>"
    using sample_client by blast
  have "snd (push_slot 0 (snd (push_slot 0 p))) = sample_pool\<lparr>sp_free_slots := [0, 0], sp_active := 0\<rparr>"
    by (simp add: p(5) push_slot_def sample_pool_def)
  moreover have "fst (pop_slots_batch 2 (sample_pool\<lparr>sp_free_slots := [0, 0], sp_active := 0\<rparr>))
      = [handle_at sample_pool 0, handle_at sample_pool 0]"
    by (simp add: numeral_2_eq_2 pop_slot_def handle_at_def sample_pool_def)
  ultimately show ?thesis
    using p by (intro exI [of _ p] exI [of _ h] exI [of _ h'])
      (simp add: active_slots_def handle_at_def Let_def)
qed

end
