(* ===== verification/Uffd_Handler.thy ===== *)
theory Uffd_Handler
  imports Control_Plane Staging_Pool
begin

text \<open>
  The page-fault handler of the shared-memory engine: the userfaultfd operations of
  \<open>src/klnk/klnk-uffd/src/move_ops.rs\<close> and the handler of
  \<open>src/klnk/klnk-uffd/src/handler.rs\<close> on the control plane, the staging pool and the map
  of prefetched pages.  The kernel (ioctl results and page size), the userfaultfd crate
  and the RDMA engine are parameters, given afresh for every call; an error of the
  userfaultfd crate is its message.  Counters are 64-bit words.
\<close>

section \<open>Userfaultfd operations\<close>

definition UFFDIO :: u8 where "UFFDIO = 0xAA"
definition UFFDIO_MOVE_NUM :: u8 where "UFFDIO_MOVE_NUM = 5"
definition UFFDIO_COPY_NUM :: u8 where "UFFDIO_COPY_NUM = 3"
definition UFFDIO_ZEROPAGE_NUM :: u8 where "UFFDIO_ZEROPAGE_NUM = 4"
definition UFFDIO_WRITEPROTECT_NUM :: u8 where "UFFDIO_WRITEPROTECT_NUM = 6"

record uffdio_move =
  mv_dst :: u64
  mv_src :: u64
  mv_len :: u64
  mv_mode :: u64
  mv_move_bytes :: int

record uffdio_copy =
  cy_dst :: u64
  cy_src :: u64
  cy_len :: u64
  cy_mode :: u64
  cy_copy :: int

record uffdio_range =
  rg_start :: u64
  rg_len :: u64

record uffdio_zeropage =
  zp_range :: uffdio_range
  zp_mode :: u64
  zp_zeropage :: int

record uffdio_writeprotect =
  wp_range :: uffdio_range
  wp_mode :: u64

definition UFFDIO_MOVE_MODE_ALLOW_SRC_HOLE :: u64 where "UFFDIO_MOVE_MODE_ALLOW_SRC_HOLE = 1"

datatype UffdOpError =
    MoveFailed int
  | CopyFailed int
  | ZeroPageFailed int
  | WriteProtectFailed int
  | PartialMove u64 int
  | InvalidAlignment u64 u64 u64

definition iowr :: "u8 \<Rightarrow> u8 \<Rightarrow> u32 \<Rightarrow> u32" where
  "iowr ty nr sz = push_bit 30 3 OR push_bit 8 (ucast ty) OR ucast nr OR push_bit 16 sz"

text \<open>
  What the kernel answers: the page size of \<open>sysconf\<close>, and for each request number and
  argument of an ioctl the error number, or the byte count it stores in the argument.
\<close>

record kernel =
  kn_sysconf_page_size :: int
  kn_move :: "u32 \<Rightarrow> uffdio_move \<Rightarrow> (int, int) result"
  kn_copy :: "u32 \<Rightarrow> uffdio_copy \<Rightarrow> (int, int) result"
  kn_zeropage :: "u32 \<Rightarrow> uffdio_zeropage \<Rightarrow> (int, unit) result"
  kn_writeprotect :: "u32 \<Rightarrow> uffdio_writeprotect \<Rightarrow> (int, unit) result"

definition get_page_size :: "kernel \<Rightarrow> u64" where
  "get_page_size k = (if kn_sysconf_page_size k \<le> 0 then 4096 else word_of_int (kn_sysconf_page_size k))"

definition ENOSYS :: int where "ENOSYS = 38"
definition EINVAL :: int where "EINVAL = 22"
definition ENOTTY :: int where "ENOTTY = 25"

definition uffd_copy_fallback :: "kernel \<Rightarrow> u64 \<Rightarrow> u64 \<Rightarrow> u64 \<Rightarrow> (UffdOpError, u64) result" where
  "uffd_copy_fallback k dst src len =
    (let copy_data = \<lparr>cy_dst = dst, cy_src = src, cy_len = len, cy_mode = 0, cy_copy = 0\<rparr>
     in case kn_copy k (iowr UFFDIO UFFDIO_COPY_NUM 40) copy_data of
          Inl errno \<Rightarrow> Err (CopyFailed errno)
        | Inr copied \<Rightarrow>
            if copied < 0 \<or> word_of_int copied \<noteq> len then Err (PartialMove len copied)
            else Ok (word_of_int copied))"

definition uffd_move :: "kernel \<Rightarrow> u64 \<Rightarrow> u64 \<Rightarrow> u64 \<Rightarrow> (UffdOpError, u64) result" where
  "uffd_move k dst src len =
    (let page_size = get_page_size k
     in if dst mod page_size \<noteq> 0 \<or> src mod page_size \<noteq> 0 \<or> len mod page_size \<noteq> 0
        then Err (InvalidAlignment dst src len)
        else
          let move_data = \<lparr>mv_dst = dst, mv_src = src, mv_len = len, mv_mode = UFFDIO_MOVE_MODE_ALLOW_SRC_HOLE,
                mv_move_bytes = 0\<rparr>
          in case kn_move k (iowr UFFDIO UFFDIO_MOVE_NUM 40) move_data of
               Inl errno \<Rightarrow>
                 if errno = ENOSYS \<or> errno = EINVAL \<or> errno = ENOTTY then uffd_copy_fallback k dst src len
                 else Err (MoveFailed errno)
             | Inr moved \<Rightarrow>
                 if moved < 0 \<or> word_of_int moved \<noteq> len then Err (PartialMove len moved)
                 else Ok (word_of_int moved))"

definition uffd_zeropage :: "kernel \<Rightarrow> u64 \<Rightarrow> u64 \<Rightarrow> (UffdOpError, unit) result" where
  "uffd_zeropage k dst len =
    (case kn_zeropage k (iowr UFFDIO UFFDIO_ZEROPAGE_NUM 32)
            \<lparr>zp_range = \<lparr>rg_start = dst, rg_len = len\<rparr>, zp_mode = 0, zp_zeropage = 0\<rparr> of
       Inl errno \<Rightarrow> Err (ZeroPageFailed errno) | Inr _ \<Rightarrow> Ok ())"

definition uffd_set_write_protect :: "kernel \<Rightarrow> u64 \<Rightarrow> u64 \<Rightarrow> u64 \<Rightarrow> (UffdOpError, unit) result" where
  "uffd_set_write_protect k dst len mode =
    (case kn_writeprotect k (iowr UFFDIO UFFDIO_WRITEPROTECT_NUM 24)
            \<lparr>wp_range = \<lparr>rg_start = dst, rg_len = len\<rparr>, wp_mode = mode\<rparr> of
       Inl errno \<Rightarrow> Err (WriteProtectFailed errno) | Inr _ \<Rightarrow> Ok ())"

section \<open>The handler's state\<close>

datatype 'rma UffdHandlerError =
    CreateFailed string
  | RegisterFailed string
  | UnregisterFailed string
  | ReadFailed string
  | FaultResolutionFailed UffdOpError
  | HandlerControlPlaneError ControlPlaneError
  | HandlerStagingPoolError string
  | InvalidRegion string
  | HandlerRdmaError 'rma
  | LockError string

record FaultStats =
  fs_total_faults :: u64
  fs_remote_faults :: u64
  fs_local_faults :: u64
  fs_zero_page_faults :: u64
  fs_move_operations :: u64
  fs_copy_operations :: u64
  fs_failed_faults :: u64

definition FaultStats_default :: FaultStats where
  "FaultStats_default = \<lparr>fs_total_faults = 0, fs_remote_faults = 0, fs_local_faults = 0, fs_zero_page_faults = 0,
     fs_move_operations = 0, fs_copy_operations = 0, fs_failed_faults = 0\<rparr>"

text \<open>The shared objects a handler works on, and the regions it has registered.\<close>

record 'addr UffdHandler =
  uh_control_plane :: "'addr cp"
  uh_staging_pool :: StagingMemoryPool
  uh_regions :: "GlobalRegionId \<rightharpoonup> u64 \<times> u64"
  uh_stats :: FaultStats
  uh_prefetched_pages :: "(u64 \<rightharpoonup> StagingSlotHandle) option"

definition UffdHandler_new ::
    "(string, unit) result \<Rightarrow> 'addr cp \<Rightarrow> StagingMemoryPool \<Rightarrow> ('rma UffdHandlerError, 'addr UffdHandler) result" where
  "UffdHandler_new create cp pool =
    (case create of
       Inl e \<Rightarrow> Err (CreateFailed e)
     | Inr _ \<Rightarrow> Ok \<lparr>uh_control_plane = cp, uh_staging_pool = pool, uh_regions = Map.empty,
         uh_stats = FaultStats_default, uh_prefetched_pages = None\<rparr>)"

definition set_prefetched_pages :: "(u64 \<rightharpoonup> StagingSlotHandle) \<Rightarrow> 'addr UffdHandler \<Rightarrow> 'addr UffdHandler" where
  "set_prefetched_pages m h = h\<lparr>uh_prefetched_pages := Some m\<rparr>"

definition uffd_register_region ::
    "(u64 \<Rightarrow> u64 \<Rightarrow> (string, unit) result) \<Rightarrow> MemoryRegionDescriptor \<Rightarrow> 'addr UffdHandler \<Rightarrow>
     ('rma UffdHandlerError, unit) result \<times> 'addr UffdHandler" where
  "uffd_register_region register desc h =
    (let vaddr = rd_main_vaddr desc; sz = rd_region_size desc
     in if vaddr mod 4096 \<noteq> 0 \<or> sz mod 4096 \<noteq> 0
        then (Err (InvalidRegion (''Region 0x'' @ show_base 16 (unat vaddr) @ '' size '' @ show_base 10 (unat sz) @
                '' not page-aligned'')), h)
        else case register vaddr sz of
               Inl e \<Rightarrow> (Err (RegisterFailed e), h)
             | Inr _ \<Rightarrow> (Ok (), h\<lparr>uh_regions := (uh_regions h)(rd_region_id desc \<mapsto> (vaddr, sz))\<rparr>))"

definition uffd_unregister_region ::
    "(u64 \<Rightarrow> u64 \<Rightarrow> (string, unit) result) \<Rightarrow> GlobalRegionId \<Rightarrow> 'addr UffdHandler \<Rightarrow>
     ('rma UffdHandlerError, unit) result \<times> 'addr UffdHandler" where
  "uffd_unregister_region unregister rid h =
    (case uh_regions h rid of
       Some (vaddr, sz) \<Rightarrow>
         let h1 = h\<lparr>uh_regions := (uh_regions h)(rid := None)\<rparr>
         in (case unregister vaddr sz of Inl e \<Rightarrow> (Err (UnregisterFailed e), h1) | Inr _ \<Rightarrow> (Ok (), h1))
     | None \<Rightarrow> (Ok (), h))"

section \<open>Resolving faults\<close>

text \<open>The environment of one fault: the kernel and the RDMA engine's read.\<close>

record ('addr, 'rma) fault_env =
  fe_kernel :: kernel
  fe_rdma_read :: "'addr \<Rightarrow> u64 \<Rightarrow> u32 \<Rightarrow> u64 \<Rightarrow> nat \<Rightarrow> ('rma, unit) result"

fun show_pool_error :: "StagingPoolError \<Rightarrow> string" where
  "show_pool_error (MmapFailed e) = ''Failed to allocate virtual memory pool via mmap: errno '' @
     (if e < 0 then ''-'' @ show_base 10 (nat (- e)) else show_base 10 (nat e))"
| "show_pool_error (PoolExhausted n) =
     ''No available staging slot remaining in pool (capacity: '' @ show_base 10 n @ '')''"
| "show_pool_error (InvalidSlotIndex i n) =
     ''Invalid slot index '' @ show_base 10 i @ '' requested (max valid index: '' @ show_base 10 n @ '')''"
| "show_pool_error PoolUninitialized = ''Attempted to operate on a freed or unallocated staging pool''"

definition count_move :: "'addr UffdHandler \<Rightarrow> 'addr UffdHandler" where
  "count_move h = h\<lparr>uh_stats := (uh_stats h)\<lparr>fs_move_operations := fs_move_operations (uh_stats h) + 1\<rparr>\<rparr>"

definition on_cp :: "('addr cp \<Rightarrow> bool \<times> 'addr cp) \<Rightarrow> 'addr UffdHandler \<Rightarrow> 'addr UffdHandler" where
  "on_cp f h = h\<lparr>uh_control_plane := snd (f (uh_control_plane h))\<rparr>"

text \<open>Moves a slot to the faulting page; a failed move gives the slot back.\<close>

definition move_slot ::
    "('addr, 'rma) fault_env \<Rightarrow> u64 \<Rightarrow> StagingSlotHandle \<Rightarrow> 'addr UffdHandler \<Rightarrow>
     ('rma UffdHandlerError, unit) result \<times> 'addr UffdHandler" where
  "move_slot env vaddr slot h =
    (let h1 = count_move h
     in case uffd_move (fe_kernel env) vaddr (slot_vaddr slot) (of_nat (slot_size slot)) of
          Inl e \<Rightarrow>
            (Err (FaultResolutionFailed e),
             h1\<lparr>uh_staging_pool := snd (push_slot (slot_idx slot) (uh_staging_pool h1))\<rparr>)
        | Inr _ \<Rightarrow> (Ok (), h1))"

definition fetch_remote_page ::
    "('addr, 'rma) fault_env \<Rightarrow> u64 \<Rightarrow> NodeId \<Rightarrow> 'addr UffdHandler \<Rightarrow>
     ('rma UffdHandlerError, unit) result \<times> 'addr UffdHandler" where
  "fetch_remote_page env vaddr owner h =
    (case Option.bind (uh_prefetched_pages h) (\<lambda>m. map_option (Pair m) (m vaddr)) of
       Some (m, slot) \<Rightarrow>
         let h1 = h\<lparr>uh_prefetched_pages := Some (m(vaddr := None))\<rparr>
         in (case uffd_move (fe_kernel env) vaddr (slot_vaddr slot) (of_nat (slot_size slot)) of
               Inl e \<Rightarrow> (Err (FaultResolutionFailed e), h1)
             | Inr _ \<Rightarrow> (Ok (), count_move h1))
     | None \<Rightarrow>
         case get_remote_node owner (uh_control_plane h) of
           None \<Rightarrow>
             (Err (HandlerStagingPoolError (''Remote node NodeId('' @ show_base 10 (unat (node_raw owner)) @ '') not found'')), h)
         | Some remote_info \<Rightarrow>
             case pop_slot (uh_staging_pool h) of
               (Inl e, _) \<Rightarrow> (Err (HandlerStagingPoolError (show_pool_error e)), h)
             | (Inr slot, pool1) \<Rightarrow>
                 let h1 = h\<lparr>uh_staging_pool := pool1\<rparr>
                 in (case fe_rdma_read env (re_socket_addr remote_info) vaddr (re_metadata_rkey remote_info)
                           (slot_vaddr slot) (slot_size slot) of
                       Inl e \<Rightarrow> (Err (HandlerRdmaError e), h1)
                     | Inr _ \<Rightarrow> move_slot env vaddr slot h1))"

definition resolve_local_missing ::
    "('addr, 'rma) fault_env \<Rightarrow> u64 \<Rightarrow> 'addr UffdHandler \<Rightarrow>
     ('rma UffdHandlerError, unit) result \<times> 'addr UffdHandler" where
  "resolve_local_missing env vaddr h =
    (case pop_slot (uh_staging_pool h) of
       (Inl e, _) \<Rightarrow> (Err (HandlerStagingPoolError (show_pool_error e)), h)
     | (Inr slot, pool1) \<Rightarrow>
         case move_slot env vaddr slot (h\<lparr>uh_staging_pool := pool1\<rparr>) of
           (Inl e, h1) \<Rightarrow> (Err e, h1)
         | (Inr _, h1) \<Rightarrow>
             let local_node = cp_local_node_id (uh_control_plane h1)
             in (Ok (), on_cp (add_reader vaddr local_node) (on_cp (update_page_state vaddr SharedRead local_node) h1)))"

definition resolve_with_zeropage ::
    "('addr, 'rma) fault_env \<Rightarrow> u64 \<Rightarrow> 'addr UffdHandler \<Rightarrow>
     ('rma UffdHandlerError, unit) result \<times> 'addr UffdHandler" where
  "resolve_with_zeropage env vaddr h =
    (case uffd_zeropage (fe_kernel env) vaddr 4096 of
       Inl e \<Rightarrow> (Err (FaultResolutionFailed e), h)
     | Inr _ \<Rightarrow> (Ok (), on_cp (update_page_state vaddr SharedRead (cp_local_node_id (uh_control_plane h))) h))"

text \<open>
  A remote fault has three parts, with the RDMA read, during which other faults run, in
  the second: marking the page in flight, fetching, and publishing the shared copy.
\<close>

definition begin_remote :: "u64 \<Rightarrow> NodeId \<Rightarrow> 'addr UffdHandler \<Rightarrow> 'addr UffdHandler" where
  "begin_remote vaddr owner h =
    on_cp (update_page_state vaddr InFlight owner)
      (h\<lparr>uh_stats := (uh_stats h)\<lparr>fs_remote_faults := fs_remote_faults (uh_stats h) + 1\<rparr>\<rparr>)"

definition finish_remote :: "u64 \<Rightarrow> NodeId \<Rightarrow> NodeId \<Rightarrow> 'addr UffdHandler \<Rightarrow> 'addr UffdHandler" where
  "finish_remote vaddr owner local_node h =
    on_cp (add_reader vaddr local_node) (on_cp (update_page_state vaddr SharedRead owner) h)"

definition handle_page_fault ::
    "('addr, 'rma) fault_env \<Rightarrow> u64 \<Rightarrow> 'addr UffdHandler \<Rightarrow>
     ('rma UffdHandlerError, unit) result \<times> 'addr UffdHandler" where
  "handle_page_fault env vaddr h =
    (case lookup_page_state vaddr (uh_control_plane h) of
       None \<Rightarrow> (Err (HandlerStagingPoolError (''Page 0x'' @ show_base 16 (unat vaddr) @ '' not found'')), h)
     | Some page_state \<Rightarrow>
         let local_node = cp_local_node_id (uh_control_plane h); owner = pe_primary_owner page_state
         in if pe_coherence_state page_state = InFlight
            then resolve_with_zeropage env vaddr
                   (h\<lparr>uh_stats := (uh_stats h)\<lparr>fs_zero_page_faults := fs_zero_page_faults (uh_stats h) + 1\<rparr>\<rparr>)
            else if owner \<noteq> local_node
            then case fetch_remote_page env vaddr owner (begin_remote vaddr owner h) of
                   (Inl e, h1) \<Rightarrow> (Err e, h1)
                 | (Inr _, h1) \<Rightarrow> (Ok (), finish_remote vaddr owner local_node h1)
            else resolve_local_missing env vaddr
                   (h\<lparr>uh_stats := (uh_stats h)\<lparr>fs_local_faults := fs_local_faults (uh_stats h) + 1\<rparr>\<rparr>))"

definition count_fault :: "'addr UffdHandler \<Rightarrow> 'addr UffdHandler" where
  "count_fault h = h\<lparr>uh_stats := (uh_stats h)\<lparr>fs_total_faults := fs_total_faults (uh_stats h) + 1\<rparr>\<rparr>"

definition process_fault_batch ::
    "(('addr, 'rma) fault_env \<times> u64) list \<Rightarrow> 'addr UffdHandler \<Rightarrow>
     ('rma UffdHandlerError, unit) result list \<times> 'addr UffdHandler" where
  "process_fault_batch = map_state (\<lambda>(env, vaddr) h. handle_page_fault env vaddr (count_fault h))"

text \<open>An event read from the descriptor, and one polling call with the spawned handler run to its end.\<close>

datatype UffdEvent = Pagefault u64 | OtherEvent

definition poll_and_handle ::
    "(string, bool) result \<Rightarrow> (string, UffdEvent option) result \<Rightarrow> ('addr, 'rma) fault_env \<Rightarrow> 'addr UffdHandler \<Rightarrow>
     ('rma UffdHandlerError, bool) result \<times> 'addr UffdHandler" where
  "poll_and_handle ready event env h =
    (case ready of
       Inl e \<Rightarrow> (Err (ReadFailed e), h)
     | Inr False \<Rightarrow> (Ok False, h)
     | Inr True \<Rightarrow>
         case event of
           Inl e \<Rightarrow> (Err (ReadFailed e), h)
         | Inr None \<Rightarrow> (Ok False, h)
         | Inr (Some OtherEvent) \<Rightarrow> (Ok True, h)
         | Inr (Some (Pagefault vaddr)) \<Rightarrow>
             case handle_page_fault env vaddr (count_fault h) of
               (Inl e, h1) \<Rightarrow>
                 (Ok True, h1\<lparr>uh_stats := (uh_stats h1)\<lparr>fs_failed_faults := fs_failed_faults (uh_stats h1) + 1\<rparr>\<rparr>)
             | (Inr _, h1) \<Rightarrow> (Ok True, h1))"

section \<open>Effects on the control plane\<close>

lemma on_cp_simps [simp]:
  "uh_control_plane (on_cp f h) = snd (f (uh_control_plane h))" "uh_staging_pool (on_cp f h) = uh_staging_pool h"
  "uh_prefetched_pages (on_cp f h) = uh_prefetched_pages h"
  by (simp_all add: on_cp_def)

lemma count_simps [simp]:
  "uh_control_plane (count_move h) = uh_control_plane h" "uh_staging_pool (count_move h) = uh_staging_pool h"
  "uh_control_plane (count_fault h) = uh_control_plane h" "uh_staging_pool (count_fault h) = uh_staging_pool h"
  "uh_prefetched_pages (count_fault h) = uh_prefetched_pages h"
  by (simp_all add: count_move_def count_fault_def)

lemma move_slot_cp: "uh_control_plane (snd (move_slot env v slot h)) = uh_control_plane h"
  by (simp add: move_slot_def Let_def split: sum.splits)

lemma fetch_cp: "uh_control_plane (snd (fetch_remote_page env v owner h)) = uh_control_plane h"
  by (auto simp: move_slot_cp fetch_remote_page_def Let_def split: option.splits sum.splits prod.splits)

lemma page_update_simps:
  assumes "cp_page_states cp v = Some e" "st \<noteq> ExclusiveWrite"
  shows "cp_page_states (snd (update_page_state v st owner cp)) =
      (cp_page_states cp)(v \<mapsto> e\<lparr>pe_coherence_state := st, pe_primary_owner := owner\<rparr>)"
    "cp_local_node_id (snd (update_page_state v st owner cp)) = cp_local_node_id cp"
  using assms by (simp_all add: update_page_state_def modify_page_def Let_def)

lemma begin_remote_page:
  assumes "cp_page_states (uh_control_plane h) v = Some e"
  shows "cp_page_states (uh_control_plane (begin_remote v owner h)) =
      (cp_page_states (uh_control_plane h))(v \<mapsto> e\<lparr>pe_coherence_state := InFlight, pe_primary_owner := owner\<rparr>)"
    "cp_local_node_id (uh_control_plane (begin_remote v owner h)) = cp_local_node_id (uh_control_plane h)"
  using assms by (simp_all add: begin_remote_def page_update_simps)

lemma handle_remote_unfold:
  assumes "lookup_page_state v (uh_control_plane h) = Some e" "pe_coherence_state e \<noteq> InFlight"
    and "pe_primary_owner e \<noteq> cp_local_node_id (uh_control_plane h)"
  shows "handle_page_fault env v h =
    (case fetch_remote_page env v (pe_primary_owner e) (begin_remote v (pe_primary_owner e) h) of
       (Inl x, h1) \<Rightarrow> (Err x, h1)
     | (Inr _, h1) \<Rightarrow> (Ok (), finish_remote v (pe_primary_owner e) (cp_local_node_id (uh_control_plane h)) h1))"
  using assms by (simp add: handle_page_fault_def Let_def)

lemma handle_inflight:
  assumes "lookup_page_state v (uh_control_plane h) = Some e" "pe_coherence_state e = InFlight"
    and "uffd_zeropage (fe_kernel env) v 4096 = Ok ()"
  shows "fst (handle_page_fault env v h) = Ok ()"
    "lookup_page_state v (uh_control_plane (snd (handle_page_fault env v h))) =
      Some (e\<lparr>pe_coherence_state := SharedRead, pe_primary_owner := cp_local_node_id (uh_control_plane h)\<rparr>)"
  using assms by (simp_all add: handle_page_fault_def resolve_with_zeropage_def lookup_page_state_def page_update_simps Let_def)

lemma remote_fault_effect:
  assumes "lookup_page_state v (uh_control_plane h) = Some e" "pe_coherence_state e \<noteq> InFlight"
    and "pe_primary_owner e \<noteq> cp_local_node_id (uh_control_plane h)" "handle_page_fault env v h = (r, h')"
  shows "cp_page_states (uh_control_plane h') = (cp_page_states (uh_control_plane h))(v \<mapsto>
     (if is_ok r
      then e\<lparr>pe_coherence_state := SharedRead,
             pe_replica_holders := (if cp_local_node_id (uh_control_plane h) \<in> set (pe_replica_holders e) then pe_replica_holders e
               else pe_replica_holders e @ [cp_local_node_id (uh_control_plane h)])\<rparr>
      else e\<lparr>pe_coherence_state := InFlight\<rparr>))"
    "cp_local_node_id (uh_control_plane h') = cp_local_node_id (uh_control_plane h)"
proof -
  let ?o = "pe_primary_owner e" and ?l = "cp_local_node_id (uh_control_plane h)"
  have e: "cp_page_states (uh_control_plane h) v = Some e"
    using assms(1) by (simp add: lookup_page_state_def)
  obtain r1 h1 where f: "fetch_remote_page env v ?o (begin_remote v ?o h) = (r1, h1)"
    by (cases "fetch_remote_page env v ?o (begin_remote v ?o h)")
  have cp1: "uh_control_plane h1 = uh_control_plane (begin_remote v ?o h)"
    using fetch_cp [of env v ?o "begin_remote v ?o h", unfolded f] by simp
  note b = begin_remote_page [OF e, of ?o, folded cp1]
  note hd = assms(4) [unfolded handle_remote_unfold [OF assms(1-3)] f]
  have "cp_page_states (uh_control_plane h') = (cp_page_states (uh_control_plane h))(v \<mapsto>
     (if is_ok r
      then e\<lparr>pe_coherence_state := SharedRead,
             pe_replica_holders := (if ?l \<in> set (pe_replica_holders e) then pe_replica_holders e
               else pe_replica_holders e @ [?l])\<rparr>
      else e\<lparr>pe_coherence_state := InFlight\<rparr>)) \<and> cp_local_node_id (uh_control_plane h') = ?l"
  proof (cases r1)
    case (Inl x)
    with hd b show ?thesis
      by auto
  next
    case (Inr u)
    then have "r = Ok ()" "h' = finish_remote v ?o ?l h1"
      using hd by simp_all
    then show ?thesis
      using b by (auto simp: finish_remote_def add_reader_def modify_page_def page_update_simps)
  qed
  then show "cp_page_states (uh_control_plane h') = (cp_page_states (uh_control_plane h))(v \<mapsto>
     (if is_ok r
      then e\<lparr>pe_coherence_state := SharedRead,
             pe_replica_holders := (if ?l \<in> set (pe_replica_holders e) then pe_replica_holders e
               else pe_replica_holders e @ [?l])\<rparr>
      else e\<lparr>pe_coherence_state := InFlight\<rparr>))" "cp_local_node_id (uh_control_plane h') = ?l"
    by simp_all
qed

section \<open>Effects on the pool\<close>

definition free_slots :: "'addr UffdHandler \<Rightarrow> nat" where
  "free_slots h = available_slots (uh_staging_pool h)"

text \<open>A fault that is resolved from the pool: the page is known, not in flight and not prefetched.\<close>

definition needs_slot :: "u64 \<Rightarrow> 'addr UffdHandler \<Rightarrow> bool" where
  "needs_slot v h \<longleftrightarrow>
    (case lookup_page_state v (uh_control_plane h) of
       None \<Rightarrow> False
     | Some e \<Rightarrow> pe_coherence_state e \<noteq> InFlight \<and>
         (pe_primary_owner e = cp_local_node_id (uh_control_plane h) \<or>
          (\<forall>m. uh_prefetched_pages h = Some m \<longrightarrow> m v = None)))"

lemma pop_slot_free: "pop_slot p = (Inr s, p') \<Longrightarrow> available_slots p = Suc (available_slots p')"
  by (auto simp: pop_slot_def available_slots_def split: list.splits)

lemma push_slot_free: "available_slots (snd (push_slot i p)) \<le> Suc (available_slots p)"
  by (simp add: push_slot_def available_slots_def)

lemma move_slot_free:
  assumes "move_slot env v slot h = (r, h')"
  shows "free_slots h' \<le> Suc (free_slots h)" "is_ok r \<Longrightarrow> free_slots h' = free_slots h"
  using assms push_slot_free [of "slot_idx slot" "uh_staging_pool h"]
  by (auto simp: move_slot_def free_slots_def Let_def split: sum.splits)

lemma local_missing_free:
  assumes "resolve_local_missing env v h = (r, h')"
  shows "free_slots h' \<le> free_slots h" "is_ok r \<Longrightarrow> Suc (free_slots h') = free_slots h"
proof -
  have "free_slots h' \<le> free_slots h \<and> (is_ok r \<longrightarrow> Suc (free_slots h') = free_slots h)"
  proof (cases "pop_slot (uh_staging_pool h)")
    case (Pair r1 p1)
    show ?thesis
    proof (cases r1)
      case (Inl e)
      with assms Pair show ?thesis
        by (auto simp: resolve_local_missing_def)
    next
      case (Inr slot)
      let ?h = "h\<lparr>uh_staging_pool := p1\<rparr>"
      have n: "free_slots h = Suc (free_slots ?h)"
        using pop_slot_free Pair Inr by (simp add: free_slots_def)
      obtain r2 h2 where m: "move_slot env v slot ?h = (r2, h2)"
        by (cases "move_slot env v slot ?h")
      from assms Pair Inr m have "is_ok r = is_ok r2" "free_slots h' = free_slots h2"
        by (auto simp: resolve_local_missing_def free_slots_def Let_def split: sum.splits)
      with n move_slot_free [OF m] show ?thesis
        by simp
    qed
  qed
  then show "free_slots h' \<le> free_slots h" "is_ok r \<Longrightarrow> Suc (free_slots h') = free_slots h"
    by simp_all
qed

lemma fetch_free:
  assumes "fetch_remote_page env v owner h = (r, h')"
  shows "free_slots h' \<le> free_slots h"
    "is_ok r \<Longrightarrow> (\<forall>m. uh_prefetched_pages h = Some m \<longrightarrow> m v = None) \<Longrightarrow> Suc (free_slots h') = free_slots h"
proof -
  let ?pre = "Option.bind (uh_prefetched_pages h) (\<lambda>m. map_option (Pair m) (m v))"
  have "free_slots h' \<le> free_slots h \<and> (is_ok r \<and> ?pre = None \<longrightarrow> Suc (free_slots h') = free_slots h)"
  proof (cases "?pre = None \<and> (\<exists>info slot p1 u. get_remote_node owner (uh_control_plane h) = Some info \<and>
      pop_slot (uh_staging_pool h) = (Inr slot, p1) \<and>
      fe_rdma_read env (re_socket_addr info) v (re_metadata_rkey info) (slot_vaddr slot) (slot_size slot) = Inr u)")
    case True
    then obtain slot p1 where s: "pop_slot (uh_staging_pool h) = (Inr slot, p1)"
      "move_slot env v slot (h\<lparr>uh_staging_pool := p1\<rparr>) = (r, h')"
      using assms by (auto simp: fetch_remote_page_def Let_def)
    have "free_slots h = Suc (free_slots (h\<lparr>uh_staging_pool := p1\<rparr>))"
      using pop_slot_free [OF s(1)] by (simp add: free_slots_def)
    with move_slot_free [OF s(2)] show ?thesis
      by simp
  next
    case False
    with assms show ?thesis
      by (auto simp: fetch_remote_page_def free_slots_def Let_def split: option.splits prod.splits sum.splits
          dest: pop_slot_free)
  qed
  then show "free_slots h' \<le> free_slots h"
    "is_ok r \<Longrightarrow> (\<forall>m. uh_prefetched_pages h = Some m \<longrightarrow> m v = None) \<Longrightarrow> Suc (free_slots h') = free_slots h"
    by (auto simp: bind_eq_None_conv)
qed

lemma handle_free:
  assumes "handle_page_fault env v h = (r, h')"
  shows "free_slots h' \<le> free_slots h" "is_ok r \<Longrightarrow> needs_slot v h \<Longrightarrow> Suc (free_slots h') = free_slots h"
proof -
  have "free_slots h' \<le> free_slots h \<and> (is_ok r \<and> needs_slot v h \<longrightarrow> Suc (free_slots h') = free_slots h)"
  proof (cases "lookup_page_state v (uh_control_plane h)")
    case None
    with assms show ?thesis
      by (auto simp: handle_page_fault_def needs_slot_def)
  next
    case (Some e)
    let ?o = "pe_primary_owner e"
    consider (flight) "pe_coherence_state e = InFlight"
      | (remote) "pe_coherence_state e \<noteq> InFlight" "?o \<noteq> cp_local_node_id (uh_control_plane h)"
      | (local) "pe_coherence_state e \<noteq> InFlight" "?o = cp_local_node_id (uh_control_plane h)"
      by blast
    then show ?thesis
    proof cases
      case flight
      with assms Some show ?thesis
        by (auto simp: handle_page_fault_def needs_slot_def resolve_with_zeropage_def free_slots_def Let_def
            split: sum.splits)
    next
      case remote
      obtain r1 h1 where f: "fetch_remote_page env v ?o (begin_remote v ?o h) = (r1, h1)"
        by (cases "fetch_remote_page env v ?o (begin_remote v ?o h)")
      have "is_ok r = is_ok r1" "free_slots h' = free_slots h1"
        using assms f unfolding handle_remote_unfold [OF Some remote]
        by (auto simp: free_slots_def finish_remote_def split: sum.splits)
      moreover have "free_slots (begin_remote v ?o h) = free_slots h"
        "uh_prefetched_pages (begin_remote v ?o h) = uh_prefetched_pages h"
        by (simp_all add: free_slots_def begin_remote_def)
      ultimately show ?thesis
        using fetch_free [OF f] Some remote by (auto simp: needs_slot_def)
    next
      case local
      let ?h = "h\<lparr>uh_stats := (uh_stats h)\<lparr>fs_local_faults := fs_local_faults (uh_stats h) + 1\<rparr>\<rparr>"
      have "resolve_local_missing env v ?h = (r, h')" "free_slots ?h = free_slots h"
        using assms Some local by (simp_all add: handle_page_fault_def free_slots_def Let_def)
      with local_missing_free show ?thesis
        by metis
    qed
  qed
  then show "free_slots h' \<le> free_slots h" "is_ok r \<Longrightarrow> needs_slot v h \<Longrightarrow> Suc (free_slots h') = free_slots h"
    by simp_all
qed

section \<open>Properties\<close>

text \<open>
  C25: the outcome of a fault on a remote page.  For a known page that another node owns
  and that is not in flight, the handler changes only this page's entry and keeps its
  owner and version.  If it succeeds the page is a shared copy with the local node added
  to the readers, once; if it fails, whatever the reason, the page is left in flight.
\<close>

theorem remote_fault_outcome:
  assumes "lookup_page_state v (uh_control_plane h) = Some e" "pe_coherence_state e \<noteq> InFlight"
    and "pe_primary_owner e \<noteq> cp_local_node_id (uh_control_plane h)" "distinct (pe_replica_holders e)"
    and "handle_page_fault env v h = (r, h')"
  shows "(\<forall>u. u \<noteq> v \<longrightarrow> lookup_page_state u (uh_control_plane h') = lookup_page_state u (uh_control_plane h)) \<and>
    (\<exists>e'. lookup_page_state v (uh_control_plane h') = Some e' \<and> distinct (pe_replica_holders e') \<and>
       pe_primary_owner e' = pe_primary_owner e \<and> pe_version e' = pe_version e \<and>
       (if is_ok r
        then pe_coherence_state e' = SharedRead \<and>
             set (pe_replica_holders e') = insert (cp_local_node_id (uh_control_plane h)) (set (pe_replica_holders e))
        else pe_coherence_state e' = InFlight \<and> pe_replica_holders e' = pe_replica_holders e))"
  using remote_fault_effect [OF assms(1-3,5)] assms(4) by (auto simp: lookup_page_state_def insert_absorb)

text \<open>A kernel that moves whole ranges, a network that always or never delivers, and a node with one remote page.\<close>

definition sample_env :: "bool \<Rightarrow> (unit, unit) fault_env" where
  "sample_env up =
    \<lparr>fe_kernel = \<lparr>kn_sysconf_page_size = 4096, kn_move = (\<lambda>_ a. Ok (uint (mv_len a))),
       kn_copy = (\<lambda>_ a. Ok (uint (cy_len a))), kn_zeropage = (\<lambda>_ _. Ok ()), kn_writeprotect = (\<lambda>_ _. Ok ())\<rparr>,
     fe_rdma_read = (\<lambda>_ _ _ _ _. if up then Ok () else Err ())\<rparr>"

definition sample_node :: "unit UffdHandler" where
  "sample_node =
    \<lparr>uh_control_plane = (register_remote_node (RemoteEndpoint_new (NodeId 2) ()) (ControlPlane_new (NodeId 1)))
       \<lparr>cp_page_states := [0x8000 \<mapsto> PageEntry_new 0x8000 4096 (NodeId 2)]\<rparr>,
     uh_staging_pool = sample_pool, uh_regions = Map.empty, uh_stats = FaultStats_default, uh_prefetched_pages = None\<rparr>"

lemma sample_node_page:
  "lookup_page_state 0x8000 (uh_control_plane sample_node) = Some (PageEntry_new 0x8000 4096 (NodeId 2))"
  "cp_local_node_id (uh_control_plane sample_node) = NodeId 1"
  by (simp_all add: sample_node_def lookup_page_state_def register_remote_node_def ControlPlane_new_def)

lemma sample_fault:
  "fst (handle_page_fault (sample_env True) 0x8000 sample_node) = Ok ()"
  "fst (handle_page_fault (sample_env False) 0x8000 sample_node) = Err (HandlerRdmaError ())"
  by (simp_all add: handle_remote_unfold [OF sample_node_page(1)] sample_node_page(2) PageEntry_new_def)
    (simp_all add: fetch_remote_page_def begin_remote_def on_cp_def get_remote_node_def sample_node_def sample_pool_def
      register_remote_node_def RemoteEndpoint_new_def ControlPlane_new_def update_page_state_def modify_page_def
      pop_slot_def sample_env_def move_slot_def uffd_move_def get_page_size_def Let_def)

theorem remote_fault_outcome_witness:
  "\<exists>e'. lookup_page_state 0x8000 (uh_control_plane (snd (handle_page_fault (sample_env True) 0x8000 sample_node))) = Some e' \<and>
     pe_coherence_state e' = SharedRead \<and> set (pe_replica_holders e') = {NodeId 1} \<and> pe_primary_owner e' = NodeId 2"
proof -
  let ?f = "handle_page_fault (sample_env True) 0x8000 sample_node"
  have "?f = (Ok (), snd ?f)"
    using sample_fault(1) by (metis prod.collapse)
  from remote_fault_outcome [OF sample_node_page(1) _ _ _ this] show ?thesis
    by (auto simp: PageEntry_new_def sample_node_page(2))
qed

text \<open>
  A failed fetch replaces the page by zeros.  When the handler of a fault on a remote
  page fails, the next fault on the same page maps a zero page and succeeds, and the
  control plane then records the local node as the owner of a shared copy, under the
  version of the data that was never fetched.
\<close>

theorem failed_fetch_loses_page:
  assumes "lookup_page_state v (uh_control_plane h) = Some e" "pe_coherence_state e \<noteq> InFlight"
    and "pe_primary_owner e \<noteq> cp_local_node_id (uh_control_plane h)" "handle_page_fault env v h = (Err x, h1)"
    and "uffd_zeropage (fe_kernel env') v 4096 = Ok ()"
  shows "\<exists>h2. handle_page_fault env' v h1 = (Ok (), h2) \<and>
    lookup_page_state v (uh_control_plane h2) =
      Some (e\<lparr>pe_coherence_state := SharedRead, pe_primary_owner := cp_local_node_id (uh_control_plane h)\<rparr>)"
proof -
  note eff = remote_fault_effect [OF assms(1-4)]
  have "lookup_page_state v (uh_control_plane h1) = Some (e\<lparr>pe_coherence_state := InFlight\<rparr>)"
    using eff(1) by (simp add: lookup_page_state_def)
  from handle_inflight [OF this _ assms(5)] eff(2) show ?thesis
    by (cases "handle_page_fault env' v h1") simp
qed

theorem failed_fetch_loses_page_witness:
  "\<exists>h1 h2 e. handle_page_fault (sample_env False) 0x8000 sample_node = (Err (HandlerRdmaError ()), h1) \<and>
     handle_page_fault (sample_env True) 0x8000 h1 = (Ok (), h2) \<and>
     lookup_page_state 0x8000 (uh_control_plane h2) = Some e \<and> pe_primary_owner e = NodeId 1"
proof -
  let ?f = "handle_page_fault (sample_env False) 0x8000 sample_node"
  have f: "?f = (Err (HandlerRdmaError ()), snd ?f)"
    using sample_fault(2) by (metis prod.collapse)
  from failed_fetch_loses_page [OF sample_node_page(1) _ _ f, of "sample_env True"] f show ?thesis
    by (fastforce simp: PageEntry_new_def sample_node_page(2) sample_env_def uffd_zeropage_def)
qed

text \<open>The faults of a batch that are resolved from the pool.\<close>

fun served :: "(('addr, 'rma) fault_env \<times> u64) list \<Rightarrow> 'addr UffdHandler \<Rightarrow> nat" where
  "served [] h = 0"
| "served ((env, v) # xs) h =
    (case handle_page_fault env v (count_fault h) of
       (r, h') \<Rightarrow> (if is_ok r \<and> needs_slot v h then 1 else 0) + served xs h')"

text \<open>
  C40: faults use the staging pool up.  In any batch of faults, whatever the kernel and
  the network do, the number of faults resolved from the staging pool and the number of
  slots free afterwards together do not exceed the number of slots free before: no slot
  of a resolved fault ever comes back.
\<close>

theorem uffd_slots_never_return:
  "served xs h + available_slots (uh_staging_pool (snd (process_fault_batch xs h))) \<le> available_slots (uh_staging_pool h)"
proof (induction xs arbitrary: h)
  case (Cons x xs)
  obtain env v where x: "x = (env, v)"
    by (cases x)
  obtain r h' where f: "handle_page_fault env v (count_fault h) = (r, h')"
    by (cases "handle_page_fault env v (count_fault h)")
  have same: "free_slots (count_fault h) = free_slots h" "needs_slot v (count_fault h) = needs_slot v h"
    by (simp_all add: free_slots_def needs_slot_def split: option.splits)
  from handle_free [OF f] Cons.IH [of h'] show ?case
    unfolding x same by (auto simp: f process_fault_batch_def free_slots_def)
qed (simp add: process_fault_batch_def)

end
