(* ===== verification/Ebpf.thy ===== *)
theory Ebpf
  imports Domain Lock_Spec
begin

text \<open>
  The eBPF crate: the region and lock tables of the user-space controller, from
  \<open>src/klnk/klnk-ebpf/src/main.rs\<close>, and the stride detector that turns page-access
  events into prefetch recommendations, from \<open>src/klnk/klnk-ebpf/src/lib.rs\<close>.  Instants
  are natural numbers that the caller supplies; a stride, an \<open>i64\<close> in the source, is the
  64-bit word of its bits, on which wrapping subtraction and equality are the same.
\<close>

section \<open>Controller tables\<close>

datatype EbpfManagerError =
    EbpfRegionAlreadyExists GlobalRegionId
  | EbpfRegionNotFound GlobalRegionId
  | EbpfAddressNotMapped u64 GlobalRegionId
  | EbpfLockConflict u64 u32
  | EbpfLockNotHeld u64 u32

record RegionState =
  rs_region_id :: GlobalRegionId
  rs_base_vaddr :: u64
  rs_size :: nat
  rs_owner_node :: NodeId

record PageState =
  ps_vaddr :: u64
  ps_coherence_state :: u8

record EbpfLockState =
  els_resource_id :: u64
  els_holder_pid :: "u32 option"

record EbpfManager =
  em_regions :: "GlobalRegionId \<rightharpoonup> RegionState"
  em_page_states :: "u64 \<rightharpoonup> PageState"
  em_locks :: "u64 \<rightharpoonup> EbpfLockState"

definition EbpfManager_new :: EbpfManager where
  "EbpfManager_new = \<lparr>em_regions = Map.empty, em_page_states = Map.empty, em_locks = Map.empty\<rparr>"

definition ebpf_register_region :: "RegionState \<Rightarrow> EbpfManager \<Rightarrow> (EbpfManagerError, unit) result \<times> EbpfManager" where
  "ebpf_register_region region m =
    (let key = rs_region_id region
     in if em_regions m key \<noteq> None then (Err (EbpfRegionAlreadyExists key), m)
        else (Ok (), m\<lparr>em_regions := (em_regions m)(key \<mapsto> region)\<rparr>))"

definition ebpf_unregister_region ::
    "GlobalRegionId \<Rightarrow> EbpfManager \<Rightarrow> (EbpfManagerError, unit) result \<times> EbpfManager" where
  "ebpf_unregister_region rid m =
    (if em_regions m rid = None then (Err (EbpfRegionNotFound rid), m)
     else (Ok (), m\<lparr>em_regions := (em_regions m)(rid := None)\<rparr>))"

definition ebpf_get_region :: "GlobalRegionId \<Rightarrow> EbpfManager \<Rightarrow> RegionState option" where
  "ebpf_get_region rid m = em_regions m rid"

definition ebpf_get_page_state :: "u64 \<Rightarrow> EbpfManager \<Rightarrow> PageState option" where
  "ebpf_get_page_state vaddr m = em_page_states m vaddr"

definition ebpf_acquire_lock ::
    "u64 \<Rightarrow> u32 \<Rightarrow> EbpfManager \<Rightarrow> (EbpfManagerError, unit) result \<times> EbpfManager" where
  "ebpf_acquire_lock r pid m =
    (let ls = (case em_locks m r of Some ls \<Rightarrow> ls | None \<Rightarrow> \<lparr>els_resource_id = r, els_holder_pid = None\<rparr>);
         store = (\<lambda>ls. m\<lparr>em_locks := (em_locks m)(r \<mapsto> ls)\<rparr>)
     in case els_holder_pid ls of
          Some current_holder \<Rightarrow>
            if current_holder \<noteq> pid then (Err (EbpfLockConflict r pid), store ls)
            else (Ok (), store (ls\<lparr>els_holder_pid := Some pid\<rparr>))
        | None \<Rightarrow> (Ok (), store (ls\<lparr>els_holder_pid := Some pid\<rparr>)))"

definition ebpf_release_lock ::
    "u64 \<Rightarrow> u32 \<Rightarrow> EbpfManager \<Rightarrow> (EbpfManagerError, unit) result \<times> EbpfManager" where
  "ebpf_release_lock r pid m =
    (case em_locks m r of
       Some ls \<Rightarrow>
         if els_holder_pid ls = Some pid
         then (Ok (), m\<lparr>em_locks := (em_locks m)(r \<mapsto> ls\<lparr>els_holder_pid := None\<rparr>)\<rparr>)
         else (Err (EbpfLockNotHeld r pid), m)
     | None \<Rightarrow> (Err (EbpfLockNotHeld r pid), m))"

section \<open>Stride detection\<close>

record AccessEvent =
  ev_timestamp_ns :: u64
  ev_pid :: u32
  ev_vaddr :: u64
  ev_is_write :: bool

record PrefetchRecommendation =
  pr_pid :: u32
  pr_base_vaddr :: u64
  pr_stride_bytes :: u64
  pr_count :: nat

record StrideState =
  st_last_vaddr :: u64
  st_last_stride :: u64
  st_confidence :: nat
  st_last_access_time :: nat

definition StrideState_new :: "u64 \<Rightarrow> nat \<Rightarrow> StrideState" where
  "StrideState_new vaddr now =
    \<lparr>st_last_vaddr = vaddr, st_last_stride = 0, st_confidence = 0, st_last_access_time = now\<rparr>"

record StrideDetector =
  sd_state :: "u32 \<rightharpoonup> StrideState"
  sd_decay_interval :: nat
  sd_min_confidence :: nat
  sd_max_prefetch_count :: nat

definition StrideDetector_default :: StrideDetector where
  "StrideDetector_default =
    \<lparr>sd_state = Map.empty, sd_decay_interval = 100000000, sd_min_confidence = 2, sd_max_prefetch_count = 16\<rparr>"

definition with_params :: "nat \<Rightarrow> nat \<Rightarrow> nat \<Rightarrow> StrideDetector" where
  "with_params decay_interval min_confidence max_prefetch_count =
    \<lparr>sd_state = Map.empty, sd_decay_interval = decay_interval, sd_min_confidence = min_confidence,
     sd_max_prefetch_count = max_prefetch_count\<rparr>"

text \<open>The part of an event's processing that works on the state of one process.\<close>

definition stride_update ::
    "StrideDetector \<Rightarrow> u32 \<Rightarrow> u64 \<Rightarrow> nat \<Rightarrow> StrideState \<Rightarrow> PrefetchRecommendation option \<times> StrideState" where
  "stride_update sd pid vaddr now st0 =
    (let st1 = (if now - st_last_access_time st0 > sd_decay_interval sd
                then st0\<lparr>st_confidence := max (st_confidence st0 - 1) 0\<rparr> else st0);
         st2 = st1\<lparr>st_last_access_time := now\<rparr>;
         stride = vaddr - st_last_vaddr st2
     in if stride = 0 then (None, st2)
        else
          let st3 = (if stride = st_last_stride st2
                     then st2\<lparr>st_confidence := st_confidence st2 + 1\<rparr>
                     else st2\<lparr>st_confidence := 1, st_last_stride := stride\<rparr>);
              st4 = st3\<lparr>st_last_vaddr := vaddr\<rparr>
          in (if st_confidence st4 \<ge> sd_min_confidence sd
              then Some \<lparr>pr_pid = pid, pr_base_vaddr = vaddr + stride, pr_stride_bytes = stride,
                         pr_count = min (st_confidence st4 * 2) (sd_max_prefetch_count sd)\<rparr>
              else None, st4))"

definition process_event ::
    "AccessEvent \<times> nat \<Rightarrow> StrideDetector \<Rightarrow> PrefetchRecommendation option \<times> StrideDetector" where
  "process_event = (\<lambda>(event, now) sd.
     let pid = ev_pid event; vaddr = ev_vaddr event;
         st0 = (case sd_state sd pid of Some st \<Rightarrow> st | None \<Rightarrow> StrideState_new vaddr now);
         (rec, st) = stride_update sd pid vaddr now st0
     in (rec, sd\<lparr>sd_state := (sd_state sd)(pid \<mapsto> st)\<rparr>))"

definition clear_pid :: "u32 \<Rightarrow> StrideDetector \<Rightarrow> StrideDetector" where
  "clear_pid pid sd = sd\<lparr>sd_state := (sd_state sd)(pid := None)\<rparr>"

definition clear_all :: "StrideDetector \<Rightarrow> StrideDetector" where
  "clear_all sd = sd\<lparr>sd_state := Map.empty\<rparr>"

section \<open>The lock contract\<close>

definition em_holder :: "EbpfManager \<Rightarrow> u64 \<Rightarrow> u32 option" where
  "em_holder m r = (case em_locks m r of Some ls \<Rightarrow> els_holder_pid ls | None \<Rightarrow> None)"

definition em_acquire :: "u64 \<Rightarrow> u32 \<Rightarrow> EbpfManager \<Rightarrow> bool \<times> EbpfManager" where
  "em_acquire r p m = (is_ok (fst (ebpf_acquire_lock r p m)), snd (ebpf_acquire_lock r p m))"

definition em_release :: "u64 \<Rightarrow> u32 \<Rightarrow> EbpfManager \<Rightarrow> bool \<times> EbpfManager" where
  "em_release r p m = (is_ok (fst (ebpf_release_lock r p m)), snd (ebpf_release_lock r p m))"

lemmas em_lock_defs = em_holder_def em_acquire_def em_release_def ebpf_acquire_lock_def ebpf_release_lock_def Let_def

interpretation emlock: lock_table "\<lambda>_. True" em_holder em_acquire em_release
  by unfold_locales (auto simp: em_lock_defs fun_eq_iff split: option.splits if_splits)

fun em_lock_step :: "LockOp \<Rightarrow> EbpfManager \<Rightarrow> (EbpfManagerError, unit) result \<times> EbpfManager" where
  "em_lock_step (Acquire r p) m = ebpf_acquire_lock r p m"
| "em_lock_step (Release r p) m = ebpf_release_lock r p m"

lemma em_lock_run_state: "snd (emlock.lock_run ops m) = snd (map_state em_lock_step ops m)"
proof (induction ops arbitrary: m)
  case (Cons x ops)
  have "snd (emlock.lock_step x m) = snd (em_lock_step x m)"
    by (cases x) (simp_all add: em_acquire_def em_release_def)
  with Cons show ?case
    by (simp add: emlock.lock_run_def)
qed (simp add: emlock.lock_run_def)

text \<open>A holder keeps its lock, and its release succeeds, after any requests of others.\<close>

lemma ebpf_lock_kept:
  assumes "fst (ebpf_acquire_lock r p m) = Ok ()" "Release r p \<notin> set ops"
  shows "is_ok (fst (ebpf_release_lock r p (snd (map_state em_lock_step ops (snd (ebpf_acquire_lock r p m))))))"
proof -
  have "em_holder (snd (em_acquire r p m)) r = Some p"
    using emlock.acq_holder [where s = m and r = r and p = p] assms(1) by (simp add: em_acquire_def)
  then have "em_holder (snd (emlock.lock_run ops (snd (em_acquire r p m)))) r = Some p"
    using emlock.run_keeps_holder assms(2) by blast
  then show ?thesis
    using emlock.rel_ok by (simp add: em_lock_run_state em_acquire_def em_release_def)
qed

section \<open>Strides\<close>

lemma process_event_frame:
  "ev_pid ev \<noteq> q \<Longrightarrow> sd_state (snd (process_event (ev, now) sd)) q = sd_state sd q"
  by (simp add: process_event_def Let_def case_prod_beta)

text \<open>The state of a process that has made \<open>k\<close> equal steps, the last one to \<open>vaddr\<close> at time \<open>t\<close>.\<close>

definition stride_run :: "u64 \<Rightarrow> nat \<Rightarrow> u64 \<Rightarrow> nat \<Rightarrow> StrideState" where
  "stride_run stride k vaddr t =
    \<lparr>st_last_vaddr = vaddr, st_last_stride = (if k = 0 then 0 else stride), st_confidence = k,
     st_last_access_time = t\<rparr>"

lemma stride_update_run:
  assumes "stride \<noteq> 0" "now \<le> t + sd_decay_interval sd"
  shows "stride_update sd pid (v + stride) now (stride_run stride k v t) =
    (if Suc k \<ge> sd_min_confidence sd
     then Some \<lparr>pr_pid = pid, pr_base_vaddr = v + stride + stride, pr_stride_bytes = stride,
                pr_count = min (Suc k * 2) (sd_max_prefetch_count sd)\<rparr>
     else None, stride_run stride (Suc k) (v + stride) now)"
  using assms by (auto simp: stride_update_def stride_run_def Let_def)

definition stride_events :: "u32 \<Rightarrow> u64 \<Rightarrow> u64 \<Rightarrow> (nat \<Rightarrow> nat) \<Rightarrow> nat \<Rightarrow> nat \<Rightarrow> (AccessEvent \<times> nat) list" where
  "stride_events pid base stride t i n =
    map (\<lambda>k. (\<lparr>ev_timestamp_ns = 0, ev_pid = pid, ev_vaddr = base + of_nat k * stride, ev_is_write = False\<rparr>, t k)) [i ..< i + n]"

definition stride_rec :: "StrideDetector \<Rightarrow> u32 \<Rightarrow> u64 \<Rightarrow> u64 \<Rightarrow> nat \<Rightarrow> PrefetchRecommendation option" where
  "stride_rec sd pid base stride k =
    (if 0 < k \<and> sd_min_confidence sd \<le> k
     then Some \<lparr>pr_pid = pid, pr_base_vaddr = base + of_nat (k + 1) * stride, pr_stride_bytes = stride,
                pr_count = min (k * 2) (sd_max_prefetch_count sd)\<rparr>
     else None)"

lemma stride_rec_upd [simp]: "stride_rec (sd\<lparr>sd_state := m\<rparr>) = stride_rec sd"
  by (simp add: stride_rec_def fun_eq_iff)

lemma stride_events_step:
  assumes "stride \<noteq> 0" "\<forall>k. t (Suc k) \<le> t k + sd_decay_interval sd"
    and "sd_state sd pid = Some (stride_run stride k (base + of_nat k * stride) (t k))"
  shows "fst (map_state process_event (stride_events pid base stride t (Suc k) n) sd) =
    map (stride_rec sd pid base stride) [Suc k ..< Suc k + n]"
  using assms
proof (induction n arbitrary: k sd)
  case (Suc n)
  let ?ev = "(\<lparr>ev_timestamp_ns = 0, ev_pid = pid, ev_vaddr = base + of_nat (Suc k) * stride, ev_is_write = False\<rparr>, t (Suc k))"
  let ?st = "stride_run stride (Suc k) (base + of_nat (Suc k) * stride) (t (Suc k))"
  have "stride_update sd pid (base + of_nat (Suc k) * stride) (t (Suc k))
      (stride_run stride k (base + of_nat k * stride) (t k)) = (stride_rec sd pid base stride (Suc k), ?st)"
    using stride_update_run [OF Suc.prems(1), of "t (Suc k)" "t k" sd pid "base + of_nat k * stride" k] Suc.prems(2)
    by (simp add: stride_rec_def algebra_simps)
  then have ev: "process_event ?ev sd = (stride_rec sd pid base stride (Suc k), sd\<lparr>sd_state := (sd_state sd)(pid \<mapsto> ?st)\<rparr>)"
    using Suc.prems(3) by (simp add: process_event_def Let_def)
  have "stride_events pid base stride t (Suc k) (Suc n) = ?ev # stride_events pid base stride t (Suc (Suc k)) n"
    by (simp add: stride_events_def upt_conv_Cons del: upt_Suc of_nat_Suc)
  with ev Suc.IH [of "sd\<lparr>sd_state := (sd_state sd)(pid \<mapsto> ?st)\<rparr>" "Suc k"] Suc.prems(1,2) show ?case
    by (simp add: upt_conv_Cons del: upt_Suc)
qed (simp add: stride_events_def)

section \<open>Properties\<close>

text \<open>
  Linear access patterns are predicted.  A process that starts fresh and touches
  \<open>base\<close>, \<open>base + stride\<close>, \<open>base + 2 * stride\<close>, ... with no pause longer than the decay
  interval gets no recommendation until \<open>min_confidence\<close> equal steps are seen, and from
  then on, at every access, one that starts at the very next address of the sequence,
  with twice the number of steps seen, capped at the maximum.
\<close>

theorem stride_detected:
  assumes "stride \<noteq> 0" "\<forall>k. t (Suc k) \<le> t k + sd_decay_interval sd" "sd_state sd pid = None"
  shows "fst (map_state process_event (stride_events pid base stride t 0 n) sd) =
    map (\<lambda>k. if 0 < k \<and> sd_min_confidence sd \<le> k
             then Some \<lparr>pr_pid = pid, pr_base_vaddr = base + of_nat (k + 1) * stride, pr_stride_bytes = stride,
                        pr_count = min (k * 2) (sd_max_prefetch_count sd)\<rparr>
             else None) [0 ..< n]"
proof (cases n)
  case (Suc m)
  let ?ev = "(\<lparr>ev_timestamp_ns = 0, ev_pid = pid, ev_vaddr = base, ev_is_write = False\<rparr>, t 0)"
  let ?sd = "sd\<lparr>sd_state := (sd_state sd)(pid \<mapsto> stride_run stride 0 base (t 0))\<rparr>"
  have "process_event ?ev sd = (None, ?sd)"
    using assms(3) by (simp add: process_event_def stride_update_def StrideState_new_def stride_run_def Let_def)
  moreover have "stride_events pid base stride t 0 n = ?ev # stride_events pid base stride t (Suc 0) m"
    by (simp add: stride_events_def Suc upt_conv_Cons del: upt_Suc)
  moreover have "fst (map_state process_event (stride_events pid base stride t (Suc 0) m) ?sd) =
      map (stride_rec ?sd pid base stride) [Suc 0 ..< Suc 0 + m]"
    using assms(1,2) by (intro stride_events_step) simp_all
  ultimately show ?thesis
    using Suc by (simp add: upt_conv_Cons stride_rec_def del: upt_Suc)
qed (simp add: stride_events_def)

theorem stride_detected_witness:
  "fst (map_state process_event (stride_events 7 0x1000 0x100 (\<lambda>k. k * 50) 0 3) StrideDetector_default) =
     [None, None, Some \<lparr>pr_pid = 7, pr_base_vaddr = 0x1300, pr_stride_bytes = 0x100, pr_count = 4\<rparr>]"
  using stride_detected [of "0x100" "\<lambda>k. k * 50" StrideDetector_default 7 "0x1000" 3]
  by (simp add: StrideDetector_default_def numeral_3_eq_3)

end
