(* ===== verification/Prefetch.thy ===== *)
theory Prefetch
  imports Uffd_Handler Ebpf
begin

text \<open>
  The background engines of the daemon around the fault handler: the prefetcher, from
  \<open>src/klnk/klnk-daemon/src/prefetch.rs\<close>, and the batch processor, from
  \<open>src/klnk/klnk-daemon/src/uffd_batch.rs\<close>.  The tasks a recommendation spawns run in an
  order \<open>order\<close> that the scheduler chooses after all of them are spawned; the RDMA read is
  a parameter, as in the fault handler.  A recommendation that waits for a permit of an
  empty semaphore never returns and has the value \<open>None\<close>.
\<close>

section \<open>The prefetcher\<close>

record PrefetchConfig =
  pc_max_concurrent_requests :: nat
  pc_max_prefetch_count :: nat
  pc_enabled :: bool

definition PrefetchConfig_default :: PrefetchConfig where
  "PrefetchConfig_default = \<lparr>pc_max_concurrent_requests = 16, pc_max_prefetch_count = 8, pc_enabled = True\<rparr>"

record PrefetchMetrics =
  pm_total_recommendations :: u64
  pm_total_pages_prefetched :: u64
  pm_total_bytes_prefetched :: u64
  pm_total_prefetch_errors :: u64
  pm_prefetch_hits :: u64

definition PrefetchMetrics_default :: PrefetchMetrics where
  "PrefetchMetrics_default = \<lparr>pm_total_recommendations = 0, pm_total_pages_prefetched = 0,
     pm_total_bytes_prefetched = 0, pm_total_prefetch_errors = 0, pm_prefetch_hits = 0\<rparr>"

record 'addr PrefetchEngine =
  pf_config :: PrefetchConfig
  pf_control_plane :: "'addr cp"
  pf_staging_pool :: StagingMemoryPool
  pf_has_receiver :: bool
  pf_metrics :: PrefetchMetrics
  pf_prefetched_pages :: "u64 \<rightharpoonup> StagingSlotHandle"

definition PrefetchEngine_new :: "PrefetchConfig \<Rightarrow> 'addr cp \<Rightarrow> StagingMemoryPool \<Rightarrow> 'addr PrefetchEngine" where
  "PrefetchEngine_new config cp pool =
    \<lparr>pf_config = config, pf_control_plane = cp, pf_staging_pool = pool, pf_has_receiver = True,
     pf_metrics = PrefetchMetrics_default, pf_prefetched_pages = Map.empty\<rparr>"

text \<open>Starting takes the receiver; starting an enabled engine twice panics.\<close>

definition prefetch_start :: "'addr PrefetchEngine \<Rightarrow> 'addr PrefetchEngine option" where
  "prefetch_start e =
    (if \<not> pc_enabled (pf_config e) then Some e
     else if pf_has_receiver e then Some (e\<lparr>pf_has_receiver := False\<rparr>) else None)"

type_synonym 'addr prefetch_task = "u64 \<times> u64 \<times> 'addr \<times> u32"

definition prefetch_task :: "PrefetchRecommendation \<Rightarrow> 'addr PrefetchEngine \<Rightarrow> nat \<Rightarrow> 'addr prefetch_task option" where
  "prefetch_task rec e i =
    (let vaddr = pr_base_vaddr rec + of_nat i * pr_stride_bytes rec; cp = pf_control_plane e
     in if pf_prefetched_pages e vaddr \<noteq> None then None
        else case lookup_page_state vaddr cp of
               None \<Rightarrow> None
             | Some page_entry \<Rightarrow>
                 if pe_primary_owner page_entry = cp_local_node_id cp then None
                 else if pe_coherence_state page_entry = InFlight then None
                 else case get_remote_node (pe_primary_owner page_entry) cp of
                        None \<Rightarrow> None
                      | Some info \<Rightarrow> Some (vaddr, pe_page_size page_entry, re_socket_addr info, re_metadata_rkey info))"

definition prefetch_tasks :: "PrefetchRecommendation \<Rightarrow> 'addr PrefetchEngine \<Rightarrow> 'addr prefetch_task list" where
  "prefetch_tasks rec e =
    List.map_filter (prefetch_task rec e) [0 ..< min (pr_count rec) (pc_max_prefetch_count (pf_config e))]"

definition prefetch_one_page ::
    "('addr \<Rightarrow> u64 \<Rightarrow> u32 \<Rightarrow> u64 \<Rightarrow> nat \<Rightarrow> ('rma, unit) result) \<Rightarrow> 'addr prefetch_task \<Rightarrow>
     'addr PrefetchEngine \<Rightarrow> 'addr PrefetchEngine" where
  "prefetch_one_page rdma_read = (\<lambda>(vaddr, page_size, peer_addr, remote_rkey) e.
     case pop_slot (pf_staging_pool e) of
       (Inl _, _) \<Rightarrow> e
     | (Inr slot, pool1) \<Rightarrow>
         let len = min (slot_size slot) (unat page_size); m = pf_metrics e
         in (case rdma_read peer_addr vaddr remote_rkey (slot_vaddr slot) len of
               Inr _ \<Rightarrow>
                 e\<lparr>pf_staging_pool := pool1, pf_prefetched_pages := (pf_prefetched_pages e)(vaddr \<mapsto> slot),
                   pf_metrics := m\<lparr>pm_total_pages_prefetched := pm_total_pages_prefetched m + 1,
                     pm_total_bytes_prefetched := pm_total_bytes_prefetched m + of_nat len\<rparr>\<rparr>
             | Inl _ \<Rightarrow>
                 e\<lparr>pf_staging_pool := snd (push_slot (slot_idx slot) pool1),
                   pf_metrics := m\<lparr>pm_total_prefetch_errors := pm_total_prefetch_errors m + 1\<rparr>\<rparr>))"

definition handle_recommendation ::
    "('addr \<Rightarrow> u64 \<Rightarrow> u32 \<Rightarrow> u64 \<Rightarrow> nat \<Rightarrow> ('rma, unit) result) \<Rightarrow>
     ('addr prefetch_task list \<Rightarrow> 'addr prefetch_task list) \<Rightarrow> PrefetchRecommendation \<Rightarrow>
     'addr PrefetchEngine \<Rightarrow> 'addr PrefetchEngine option" where
  "handle_recommendation rdma_read order rec e =
    (let tasks = prefetch_tasks rec e
     in if tasks \<noteq> [] \<and> pc_max_concurrent_requests (pf_config e) = 0 then None
        else Some (fold (prefetch_one_page rdma_read) (order tasks) e))"

definition receive_recommendation ::
    "('addr \<Rightarrow> u64 \<Rightarrow> u32 \<Rightarrow> u64 \<Rightarrow> nat \<Rightarrow> ('rma, unit) result) \<Rightarrow>
     ('addr prefetch_task list \<Rightarrow> 'addr prefetch_task list) \<Rightarrow> PrefetchRecommendation \<Rightarrow>
     'addr PrefetchEngine \<Rightarrow> 'addr PrefetchEngine option" where
  "receive_recommendation rdma_read order rec e =
    handle_recommendation rdma_read order rec
      (e\<lparr>pf_metrics := (pf_metrics e)\<lparr>pm_total_recommendations := pm_total_recommendations (pf_metrics e) + 1\<rparr>\<rparr>)"

definition take_prefetched_slot :: "u64 \<Rightarrow> 'addr PrefetchEngine \<Rightarrow> StagingSlotHandle option \<times> 'addr PrefetchEngine" where
  "take_prefetched_slot vaddr e =
    (pf_prefetched_pages e vaddr, e\<lparr>pf_prefetched_pages := (pf_prefetched_pages e)(vaddr := None)\<rparr>)"

definition record_prefetch_hit :: "'addr PrefetchEngine \<Rightarrow> 'addr PrefetchEngine" where
  "record_prefetch_hit e =
    e\<lparr>pf_metrics := (pf_metrics e)\<lparr>pm_prefetch_hits := pm_prefetch_hits (pf_metrics e) + 1\<rparr>\<rparr>"

section \<open>The batch processor\<close>

record UffdBatchConfig =
  bc_max_batch_size :: nat
  bc_poll_timeout_ms :: int
  bc_idle_sleep_ms :: u64

definition UffdBatchConfig_default :: UffdBatchConfig where
  "UffdBatchConfig_default = \<lparr>bc_max_batch_size = 64, bc_poll_timeout_ms = 0, bc_idle_sleep_ms = 1\<rparr>"

record BatchStats =
  bs_total_batches :: u64
  bs_total_faults_processed :: u64
  bs_avg_batch_size :: u64
  bs_last_batch_duration_ms :: u64

definition BatchStats_default :: BatchStats where
  "BatchStats_default = \<lparr>bs_total_batches = 0, bs_total_faults_processed = 0, bs_avg_batch_size = 0,
     bs_last_batch_duration_ms = 0\<rparr>"

definition record_batch :: "nat \<Rightarrow> u64 \<Rightarrow> BatchStats \<Rightarrow> BatchStats" where
  "record_batch faults duration_ms s =
    (let old_avg = bs_avg_batch_size s;
         new_avg = (if old_avg = 0 then of_nat faults else (old_avg * 7 + of_nat faults) div 8)
     in s\<lparr>bs_total_batches := bs_total_batches s + 1,
          bs_total_faults_processed := bs_total_faults_processed s + of_nat faults,
          bs_avg_batch_size := new_avg, bs_last_batch_duration_ms := duration_ms\<rparr>)"

text \<open>What one poll finds: readiness, the event and the environment of its handler.\<close>

type_synonym ('addr, 'rma) poll_input =
  "(string, bool) result \<times> (string, UffdEvent option) result \<times> ('addr, 'rma) fault_env"

text \<open>The polling loop with \<open>left\<close> faults left in the batch; \<open>polls\<close> gives the outcome of each poll.\<close>

fun batch_loop ::
    "nat \<Rightarrow> nat \<Rightarrow> (nat \<Rightarrow> ('addr, 'rma) poll_input) \<Rightarrow> 'addr UffdHandler \<Rightarrow>
     ('rma UffdHandlerError, nat) result \<times> 'addr UffdHandler" where
  "batch_loop 0 processed polls h = (Ok processed, h)"
| "batch_loop (Suc left) processed polls h =
    (case polls processed of (ready, event, env) \<Rightarrow>
       case poll_and_handle ready event env h of
         (Inr True, h1) \<Rightarrow> batch_loop left (Suc processed) polls h1
       | (Inr False, h1) \<Rightarrow> (Ok processed, h1)
       | (Inl e, h1) \<Rightarrow> (Err e, h1))"

definition process_batch ::
    "UffdBatchConfig \<Rightarrow> (nat \<Rightarrow> ('addr, 'rma) poll_input) \<Rightarrow> u64 \<Rightarrow> BatchStats \<times> 'addr UffdHandler \<Rightarrow>
     ('rma UffdHandlerError, nat) result \<times> BatchStats \<times> 'addr UffdHandler" where
  "process_batch config polls elapsed_ms = (\<lambda>(stats, h).
     case batch_loop (bc_max_batch_size config) 0 polls h of
       (Inl e, h1) \<Rightarrow> (Err e, stats, h1)
     | (Inr processed, h1) \<Rightarrow> (Ok processed, record_batch processed elapsed_ms stats, h1))"

section \<open>Slot accounting of the prefetcher\<close>

lemma take_then_none: "fst (take_prefetched_slot v (snd (take_prefetched_slot v e))) = None"
  by (simp add: take_prefetched_slot_def)

lemma prefetch_one_page_pages:
  "u \<noteq> fst t \<Longrightarrow> pf_prefetched_pages (prefetch_one_page rdma_read t e) u = pf_prefetched_pages e u"
  by (cases t) (auto simp: prefetch_one_page_def Let_def split: prod.splits sum.splits)

lemma pop_inv:
  assumes "sp_inv p" "pop_slot p = (Inr s, p')"
  shows "sp_inv p'" "available_slots p = Suc (available_slots p')" "sp_inv (snd (push_slot (slot_idx s) p'))"
    "available_slots (snd (push_slot (slot_idx s) p')) = available_slots p"
proof -
  obtain i r where f: "sp_free_slots p = i # r"
    using assms(2) by (auto simp: pop_slot_def split: list.splits)
  obtain q where q: "sp_pop p = Some (i, q)" "sp_inv q" "sp_num_slots q = sp_num_slots p" "sp_free_slots q = r"
    using staging.pop_cons [OF assms(1) f] by auto
  have pq: "p' = q" "slot_idx s = i"
    using pop_slot_handle [OF assms(2)] q(1) by auto
  have "i < sp_num_slots q" "i \<notin> set (sp_free_slots q)"
    using staging.free_ok [OF assms(1)] f q(3,4) by auto
  from staging.push_ok [OF q(2) this] q f show "sp_inv p'" "available_slots p = Suc (available_slots p')"
    "sp_inv (snd (push_slot (slot_idx s) p'))" "available_slots (snd (push_slot (slot_idx s) p')) = available_slots p"
    by (simp_all add: pq sp_push_def available_slots_def)
qed

lemma prefetch_one_page_accounts:
  assumes "sp_inv (pf_staging_pool e)" "finite (dom (pf_prefetched_pages e))" "pf_prefetched_pages e (fst t) = None"
    and "e' = prefetch_one_page rdma_read t e"
  shows "sp_inv (pf_staging_pool e')" "finite (dom (pf_prefetched_pages e'))"
    "available_slots (pf_staging_pool e') + card (dom (pf_prefetched_pages e')) =
     available_slots (pf_staging_pool e) + card (dom (pf_prefetched_pages e))"
proof -
  have "sp_inv (pf_staging_pool e') \<and> finite (dom (pf_prefetched_pages e')) \<and>
    available_slots (pf_staging_pool e') + card (dom (pf_prefetched_pages e')) =
    available_slots (pf_staging_pool e) + card (dom (pf_prefetched_pages e))"
  proof (cases "fst (pop_slot (pf_staging_pool e))")
    case (Inl x)
    with assms show ?thesis
      by (cases t) (auto simp: prefetch_one_page_def split: prod.splits)
  next
    case (Inr slot)
    then obtain p1 where p1: "pop_slot (pf_staging_pool e) = (Inr slot, p1)"
      by (metis prod.collapse)
    have "fst t \<notin> dom (pf_prefetched_pages e)"
      using assms(3) by blast
    with assms(2,4) pop_inv [OF assms(1) p1] p1 show ?thesis
      by (cases t) (auto simp: prefetch_one_page_def Let_def split: sum.splits)
  qed
  then show "sp_inv (pf_staging_pool e')" "finite (dom (pf_prefetched_pages e'))"
    "available_slots (pf_staging_pool e') + card (dom (pf_prefetched_pages e')) =
     available_slots (pf_staging_pool e) + card (dom (pf_prefetched_pages e))"
    by simp_all
qed

text \<open>
  A recommendation whose pages have distinct addresses accounts for every slot it takes:
  a slot that leaves the pool is in the map of prefetched pages, in whatever order the
  tasks run and whichever reads fail.
\<close>

lemma prefetch_tasks_account:
  assumes "sp_inv (pf_staging_pool e)" "finite (dom (pf_prefetched_pages e))"
    and "distinct (map fst ts)" "\<forall>t \<in> set ts. pf_prefetched_pages e (fst t) = None"
  shows "available_slots (pf_staging_pool (fold (prefetch_one_page rdma_read) ts e)) +
      card (dom (pf_prefetched_pages (fold (prefetch_one_page rdma_read) ts e))) =
    available_slots (pf_staging_pool e) + card (dom (pf_prefetched_pages e))"
  using assms
proof (induction ts arbitrary: e)
  case (Cons t ts)
  let ?e = "prefetch_one_page rdma_read t e"
  note acc = prefetch_one_page_accounts [OF Cons.prems(1,2) _ refl, of t rdma_read]
  have "\<forall>u \<in> set ts. pf_prefetched_pages ?e (fst u) = None"
  proof
    fix u
    assume u: "u \<in> set ts"
    then have "fst u \<noteq> fst t"
      using Cons.prems(3) by (metis distinct.simps(2) image_eqI list.map(2) list.set_map)
    from prefetch_one_page_pages [OF this, of rdma_read e] u Cons.prems(4) show "pf_prefetched_pages ?e (fst u) = None"
      by simp
  qed
  with Cons.IH [of ?e] acc Cons.prems(3,4) show ?case
    by simp
qed simp

text \<open>A recommendation with stride zero names one page several times; all but the last slot are lost.\<close>

lemma prefetch_duplicate_leaks:
  assumes "pop_slot p = (Inr s1, p1)" "pop_slot p1 = (Inr s2, p2)"
    and "pf_staging_pool e = p" "\<And>a v k d n. rdma_read a v k d n = Ok ()"
  shows "pf_staging_pool (fold (prefetch_one_page rdma_read) [t, t] e) = p2"
    "pf_prefetched_pages (fold (prefetch_one_page rdma_read) [t, t] e) = (pf_prefetched_pages e)(fst t \<mapsto> s2)"
  using assms by (auto simp: prefetch_one_page_def Let_def split: prod.splits)

end
