(* ===== verification/Ipc_Client.thy ===== *)
theory Ipc_Client
  imports Domain Control_Transport
begin

text \<open>
  The interposition shim's side of the daemon connection, from
  \<open>src/klnk/klnk-shim/src/ipc_client.rs\<close>, and its staging allocation, from
  \<open>src/klnk/klnk-shim/src/staging.rs\<close>.  The socket is a parameter: \<open>dial\<close> gives the outcome
  of the \<open>n\<close>-th connection attempt and \<open>exchange\<close> the bytes the peer sends back on a
  connection before it closes, given all the bytes written to it.  Durations are in
  nanoseconds.
\<close>

section \<open>The client\<close>

datatype 'be IpcError =
    ConnectError string string
  | IpcIoError io_error
  | IpcSerializationError 'be
  | NotConnected
  | Timeout nat
  | DaemonError string

datatype IpcRequest =
    RegisterRegion GlobalRegionId u64 u64 u32
  | DeregisterRegion GlobalRegionId
  | IpcHeartbeat

datatype IpcResponse =
    Ack bool string
  | RegionRegistered MemoryRegionDescriptor
  | RegionDeregistered
  | Pong

record 's DaemonIpcClient =
  ic_socket_path :: string
  ic_stream :: "'s option"
  ic_timeout :: nat

definition IpcClient_new :: "string \<Rightarrow> 's DaemonIpcClient" where
  "IpcClient_new path = \<lparr>ic_socket_path = path, ic_stream = None, ic_timeout = 5 * 10 ^ 9\<rparr>"

definition with_timeout :: "nat \<Rightarrow> 's DaemonIpcClient \<Rightarrow> 's DaemonIpcClient" where
  "with_timeout t c = c\<lparr>ic_timeout := t\<rparr>"

text \<open>Setting a read or write timeout of zero is an error of the socket interface.\<close>

definition set_socket_timeout :: "nat \<Rightarrow> (io_error, unit) result" where
  "set_socket_timeout t = (if t = 0 then Err (OtherIo ''cannot set a 0 duration timeout'') else Ok ())"

definition ipc_connect ::
    "(string \<Rightarrow> (string, 's) result) \<Rightarrow> 's DaemonIpcClient \<Rightarrow> ('be IpcError, unit) result \<times> 's DaemonIpcClient" where
  "ipc_connect dial c =
    (case dial (ic_socket_path c) of
       Inl reason \<Rightarrow> (Err (ConnectError (ic_socket_path c) reason), c)
     | Inr stream \<Rightarrow>
         case set_socket_timeout (ic_timeout c) of
           Inl e \<Rightarrow> (Err (IpcIoError e), c)
         | Inr _ \<Rightarrow> (Ok (), c\<lparr>ic_stream := Some stream\<rparr>))"

text \<open>Attempts \<open>attempt\<close> to \<open>attempt + left\<close>.\<close>

fun connect_attempts ::
    "(nat \<Rightarrow> string \<Rightarrow> (string, 's) result) \<Rightarrow> nat \<Rightarrow> nat \<Rightarrow> 's DaemonIpcClient \<Rightarrow>
     ('be IpcError, unit) result \<times> 's DaemonIpcClient" where
  "connect_attempts dial attempt 0 c = ipc_connect (dial attempt) c"
| "connect_attempts dial attempt (Suc left) c =
    (case ipc_connect (dial attempt) c of
       (Inr _, c1) \<Rightarrow> (Ok (), c1)
     | (Inl (e :: 'be IpcError), c1) \<Rightarrow> connect_attempts dial (Suc attempt) left c1)"

definition connect_with_retry ::
    "(nat \<Rightarrow> string \<Rightarrow> (string, 's) result) \<Rightarrow> nat \<Rightarrow> 's DaemonIpcClient \<Rightarrow>
     ('be IpcError, unit) result \<times> 's DaemonIpcClient" where
  "connect_with_retry dial max_retries = connect_attempts dial 0 max_retries"

definition is_connected :: "'s DaemonIpcClient \<Rightarrow> bool" where
  "is_connected c \<longleftrightarrow> ic_stream c \<noteq> None"

definition disconnect :: "'s DaemonIpcClient \<Rightarrow> 's DaemonIpcClient" where
  "disconnect c = c\<lparr>ic_stream := None\<rparr>"

definition ipc_frame :: "u8 list \<Rightarrow> u8 list" where
  "ipc_frame payload = to_be_bytes (of_nat (length payload)) @ payload"

definition send_request ::
    "(IpcRequest \<Rightarrow> ('be, u8 list) result) \<Rightarrow> (u8 list \<Rightarrow> ('be, IpcResponse) result) \<Rightarrow>
     ('s \<Rightarrow> u8 list \<Rightarrow> u8 list) \<Rightarrow> IpcRequest \<Rightarrow> 's DaemonIpcClient \<Rightarrow> ('be IpcError, IpcResponse) result" where
  "send_request ser de exchange request c =
    (case ic_stream c of
       None \<Rightarrow> Err NotConnected
     | Some stream \<Rightarrow>
         case ser request of
           Inl e \<Rightarrow> Err (IpcSerializationError e)
         | Inr payload \<Rightarrow>
             case read_exact 4 (exchange stream (ipc_frame payload)) of
               (Inl e, _) \<Rightarrow> Err (IpcIoError e)
             | (Inr header, input1) \<Rightarrow>
                 case read_exact (unat (from_be_bytes header)) input1 of
                   (Inl e, _) \<Rightarrow> Err (IpcIoError e)
                 | (Inr resp_payload, _) \<Rightarrow>
                     case de resp_payload of Inl e \<Rightarrow> Err (IpcSerializationError e) | Inr response \<Rightarrow> Ok response)"

definition ipc_register_region ::
    "(IpcRequest \<Rightarrow> ('be, u8 list) result) \<Rightarrow> (u8 list \<Rightarrow> ('be, IpcResponse) result) \<Rightarrow>
     ('s \<Rightarrow> u8 list \<Rightarrow> u8 list) \<Rightarrow> GlobalRegionId \<Rightarrow> u64 \<Rightarrow> u64 \<Rightarrow> u32 \<Rightarrow> 's DaemonIpcClient \<Rightarrow>
     ('be IpcError, MemoryRegionDescriptor) result" where
  "ipc_register_region ser de exchange rid vaddr sz flags c =
    (if \<not> is_connected c then Err NotConnected
     else case send_request ser de exchange (RegisterRegion rid vaddr sz flags) c of
            Inl e \<Rightarrow> Err e
          | Inr (RegionRegistered desc) \<Rightarrow> Ok desc
          | Inr (Ack False message) \<Rightarrow> Err (DaemonError message)
          | Inr _ \<Rightarrow> Err (DaemonError ''Unexpected response''))"

definition ipc_deregister_region ::
    "(IpcRequest \<Rightarrow> ('be, u8 list) result) \<Rightarrow> (u8 list \<Rightarrow> ('be, IpcResponse) result) \<Rightarrow>
     ('s \<Rightarrow> u8 list \<Rightarrow> u8 list) \<Rightarrow> GlobalRegionId \<Rightarrow> 's DaemonIpcClient \<Rightarrow> ('be IpcError, unit) result" where
  "ipc_deregister_region ser de exchange rid c =
    (if \<not> is_connected c then Err NotConnected
     else case send_request ser de exchange (DeregisterRegion rid) c of
            Inl e \<Rightarrow> Err e
          | Inr RegionDeregistered \<Rightarrow> Ok ()
          | Inr (Ack False message) \<Rightarrow> Err (DaemonError message)
          | Inr _ \<Rightarrow> Err (DaemonError ''Unexpected response''))"

definition ipc_heartbeat ::
    "(IpcRequest \<Rightarrow> ('be, u8 list) result) \<Rightarrow> (u8 list \<Rightarrow> ('be, IpcResponse) result) \<Rightarrow>
     ('s \<Rightarrow> u8 list \<Rightarrow> u8 list) \<Rightarrow> 's DaemonIpcClient \<Rightarrow> ('be IpcError, unit) result" where
  "ipc_heartbeat ser de exchange c =
    (if \<not> is_connected c then Err NotConnected
     else case send_request ser de exchange IpcHeartbeat c of
            Inl e \<Rightarrow> Err e
          | Inr Pong \<Rightarrow> Ok ()
          | Inr _ \<Rightarrow> Err (DaemonError ''Unexpected heartbeat response''))"

section \<open>The staging allocation\<close>

definition SHIM_PAGE_SIZE :: nat where "SHIM_PAGE_SIZE = 4096"

datatype StagingAllocationError =
    AllocationFailed io_error
  | InvalidSize

record LocalStagingAllocation =
  la_base :: u64
  la_mmap :: "u8 list"
  la_page_size :: nat
  la_num_pages :: nat

text \<open>The page starts written by the pre-touching loop.\<close>

definition pretouch :: "u8 list \<Rightarrow> u8 list" where
  "pretouch m = fold (\<lambda>k m. m[k * SHIM_PAGE_SIZE := 0]) [0 ..< (length m + SHIM_PAGE_SIZE - 1) div SHIM_PAGE_SIZE] m"

definition LocalStaging_new ::
    "(nat \<Rightarrow> (io_error, u64 \<times> u8 list) result) \<Rightarrow> nat \<Rightarrow> (StagingAllocationError, LocalStagingAllocation) result" where
  "LocalStaging_new map_anon num_pages =
    (if num_pages = 0 then Err InvalidSize
     else case map_anon (num_pages * SHIM_PAGE_SIZE) of
            Inl e \<Rightarrow> Err (AllocationFailed e)
          | Inr (base, mmap) \<Rightarrow>
              Ok \<lparr>la_base = base, la_mmap = pretouch mmap, la_page_size = SHIM_PAGE_SIZE, la_num_pages = num_pages\<rparr>)"

definition base_address :: "LocalStagingAllocation \<Rightarrow> u64" where
  "base_address a = la_base a"

definition total_size :: "LocalStagingAllocation \<Rightarrow> nat" where
  "total_size a = length (la_mmap a)"

section \<open>Lemmas\<close>

lemma connect_attempts_spec:
  fixes dial :: "nat \<Rightarrow> string \<Rightarrow> (string, 's) result"
  assumes "0 < ic_timeout c"
  shows "is_ok (fst (connect_attempts dial n left c) :: ('be IpcError, unit) result) \<longleftrightarrow>
      (\<exists>k \<le> left. is_ok (dial (n + k) (ic_socket_path c)))"
  using assms
proof (induction left arbitrary: n c)
  case 0
  then show ?case
    by (simp add: ipc_connect_def set_socket_timeout_def split: sum.splits)
next
  case (Suc left)
  show ?case
  proof (cases "dial n (ic_socket_path c)")
    case (Inl e)
    with Suc.IH [OF Suc.prems, of "Suc n"] Inl show ?thesis
      by (auto simp: ipc_connect_def) (metis is_ok_simps(2) not0_implies_Suc not_less_eq_eq add.right_neutral add_Suc_right)
  next
    case (Inr s)
    with Suc.prems show ?thesis
      by (auto simp: ipc_connect_def set_socket_timeout_def intro: exI [of _ 0])
  qed
qed

lemma length_pretouch: "length (pretouch m) = length m"
proof -
  have "length (fold (\<lambda>k m. m[k * SHIM_PAGE_SIZE := 0]) ks m) = length m" for ks :: "nat list" and m :: "u8 list"
    by (induction ks arbitrary: m) simp_all
  then show ?thesis
    by (simp add: pretouch_def)
qed

lemma LocalStaging_size:
  assumes "LocalStaging_new map_anon n = Ok a" "\<And>k b m. map_anon k = Ok (b, m) \<Longrightarrow> length m = k"
  shows "total_size a = la_num_pages a * la_page_size a" "la_num_pages a = n" "0 < n"
  using assms by (auto simp: LocalStaging_new_def total_size_def length_pretouch SHIM_PAGE_SIZE_def
      split: if_splits sum.splits)

text \<open>A served request: the response of a peer that answers in the shim's own framing.\<close>

lemma send_request_served:
  assumes "ic_stream c = Some s" "ser req = Ok payload" "exchange s (ipc_frame payload) = ipc_frame bs"
    and "length bs < 2 ^ 32" "de bs = Ok resp"
  shows "send_request ser de exchange req c = Ok resp"
proof -
  have "unat (of_nat (length bs) :: u32) = length bs"
    using assms(4) by (simp add: unat_of_nat)
  with assms show ?thesis
    by (simp add: send_request_def ipc_frame_def read_exact_def)
qed

end
