(* ===== verification/Node.thy ===== *)
theory Node
  imports Daemon_Control Invalidation Prefetch Ipc_Client Rma
begin

text \<open>
  One node of the cluster: the daemon's control plane, fault handler, staging pool,
  prefetched pages and invalidation ring, as the tasks of \<open>src/klnk/klnk-daemon/src/main.rs\<close>
  share them, and a step relation whose steps are the calls those tasks make.  The
  invariant of the shared state is preserved by every step.
\<close>

section \<open>Steps of a node\<close>

record 'addr node =
  nd_handler :: "'addr UffdHandler"
  nd_ring :: InvalidationBuffer

abbreviation nd_cp :: "'addr node \<Rightarrow> 'addr cp" where
  "nd_cp s \<equiv> uh_control_plane (nd_handler s)"

definition set_cp :: "'addr cp \<Rightarrow> 'addr node \<Rightarrow> 'addr node" where
  "set_cp cp s = s\<lparr>nd_handler := (nd_handler s)\<lparr>uh_control_plane := cp\<rparr>\<rparr>"

text \<open>The prefetcher's view of the shared state, and the state after its work.\<close>

definition prefetcher :: "PrefetchConfig \<Rightarrow> (u64 \<rightharpoonup> StagingSlotHandle) \<Rightarrow> 'addr node \<Rightarrow> 'addr PrefetchEngine" where
  "prefetcher c m s =
    (PrefetchEngine_new c (nd_cp s) (uh_staging_pool (nd_handler s)))\<lparr>pf_prefetched_pages := m\<rparr>"

definition after_prefetch :: "'addr PrefetchEngine \<Rightarrow> 'addr node \<Rightarrow> 'addr node" where
  "after_prefetch e s =
    s\<lparr>nd_handler := (nd_handler s)\<lparr>uh_staging_pool := pf_staging_pool e,
        uh_prefetched_pages := Some (pf_prefetched_pages e)\<rparr>\<rparr>"

inductive node_step :: "'addr node \<Rightarrow> 'addr node \<Rightarrow> bool" where
  ns_message: "process_control_payload m (nd_cp s) = Some (r, cp) \<Longrightarrow> node_step s (set_cp cp s)"
| ns_fault: "poll_and_handle ready event (env :: ('addr, RmaError) fault_env) (nd_handler s) = (r, h) \<Longrightarrow> node_step s (s\<lparr>nd_handler := h\<rparr>)"
| ns_poll: "poll_round (nd_cp s, nd_ring s) = (n, cp, b) \<Longrightarrow> node_step s ((set_cp cp s)\<lparr>nd_ring := b\<rparr>)"
| ns_ticket: "node_step s (s\<lparr>nd_ring := snd (advance_tail_atomic i j (nd_ring s))\<rparr>)"
| ns_fill: "node_step s (s\<lparr>nd_ring := write_entry_raw i x (nd_ring s)\<rparr>)"
| ns_peer: "node_step s (set_cp (register_remote_node i (nd_cp s)) s)"
| ns_prefetch: "uh_prefetched_pages (nd_handler s) = Some m \<Longrightarrow>
    receive_recommendation (rdma :: _ \<Rightarrow> _ \<Rightarrow> _ \<Rightarrow> _ \<Rightarrow> _ \<Rightarrow> (RmaError, unit) result) order rec (prefetcher c m s) = Some e \<Longrightarrow> node_step s (after_prefetch e s)"

inductive node_reachable :: "NodeId \<Rightarrow> 'addr node \<Rightarrow> bool" for l :: NodeId where
  nr_start: "StagingPool_new mmap n sz numa = Ok pool \<Longrightarrow> n < 2 ^ 64 \<Longrightarrow>
    UffdHandler_new created (ControlPlane_new l) pool = (Ok h :: (RmaError UffdHandlerError, _) result) \<Longrightarrow>
    node_reachable l \<lparr>nd_handler = set_prefetched_pages Map.empty h, nd_ring = InvalidationBuffer_new\<rparr>"
| nr_step: "node_reachable l s \<Longrightarrow> node_step s t \<Longrightarrow> node_reachable l t"

section \<open>The control plane's invariant\<close>

definition page_ok :: "u64 \<Rightarrow> DistributedPageEntry \<Rightarrow> bool" where
  "page_ok v e \<longleftrightarrow> pe_page_vaddr e = v \<and> 4096 \<le> pe_page_size e \<and> distinct (pe_replica_holders e)"

definition pages_ok :: "(u64 \<rightharpoonup> DistributedPageEntry) \<Rightarrow> bool" where
  "pages_ok pages \<longleftrightarrow> (\<forall>v e. pages v = Some e \<longrightarrow> page_ok v e)"

definition cp_ok :: "NodeId \<Rightarrow> 'addr cp \<Rightarrow> bool" where
  "cp_ok l cp \<longleftrightarrow> cp_local_node_id cp = l \<and> pages_ok (cp_page_states cp) \<and> cp_lock_inv cp \<and>
     (\<forall>r d. cp_regions cp r = Some d \<longrightarrow> rd_region_id d = r) \<and>
     (\<forall>n i. cp_remote_nodes cp n = Some i \<longrightarrow> re_node_id i = n)"

lemma pages_ok_upd: "pages_ok pages \<Longrightarrow> page_ok v e \<Longrightarrow> pages_ok (pages(v \<mapsto> e))"
  by (simp add: pages_ok_def)

lemma modify_page_ok:
  assumes "cp_ok l cp" "\<And>e. page_ok v e \<Longrightarrow> page_ok v (f e)"
  shows "cp_ok l (snd (modify_page v f cp))"
  using assms by (auto simp: cp_ok_def modify_page_def pages_ok_def cp_lock_inv_def split: option.splits)

lemma update_page_state_ok [inv_intro]: "cp_ok l cp \<Longrightarrow> cp_ok l (snd (update_page_state v st owner cp))"
  unfolding update_page_state_def by (rule modify_page_ok) (auto simp: page_ok_def Let_def)

lemma add_reader_ok [inv_intro]: "cp_ok l cp \<Longrightarrow> cp_ok l (snd (add_reader v n cp))"
  unfolding add_reader_def by (rule modify_page_ok) (auto simp: page_ok_def)

lemma remove_reader_ok [inv_intro]: "cp_ok l cp \<Longrightarrow> cp_ok l (snd (remove_reader v n cp))"
  unfolding remove_reader_def by (rule modify_page_ok) (auto simp: page_ok_def)

lemma register_pages_ok:
  assumes "register_pages a e ps owner md pages = Some pages'"
  shows "pages_ok pages \<Longrightarrow> 4096 \<le> ps \<Longrightarrow> pages_ok pages'"
  using assms
proof (induction rule: register_pages.raw_induct [rotated 1, consumes 1])
  case (1 f a e ps owner md pages pages')
  have "pages_ok (pages(a \<mapsto> PageEntry_new_with_metadata a ps owner md))"
    using "1.prems" by (intro pages_ok_upd) (simp_all add: page_ok_def PageEntry_new_with_metadata_def)
  with 1 show ?case
    by (cases "a < e") auto
qed

lemma deregister_pages_ok:
  assumes "deregister_pages a e ps pages = Some pages'"
  shows "pages_ok pages \<Longrightarrow> pages_ok pages'"
  using assms
proof (induction rule: deregister_pages.raw_induct [rotated 1, consumes 1])
  case (1 f a e ps pages pages')
  have "pages_ok (pages(a := None))"
    using "1.prems" by (simp add: pages_ok_def)
  with 1 show ?case
    by (cases "a < e") auto
qed

lemma register_region_ok:
  assumes "cp_ok l cp" "register_region d cp = Some (r, cp')"
  shows "cp_ok l cp'"
proof -
  have "4096 \<le> coherence_unit d"
    by (simp add: coherence_unit_def)
  with assms register_pages_ok show ?thesis
    by (auto simp: register_region_def register_region_with_metadata_def cp_ok_def cp_lock_inv_def
        split: if_splits option.splits)
qed

lemma deregister_region_ok:
  assumes "cp_ok l cp" "deregister_region rid cp = Some (r, cp')"
  shows "cp_ok l cp'"
  using assms deregister_pages_ok
  by (auto simp: deregister_region_def cp_ok_def cp_lock_inv_def split: if_splits option.splits)

lemma lock_ops_ok:
  assumes "cp_ok l cp"
  shows "cp_ok l (snd (acquire_lock q p cp))" "cp_ok l (snd (release_lock q p cp))"
proof -
  have "cp_ok l cp'" if "cp_lock_inv cp'" "cp' = cp\<lparr>cp_locks := L\<rparr>" for cp' L
    using assms that by (simp add: cp_ok_def)
  moreover have "\<exists>L. snd (acquire_lock q p cp) = cp\<lparr>cp_locks := L\<rparr>"
    by (auto simp: acquire_lock_def Let_def split: option.splits)
  moreover have "\<exists>L. snd (release_lock q p cp) = cp\<lparr>cp_locks := L\<rparr>"
    by (auto simp: release_lock_def split: option.splits intro: exI [of _ "cp_locks cp"])
  moreover have "cp_lock_inv cp"
    using assms by (simp add: cp_ok_def)
  ultimately show "cp_ok l (snd (acquire_lock q p cp))" "cp_ok l (snd (release_lock q p cp))"
    using acquire_lock_inv release_lock_inv by metis+
qed

lemma message_ok:
  assumes "cp_ok l cp" "process_control_payload m cp = Some (r, cp')"
  shows "cp_ok l cp'"
  using assms lock_ops_ok [OF assms(1)]
  by (cases m) (auto simp: map_prod_def case_prod_beta dest: register_region_ok deregister_region_ok)

lemma invalidate_ok: "cp_ok l cp \<Longrightarrow> cp_ok l (snd (invalidate_page m cp))"
  by (cases m) (auto simp: invalidate_page_def Let_def split: option.splits intro: inv_intro)

lemma process_loop_keeps:
  assumes "I s" "\<And>m s. I s \<Longrightarrow> I (snd (f m s))"
  shows "I (snd (snd (snd (process_loop f tail idx p b s))))"
  using assms(1)
proof (induction "unat tail - unat idx" arbitrary: idx p b s rule: less_induct)
  case less
  show ?case
  proof (cases "idx < tail")
    case False
    with less.prems show ?thesis
      by (subst process_loop.simps) simp
  next
    case True
    then have "unat (idx + 1) = Suc (unat idx)"
      using unsigned_less [of tail, where ?'a = nat] unat_add_one_less [of idx] by (simp add: word_less_nat_alt)
    then have lt: "unat tail - unat (idx + 1) < unat tail - unat idx"
      using True by (simp add: word_less_nat_alt)
    obtain valid m where e: "read_entry_raw idx b = (valid, m)"
      by (cases "read_entry_raw idx b")
    obtain ok s1 where f: "f m s = (ok, s1)"
      by (cases "f m s")
    have "I s1"
      using assms(2) [OF less.prems, of m] f by simp
    with less.hyps [OF lt this] less.prems True e f show ?thesis
      by (subst process_loop.simps) (cases m, auto)
  qed
qed

lemma poll_round_ok:
  assumes "cp_ok l cp" "poll_round (cp, b) = (n, cp', b')"
  shows "cp_ok l cp'"
proof -
  have "cp_ok l (snd (snd (snd (process_loop invalidate_page (ib_tail b) (ib_head b) 0 b cp))))"
    using assms(1) invalidate_ok by (rule process_loop_keeps)
  with assms show ?thesis
    by (auto simp: poll_round_def process_pending_def Let_def split: if_splits prod.splits)
qed

section \<open>The slots in use\<close>

text \<open>
  Every prefetched page has a slot of the pool that is not free, and no two prefetched
  pages have the same one.
\<close>

definition slots_ok :: "StagingMemoryPool \<Rightarrow> (u64 \<rightharpoonup> StagingSlotHandle) \<Rightarrow> bool" where
  "slots_ok p m \<longleftrightarrow> sp_inv p \<and>
     (\<forall>v h. m v = Some h \<longrightarrow> slot_idx h < sp_num_slots p \<and> slot_idx h \<notin> set (sp_free_slots p)) \<and>
     (\<forall>v w h k. m v = Some h \<and> m w = Some k \<and> slot_idx h = slot_idx k \<longrightarrow> v = w)"

lemma pop_slots_ok:
  assumes "slots_ok p m" "pop_slot p = (Inr h, q)"
  shows "slots_ok q m" "slots_ok q (m(v \<mapsto> h))" "slots_ok (snd (push_slot (slot_idx h) q)) m"
proof -
  have inv: "sp_inv p"
    using assms(1) by (simp add: slots_ok_def)
  note pop = pop_inv [OF inv assms(2)]
  have f: "sp_free_slots p = slot_idx h # sp_free_slots q" "sp_num_slots q = sp_num_slots p"
    using assms(2) by (auto simp: pop_slot_def split: list.splits)
  then have h: "slot_idx h \<in> set (sp_free_slots p)" "slot_idx h \<notin> set (sp_free_slots q)" "slot_idx h < sp_num_slots q"
    using inv by (auto simp: sp_inv_def)
  have push: "sp_num_slots (snd (push_slot (slot_idx h) q)) = sp_num_slots q"
    "set (sp_free_slots (snd (push_slot (slot_idx h) q))) \<subseteq> set (sp_free_slots p)"
    using f by (auto simp: push_slot_def)
  have other: "slot_idx k \<noteq> slot_idx h" if "m w = Some k" for w k
    using assms(1) h(1) that unfolding slots_ok_def by metis
  show "slots_ok q m"
    using assms(1) pop(1) f by (auto simp: slots_ok_def)
  show "slots_ok q (m(v \<mapsto> h))"
    using assms(1) pop(1) f h other unfolding slots_ok_def by (auto dest: sym)
  show "slots_ok (snd (push_slot (slot_idx h) q)) m"
    using assms(1) pop(3) push f(2) unfolding slots_ok_def by auto
qed

definition handler_ok :: "'addr UffdHandler \<Rightarrow> bool" where
  "handler_ok h \<longleftrightarrow> (\<exists>m. uh_prefetched_pages h = Some m \<and> slots_ok (uh_staging_pool h) m)"

lemma slots_ok_remove: "slots_ok p m \<Longrightarrow> slots_ok p (m(v := None))"
  by (auto simp: slots_ok_def)

lemma handler_ok_cong:
  "handler_ok h \<Longrightarrow> uh_prefetched_pages h' = uh_prefetched_pages h \<Longrightarrow> uh_staging_pool h' = uh_staging_pool h \<Longrightarrow> handler_ok h'"
  by (simp add: handler_ok_def)

lemma count_move_prefetched [simp]: "uh_prefetched_pages (count_move h) = uh_prefetched_pages h"
  by (simp add: count_move_def)

lemma move_slot_ok:
  assumes "handler_ok h" "pop_slot (uh_staging_pool h) = (Inr slot, q)"
  shows "handler_ok (snd (move_slot env v slot (h\<lparr>uh_staging_pool := q\<rparr>)))"
proof -
  obtain m where m: "uh_prefetched_pages h = Some m" "slots_ok (uh_staging_pool h) m"
    using assms(1) by (auto simp: handler_ok_def)
  from pop_slots_ok [OF m(2) assms(2)] m(1) show ?thesis
    by (auto simp: handler_ok_def move_slot_def Let_def split: sum.splits)
qed

lemma fetch_ok:
  assumes "handler_ok h"
  shows "handler_ok (snd (fetch_remote_page env v owner h))"
proof -
  obtain m where m: "uh_prefetched_pages h = Some m" "slots_ok (uh_staging_pool h) m"
    using assms by (auto simp: handler_ok_def)
  have popped: "handler_ok (h\<lparr>uh_staging_pool := q\<rparr>)" if "pop_slot (uh_staging_pool h) = (Inr slot, q)" for slot q
    using pop_slots_ok(1) [OF m(2) that] m(1) by (simp add: handler_ok_def)
  show ?thesis
  proof (cases "m v")
    case (Some slot)
    then show ?thesis
      using m slots_ok_remove [OF m(2), of v]
      by (auto simp: fetch_remote_page_def handler_ok_def Let_def split: sum.splits)
  next
    case None
    then show ?thesis
      using m(1) assms popped
      by (auto simp: fetch_remote_page_def Let_def split: option.splits sum.splits prod.splits intro: move_slot_ok [OF assms])
  qed
qed

lemma local_missing_ok:
  assumes "handler_ok h"
  shows "handler_ok (snd (resolve_local_missing env v h))"
proof (cases "pop_slot (uh_staging_pool h)")
  case (Pair r q)
  show ?thesis
  proof (cases r)
    case (Inl e)
    with Pair assms show ?thesis
      by (simp add: resolve_local_missing_def)
  next
    case (Inr slot)
    let ?m = "move_slot env v slot (h\<lparr>uh_staging_pool := q\<rparr>)"
    have "handler_ok (snd ?m)"
      using move_slot_ok [OF assms] Pair Inr by blast
    then show ?thesis
      using Pair Inr by (cases ?m)
        (auto simp: resolve_local_missing_def Let_def split: sum.splits intro: handler_ok_cong)
  qed
qed

definition node_ok :: "NodeId \<Rightarrow> 'addr UffdHandler \<Rightarrow> bool" where
  "node_ok l h \<longleftrightarrow> cp_ok l (uh_control_plane h) \<and> handler_ok h"

lemma node_ok_stats [simp]: "node_ok l (h\<lparr>uh_stats := x\<rparr>) = node_ok l h"
  by (simp add: node_ok_def handler_ok_def)

lemma node_ok_on_cp:
  assumes "node_ok l h" "cp_ok l (snd (f (uh_control_plane h)))"
  shows "node_ok l (on_cp f h)"
  using assms handler_ok_cong [of h "on_cp f h"] by (simp add: node_ok_def)

lemmas on_cp_intros = node_ok_on_cp [OF _ update_page_state_ok] node_ok_on_cp [OF _ add_reader_ok]

lemma node_ok_cp: "node_ok l h \<Longrightarrow> cp_ok l (uh_control_plane h)"
  by (simp add: node_ok_def)

lemma begin_remote_ok: "node_ok l h \<Longrightarrow> node_ok l (begin_remote v owner h)"
  unfolding begin_remote_def by (rule on_cp_intros(1)) (simp_all add: node_ok_cp)

lemma finish_remote_ok: "node_ok l h \<Longrightarrow> node_ok l (finish_remote v owner n h)"
  unfolding finish_remote_def by (auto intro!: on_cp_intros node_ok_cp)

lemma fetch_node_ok: "node_ok l h \<Longrightarrow> node_ok l (snd (fetch_remote_page env v owner h))"
  by (simp add: node_ok_def fetch_cp fetch_ok)

lemma local_missing_cp_ok:
  assumes "cp_ok l (uh_control_plane h)"
  shows "cp_ok l (uh_control_plane (snd (resolve_local_missing env v h)))"
proof (cases "pop_slot (uh_staging_pool h)")
  case (Pair r q)
  show ?thesis
  proof (cases r)
    case (Inr slot)
    let ?m = "move_slot env v slot (h\<lparr>uh_staging_pool := q\<rparr>)"
    have "cp_ok l (uh_control_plane (snd ?m))"
      using assms by (simp add: move_slot_cp)
    then show ?thesis
      using Pair Inr by (cases ?m)
        (auto simp: resolve_local_missing_def Let_def split: sum.splits intro: inv_intro)
  qed (use Pair assms in \<open>simp add: resolve_local_missing_def\<close>)
qed

lemma zeropage_ok: "node_ok l h \<Longrightarrow> node_ok l (snd (resolve_with_zeropage env v h))"
  by (auto simp: resolve_with_zeropage_def split: sum.splits intro!: on_cp_intros node_ok_cp)

lemma handle_page_fault_ok:
  assumes "node_ok l h"
  shows "node_ok l (snd (handle_page_fault env v h))"
proof (cases "lookup_page_state v (uh_control_plane h)")
  case None
  with assms show ?thesis
    by (simp add: handle_page_fault_def)
next
  case (Some e)
  let ?f = "fetch_remote_page env v (pe_primary_owner e) (begin_remote v (pe_primary_owner e) h)"
  have "node_ok l (snd ?f)"
    by (intro fetch_node_ok begin_remote_ok assms)
  moreover have "node_ok l (snd (resolve_local_missing env v h))" if "node_ok l h" for h
    using that by (simp add: node_ok_def local_missing_cp_ok local_missing_ok)
  moreover have "node_ok l (snd (handle_page_fault env v h))"
    if "pe_coherence_state e \<noteq> InFlight" "pe_primary_owner e \<noteq> cp_local_node_id (uh_control_plane h)"
    using calculation(1) unfolding handle_remote_unfold [OF Some that]
    by (cases ?f; cases "fst ?f") (simp_all add: finish_remote_ok)
  moreover have "node_ok l (snd (handle_page_fault env v h))" if "pe_coherence_state e = InFlight"
    using Some that assms by (simp add: handle_page_fault_def zeropage_ok)
  moreover have "node_ok l (snd (handle_page_fault env v h))"
    if "pe_coherence_state e \<noteq> InFlight" "pe_primary_owner e = cp_local_node_id (uh_control_plane h)"
    using Some that assms calculation(2) by (simp add: handle_page_fault_def)
  ultimately show ?thesis
    by blast
qed

lemma poll_and_handle_ok:
  assumes "node_ok l h" "poll_and_handle ready event env h = (r, h')"
  shows "node_ok l h'"
proof -
  have f: "node_ok l (snd (handle_page_fault env v (count_fault h)))" for v
    by (rule handle_page_fault_ok) (simp add: count_fault_def assms(1))
  show ?thesis
  proof (cases "\<exists>v. ready = Ok True \<and> event = Ok (Some (Pagefault v))")
    case True
    then obtain v where "ready = Ok True" "event = Ok (Some (Pagefault v))"
      by blast
    with assms(2) f [of v] show ?thesis
      by (cases "handle_page_fault env v (count_fault h)") (auto simp: poll_and_handle_def split: sum.splits)
  next
    case False
    with assms show ?thesis
      by (auto simp: poll_and_handle_def split: sum.splits bool.splits option.splits UffdEvent.splits)
  qed
qed

lemma prefetch_one_page_ok:
  assumes "slots_ok (pf_staging_pool e) (pf_prefetched_pages e)"
  shows "slots_ok (pf_staging_pool (prefetch_one_page rdma t e)) (pf_prefetched_pages (prefetch_one_page rdma t e))"
proof (cases "pop_slot (pf_staging_pool e)")
  case (Pair r q)
  show ?thesis
  proof (cases r)
    case (Inr slot)
    with pop_slots_ok [OF assms] Pair show ?thesis
      by (cases t) (auto simp: prefetch_one_page_def Let_def split: sum.splits)
  qed (use Pair assms in \<open>cases t, simp add: prefetch_one_page_def\<close>)
qed

lemma prefetch_ok:
  assumes "slots_ok (pf_staging_pool e) (pf_prefetched_pages e)" "receive_recommendation rdma order rec e = Some e'"
  shows "slots_ok (pf_staging_pool e') (pf_prefetched_pages e')"
proof -
  have "slots_ok (pf_staging_pool (fold (prefetch_one_page rdma) ts e)) (pf_prefetched_pages (fold (prefetch_one_page rdma) ts e))"
    if "slots_ok (pf_staging_pool e) (pf_prefetched_pages e)" for ts and e :: "'a PrefetchEngine"
    using that by (induction ts arbitrary: e) (simp_all add: prefetch_one_page_ok)
  with assms show ?thesis
    by (auto simp: receive_recommendation_def handle_recommendation_def Let_def split: if_splits)
qed

section \<open>Every reachable node is well formed\<close>

lemma node_start_ok:
  assumes "StagingPool_new mmap n sz numa = Ok pool" "n < 2 ^ 64"
    and "UffdHandler_new created (ControlPlane_new l) pool = (Ok h :: (RmaError UffdHandlerError, _) result)"
  shows "node_ok l (set_prefetched_pages Map.empty h)"
proof -
  have "sp_inv pool"
    using pool_client_inv [OF pc_new [OF assms(1,2)]] staging.client_partition by blast
  moreover have "cp_ok l (ControlPlane_new l)"
    by (simp add: cp_ok_def pages_ok_def cp_lock_inv_def ControlPlane_new_def)
  moreover have "uh_control_plane h = ControlPlane_new l" "uh_staging_pool h = pool"
    using assms(3) by (auto simp: UffdHandler_new_def split: sum.splits)
  ultimately show ?thesis
    by (simp add: node_ok_def handler_ok_def slots_ok_def set_prefetched_pages_def)
qed

lemma node_step_ok:
  assumes "node_step s t" "node_ok l (nd_handler s)"
  shows "node_ok l (nd_handler t)"
  using assms
proof (induction rule: node_step.induct)
  case (ns_message m s r cp)
  then show ?case
    using message_ok by (fastforce simp: node_ok_def handler_ok_def set_cp_def)
next
  case (ns_fault ready event env s r h)
  then show ?case
    using poll_and_handle_ok by fastforce
next
  case (ns_poll s n cp b)
  then show ?case
    using poll_round_ok by (fastforce simp: node_ok_def handler_ok_def set_cp_def)
next
  case (ns_peer s i)
  then show ?case
    by (auto simp: node_ok_def handler_ok_def set_cp_def cp_ok_def cp_lock_inv_def register_remote_node_def)
next
  case (ns_prefetch s m rdma order rec c e)
  then have "slots_ok (pf_staging_pool e) (pf_prefetched_pages e)"
    by (intro prefetch_ok [OF _ ns_prefetch(2)]) (auto simp: prefetcher_def PrefetchEngine_new_def node_ok_def handler_ok_def)
  with ns_prefetch show ?case
    by (simp add: after_prefetch_def node_ok_def handler_ok_def)
qed simp_all

lemma node_reachable_ok: "node_reachable l s \<Longrightarrow> node_ok l (nd_handler s)"
proof (induction rule: node_reachable.induct)
  case (nr_start mmap n sz numa pool created h)
  then show ?case
    using node_start_ok by fastforce
qed (rule node_step_ok)

section \<open>Prefetched pages and invalidation\<close>

text \<open>
  The prefetched copy of a page survives its invalidation: a fault after the invalidation
  is resolved from the old copy, whatever the network delivers.
\<close>

lemma stale_prefetch_served:
  assumes "lookup_page_state v (uh_control_plane h) = Some e"
    and "pe_primary_owner e \<noteq> cp_local_node_id (uh_control_plane h)"
    and "uh_prefetched_pages h = Some m" "m v = Some slot"
    and "uffd_move (fe_kernel env) v (slot_vaddr slot) (of_nat (slot_size slot)) = Ok n"
    and "h1 = on_cp (invalidate_page (v, ver, sz)) h"
  shows "fst (handle_page_fault env v h1) = Ok ()"
    "handle_page_fault (env\<lparr>fe_rdma_read := f\<rparr>) v h1 = handle_page_fault env v h1"
proof -
  let ?cp = "uh_control_plane h"
  have "cp_page_states ?cp v = Some e"
    using assms(1) by (simp add: lookup_page_state_def)
  from invalidate_page_known [OF this assms(2), of ver sz] have h1: "uh_control_plane h1 =
      ?cp\<lparr>cp_page_states := (cp_page_states ?cp)(v \<mapsto> invalidated (cp_local_node_id ?cp) e)\<rparr>"
    using assms(6) by simp
  have pre: "uh_prefetched_pages (begin_remote v owner h1) = Some m" for owner
    using assms(3,6) by (simp add: begin_remote_def)
  have look: "lookup_page_state v (uh_control_plane h1) = Some (invalidated (cp_local_node_id ?cp) e)"
    by (simp add: h1 lookup_page_state_def)
  have fl: "pe_coherence_state (invalidated (cp_local_node_id ?cp) e) \<noteq> InFlight"
    and ow: "pe_primary_owner (invalidated (cp_local_node_id ?cp) e) \<noteq> cp_local_node_id (uh_control_plane h1)"
    using assms(2) by (simp_all add: invalidated_def h1)
  show "fst (handle_page_fault env v h1) = Ok ()"
    "handle_page_fault (env\<lparr>fe_rdma_read := f\<rparr>) v h1 = handle_page_fault env v h1"
    unfolding handle_remote_unfold [OF look fl ow] using assms(4,5) by (simp_all add: fetch_remote_page_def pre)
qed

end
