(* ===== verification/Rdma_Metadata.thy ===== *)
theory Rdma_Metadata
  imports Invalidation Rma
begin

text \<open>
  The metadata publisher of the daemon, from
  \<open>src/klnk/klnk-daemon/src/rdma_metadata.rs\<close>: snapshots of the page table, their
  registration for remote access, and the push to the peers through the transport engine.
  The serializer is a parameter; so are the address at which the allocator places a new
  serialized buffer and the order in which the concurrent maps are iterated
  (\<open>pages\<close> and \<open>nodes\<close>, enumerations of the control plane's tables).
\<close>

section \<open>Snapshots\<close>

datatype 'be RdmaMetadataError =
    RegistrationFailed RmaError
  | MetaSerializationFailed 'be
  | PushFailed NodeId string

record SerializedPageEntry =
  se_page_vaddr :: u64
  se_page_size :: u32
  se_coherence_state :: u8
  se_primary_owner :: u64
  se_replica_holders_count :: u32
  se_version :: u64

record MetadataSnapshot =
  ms_version :: u64
  ms_entries :: "SerializedPageEntry list"

fun state_code :: "PageCoherenceState \<Rightarrow> u8" where
  "state_code Invalid = 0"
| "state_code SharedRead = 1"
| "state_code ExclusiveWrite = 2"
| "state_code InFlight = 3"

definition SerializedPageEntry_from :: "DistributedPageEntry \<Rightarrow> SerializedPageEntry" where
  "SerializedPageEntry_from e =
    \<lparr>se_page_vaddr = pe_page_vaddr e, se_page_size = ucast (pe_page_size e),
     se_coherence_state = state_code (pe_coherence_state e), se_primary_owner = node_raw (pe_primary_owner e),
     se_replica_holders_count = of_nat (length (pe_replica_holders e)), se_version = pe_version e\<rparr>"

section \<open>The publisher\<close>

text \<open>The control plane and the engine are shared objects, passed to each operation.\<close>

record RdmaMetadataPublisher =
  mp_metadata_region :: "RegisteredRegion option"
  mp_invalidation_region :: "RegisteredRegion option"
  mp_version :: u64
  mp_buffer_ptr :: u64
  mp_buffer :: "u8 list"
  mp_invalidation_ptr :: u64

definition Publisher_new :: "u64 \<Rightarrow> RdmaMetadataPublisher" where
  "Publisher_new inval_ptr =
    \<lparr>mp_metadata_region = None, mp_invalidation_region = None, mp_version = 0, mp_buffer_ptr = 1, mp_buffer = [],
     mp_invalidation_ptr = inval_ptr\<rparr>"

definition build_snapshot :: "DistributedPageEntry list \<Rightarrow> RdmaMetadataPublisher \<Rightarrow> MetadataSnapshot" where
  "build_snapshot pages pub = \<lparr>ms_version = mp_version pub, ms_entries = map SerializedPageEntry_from pages\<rparr>"

definition register_metadata ::
    "(MetadataSnapshot \<Rightarrow> ('be, u8 list) result) \<Rightarrow> u64 \<Rightarrow> DistributedPageEntry list \<Rightarrow>
     RdmaMetadataPublisher \<times> 'addr RmaTransportEngine \<Rightarrow>
     ('be RdmaMetadataError, unit) result \<times> RdmaMetadataPublisher \<times> 'addr RmaTransportEngine" where
  "register_metadata ser ptr pages = (\<lambda>(pub, en).
     case ser (build_snapshot pages pub) of
       Inl e \<Rightarrow> (Err (MetaSerializationFailed e), pub, en)
     | Inr serialized \<Rightarrow>
         let pub1 = pub\<lparr>mp_buffer_ptr := ptr, mp_buffer := serialized\<rparr>
         in (case register_memory_region ptr (of_nat (length serialized)) None en of
               (Inl e, en1) \<Rightarrow> (Err (RegistrationFailed e), pub1, en1)
             | (Inr region, en1) \<Rightarrow> (Ok (), pub1\<lparr>mp_metadata_region := Some region\<rparr>, en1)))"

definition register_invalidation_buffer ::
    "RdmaMetadataPublisher \<times> 'addr RmaTransportEngine \<Rightarrow>
     ('be RdmaMetadataError, unit) result \<times> RdmaMetadataPublisher \<times> 'addr RmaTransportEngine" where
  "register_invalidation_buffer = (\<lambda>(pub, en).
     case register_memory_region (mp_invalidation_ptr pub) (of_nat INVAL_BUFFER_SIZE) None en of
       (Inl e, en1) \<Rightarrow> (Err (RegistrationFailed e), pub, en1)
     | (Inr region, en1) \<Rightarrow> (Ok (), pub\<lparr>mp_invalidation_region := Some region\<rparr>, en1))"

definition refresh_metadata ::
    "(MetadataSnapshot \<Rightarrow> ('be, u8 list) result) \<Rightarrow> u64 \<Rightarrow> DistributedPageEntry list \<Rightarrow> RdmaMetadataPublisher \<Rightarrow>
     ('be RdmaMetadataError, unit) result \<times> RdmaMetadataPublisher" where
  "refresh_metadata ser ptr pages pub =
    (case ser (build_snapshot pages pub) of
       Inl e \<Rightarrow> (Err (MetaSerializationFailed e), pub)
     | Inr serialized \<Rightarrow>
         (Ok (), pub\<lparr>mp_buffer_ptr := ptr, mp_buffer := serialized, mp_version := mp_version pub + 1\<rparr>))"

text \<open>
  A write the push hands to the engine: peer, remote address, key, local address and
  length.  The engine's writes always succeed, so the notification always follows.
\<close>

type_synonym 'addr remote_write = "'addr \<times> u64 \<times> u32 \<times> u64 \<times> nat"

definition push_to_node ::
    "u64 \<Rightarrow> nat \<Rightarrow> 'addr cp \<Rightarrow> NodeId \<times> 'addr \<Rightarrow> 'addr remote_write list" where
  "push_to_node local_vaddr len cp = (\<lambda>(node_id, peer_addr).
     case get_remote_node node_id cp of
       None \<Rightarrow> []
     | Some info \<Rightarrow>
         if re_metadata_vaddr info = 0 \<or> re_metadata_len info = 0 then []
         else if len > re_metadata_len info then []
         else (peer_addr, re_metadata_vaddr info, re_metadata_rkey info, local_vaddr, len) #
              (if re_invalidation_vaddr info \<noteq> 0
               then [(peer_addr, re_invalidation_vaddr info, re_invalidation_rkey info, 0, 0)] else []))"

definition push_metadata_to_peers ::
    "(MetadataSnapshot \<Rightarrow> ('be, u8 list) result) \<Rightarrow> u64 \<Rightarrow> DistributedPageEntry list \<Rightarrow>
     'addr RemoteEndpointInfo list \<Rightarrow> 'addr cp \<Rightarrow> RdmaMetadataPublisher \<Rightarrow>
     'addr remote_write list \<times> RdmaMetadataPublisher" where
  "push_metadata_to_peers ser ptr pages nodes cp pub =
    (if mp_metadata_region pub = None then ([], pub)
     else case refresh_metadata ser ptr pages pub of
            (Inl _, pub1) \<Rightarrow> ([], pub1)
          | (Inr _, pub1) \<Rightarrow>
              (concat (map (push_to_node (mp_buffer_ptr pub1) (length (mp_buffer pub1)) cp)
                 (map (\<lambda>info. (re_node_id info, re_socket_addr info)) nodes)), pub1))"

definition run_writes :: "'addr remote_write list \<Rightarrow> 'addr RmaTransportEngine \<Rightarrow> 'addr RmaTransportEngine" where
  "run_writes ws en = fold (\<lambda>(a, rv, k, lv, len) en. snd (rdma_write a rv k lv len en)) ws en"

definition init_metadata_publisher ::
    "(MetadataSnapshot \<Rightarrow> ('be, u8 list) result) \<Rightarrow> u64 \<Rightarrow> u64 \<Rightarrow> DistributedPageEntry list \<Rightarrow> 'addr RmaTransportEngine \<Rightarrow>
     ('be RdmaMetadataError, RdmaMetadataPublisher) result \<times> 'addr RmaTransportEngine" where
  "init_metadata_publisher ser inval_ptr ptr pages en =
    (case register_metadata ser ptr pages (Publisher_new inval_ptr, en) of
       (Inl e, _, en1) \<Rightarrow> (Err e, en1)
     | (Inr _, pub1, en1) \<Rightarrow>
         case register_invalidation_buffer (pub1, en1) of
           (Inl e, _, en2) \<Rightarrow> (Err e, en2)
         | (Inr _, pub2, en2) \<Rightarrow> (Ok pub2, en2))"

section \<open>Lemmas\<close>

text \<open>A page of four gigabytes is published with size zero.\<close>

lemma published_size_truncates:
  assumes "pe_page_size e = 2 ^ 32"
  shows "se_page_size (SerializedPageEntry_from e) = 0"
  using assms by (simp add: SerializedPageEntry_from_def)

lemma published_size_exact:
  assumes "unat (pe_page_size e) < 2 ^ 32"
  shows "unat (se_page_size (SerializedPageEntry_from e)) = unat (pe_page_size e)"
  using assms by (simp add: SerializedPageEntry_from_def unsigned_ucast_eq take_bit_eq_mod)

lemma state_code_inj: "state_code s = state_code t \<Longrightarrow> s = t"
  by (cases s; cases t) simp_all

text \<open>
  The registered region is the buffer of the first snapshot.  After a refresh the newest
  snapshot lives at the new buffer's address, and the registration still names the old one.
\<close>

lemma refresh_leaves_registration:
  assumes "refresh_metadata ser ptr pages pub = (Ok (), pub')"
  shows "mp_metadata_region pub' = mp_metadata_region pub" "mp_buffer_ptr pub' = ptr"
    "ser (build_snapshot pages pub) = Ok (mp_buffer pub')"
    "ms_version (build_snapshot pages pub) + 1 = mp_version pub'"
  using assms by (auto simp: refresh_metadata_def build_snapshot_def split: sum.splits)

text \<open>A push never writes outside the buffer a peer has announced.\<close>

lemma push_within_peer_buffer:
  assumes "(a, rv, k, lv, len) \<in> set (fst (push_metadata_to_peers ser ptr pages nodes cp pub))"
  shows "\<exists>i info. i \<in> set nodes \<and> a = re_socket_addr i \<and> get_remote_node (re_node_id i) cp = Some info \<and>
    (rv = re_metadata_vaddr info \<and> k = re_metadata_rkey info \<and> lv = ptr \<and> len \<le> re_metadata_len info \<or>
     rv = re_invalidation_vaddr info \<and> k = re_invalidation_rkey info \<and> len = 0)"
proof -
  obtain pub1 where p: "refresh_metadata ser ptr pages pub = (Ok (), pub1)"
    "fst (push_metadata_to_peers ser ptr pages nodes cp pub) =
       concat (map (push_to_node (mp_buffer_ptr pub1) (length (mp_buffer pub1)) cp)
         (map (\<lambda>info. (re_node_id info, re_socket_addr info)) nodes))"
    using assms by (cases "refresh_metadata ser ptr pages pub")
      (auto simp: push_metadata_to_peers_def split: if_splits sum.splits)
  then obtain i where i: "i \<in> set nodes"
    "(a, rv, k, lv, len) \<in> set (push_to_node (mp_buffer_ptr pub1) (length (mp_buffer pub1)) cp (re_node_id i, re_socket_addr i))"
    using assms by auto
  then obtain info where "get_remote_node (re_node_id i) cp = Some info"
    by (cases "get_remote_node (re_node_id i) cp") (auto simp: push_to_node_def)
  with i refresh_leaves_registration(2) [OF p(1)] show ?thesis
    by (intro exI [of _ i] exI [of _ info]) (auto simp: push_to_node_def split: if_splits)
qed

end
