(* ===== verification/Daemon_Boot.thy ===== *)
theory Daemon_Boot
  imports Configuration Node Rdma_Metadata
begin

text \<open>
  The start of the daemon, from \<open>main\<close> of \<open>src/klnk/klnk-daemon/src/main.rs\<close>: how the
  configuration becomes the engine, the control plane, the metadata publisher, the staging
  pool, the prefetch engine, the fault handler and the limiter, in the order of the code
  and with its early returns.  The operating system's answers are the environment.  The
  text \<open>0.0.0.0:port\<close> always parses, so the address has no error branch.  The tasks
  \<open>main\<close> spawns are the steps of \<open>node_step\<close>.
\<close>

section \<open>Helpers of main\<close>

definition get_core_id_for_numa_node :: "int \<Rightarrow> nat option" where
  "get_core_id_for_numa_node numa_node = (if numa_node < 0 then None else Some (nat numa_node * 2))"

definition listen_addr :: "VirthubConfig \<Rightarrow> string" where
  "listen_addr c = ''0.0.0.0:'' @ show_base 10 (unat (tcp_port (trc_tcp (vc_transport c))))"

definition PAGE_SIZE_2M :: nat where "PAGE_SIZE_2M = 2 * 1024 * 1024"

definition boot_prefetch_config :: "VirthubConfig \<Rightarrow> PrefetchConfig" where
  "boot_prefetch_config c =
    \<lparr>pc_max_concurrent_requests = 16, pc_max_prefetch_count = ss_prefetch_window (mc_scheduler (vc_master c)),
     pc_enabled = True\<rparr>"

definition boot_limiter_config :: "VirthubConfig \<Rightarrow> StubConfig" where
  "boot_limiter_config c = StubConfig_default\<lparr>st_max_staging_bytes := tun_memlock_limit (vc_tuning c)\<rparr>"

section \<open>Start\<close>

text \<open>
  The environment: the device probe, the serializer, the addresses of the serialized
  snapshot and of the invalidation ring, the mapping of the pool and the creation of the
  fault descriptor.
\<close>

record 'be boot_env =
  be_detected :: "string option"
  be_serialize :: "MetadataSnapshot \<Rightarrow> ('be, u8 list) result"
  be_snapshot_ptr :: u64
  be_inval_ptr :: u64
  be_mmap :: "nat \<Rightarrow> (int, u64) result"
  be_uffd :: "(string, unit) result"

datatype 'be BootError =
    BootMetadata "'be RdmaMetadataError"
  | BootStaging StagingPoolError
  | BootUffd "RmaError UffdHandlerError"
  | BootPanic

record 'addr daemon =
  dm_node :: "'addr node"
  dm_engine :: "'addr RmaTransportEngine"
  dm_publisher :: RdmaMetadataPublisher
  dm_prefetch :: "'addr PrefetchEngine"
  dm_limiter :: StubLimiter

text \<open>The control plane is new, so the first snapshot has no pages; a failed registration of the pool is only logged.\<close>

definition daemon_start :: "'be boot_env \<Rightarrow> VirthubConfig \<Rightarrow> ('be BootError, 'addr daemon) result" where
  "daemon_start env c =
    (let en0 = auto_detect (Some (rdc_device_name (trc_rdma (vc_transport c)))) (be_detected env);
         cp = ControlPlane_new (daemon_node_id c)
     in case init_metadata_publisher (be_serialize env) (be_inval_ptr env) (be_snapshot_ptr env) [] en0 of
          (Inl e, _) \<Rightarrow> Err (BootMetadata e)
        | (Inr pub, en1) \<Rightarrow>
            case StagingPool_new (be_mmap env) (kc_staging_num_pages (vc_klnk c)) PAGE_SIZE_2M
                   (word_of_int (max (tun_numa_node (vc_tuning c)) 0)) of
              Inl e \<Rightarrow> Err (BootStaging e)
            | Inr pool \<Rightarrow>
                let en2 = snd (register_staging_pool (sp_base_ptr pool) (of_nat (sp_total_bytes pool)) en1)
                in (case prefetch_start (PrefetchEngine_new (boot_prefetch_config c) cp pool) of
                      None \<Rightarrow> Err BootPanic
                    | Some pf \<Rightarrow>
                        case UffdHandler_new (be_uffd env) cp pool of
                          Inl e \<Rightarrow> Err (BootUffd e)
                        | Inr h \<Rightarrow>
                            Ok \<lparr>dm_node = \<lparr>nd_handler = set_prefetched_pages (pf_prefetched_pages pf) h,
                                           nd_ring = InvalidationBuffer_new\<rparr>,
                                dm_engine = en2, dm_publisher = pub, dm_prefetch = pf,
                                dm_limiter = StubLimiter_new (boot_limiter_config c)\<rparr>))"

section \<open>Lemmas\<close>

text \<open>The two registrations of the publisher succeed on non-empty ranges and both regions stay covered.\<close>

lemma init_publisher_spec:
  assumes "rma_inv en" "pv_next_qp_num (en_provider en) = 1"
    and "ser (build_snapshot pages (Publisher_new inval)) = Ok bytes"
    and "ptr \<noteq> 0" "inval \<noteq> 0" "(of_nat (length bytes) :: u64) \<noteq> 0"
  shows "\<exists>pub en' a b. init_metadata_publisher ser inval ptr pages en = (Ok pub, en') \<and> rma_inv en' \<and> keys_left en' \<and>
    mp_metadata_region pub = Some a \<and> mp_invalidation_region pub = Some b \<and>
    rg_vaddr a = ptr \<and> rg_length a = of_nat (length bytes) \<and> rg_vaddr b = inval \<and> rg_length b = of_nat INVAL_BUFFER_SIZE \<and>
    covered en' a \<and> covered en' b \<and> en_hardware_accelerated en' = en_hardware_accelerated en"
proof -
  have k0: "keys_left en"
    using assms(2) by (simp add: keys_left_def)
  obtain a en1 where a: "register_memory_region ptr (of_nat (length bytes)) None en = (Ok a, en1)" "rma_inv en1"
    "rg_vaddr a = ptr" "rg_length a = of_nat (length bytes)" "live en1 = (live en)(rg_rkey a \<mapsto> a)"
    using register_spec [OF assms(1) k0 assms(4,6), of None] by blast
  have n1: "pv_next_qp_num (en_provider en1) \<in> {1, 2}"
    using register_next [of ptr "of_nat (length bytes)" None en] a(1) assms(2) by simp
  then have k1: "keys_left en1"
    by (auto simp: keys_left_def)
  have "(of_nat INVAL_BUFFER_SIZE :: u64) \<noteq> 0"
    by (simp add: INVAL_BUFFER_SIZE_def ENTRY_SIZE_def NUM_ENTRIES_def)
  from register_spec [OF a(2) k1 assms(5) this, of None] obtain b en2 where
    b: "register_memory_region inval (of_nat INVAL_BUFFER_SIZE) None en1 = (Ok b, en2)" "rma_inv en2"
    "rg_vaddr b = inval" "rg_length b = of_nat INVAL_BUFFER_SIZE" "live en2 = (live en1)(rg_rkey b \<mapsto> b)"
    by blast
  have "pv_next_qp_num (en_provider en2) \<in> {1, 2, 3}"
    using register_next [of inval "of_nat INVAL_BUFFER_SIZE" None en1] b(1) n1 by auto
  then have k2: "keys_left en2"
    by (auto simp: keys_left_def)
  have "covered en1 a" "covered en2 b"
    using a(5) b(5) by (simp_all add: covered_def)
  with register_covered [OF a(2) k1, of a inval "of_nat INVAL_BUFFER_SIZE" None] b(1) have "covered en2 a" "covered en2 b"
    by simp_all
  moreover have "en_hardware_accelerated en2 = en_hardware_accelerated en"
    using register_hardware [of inval "of_nat INVAL_BUFFER_SIZE" None en1]
      register_hardware [of ptr "of_nat (length bytes)" None en] a(1) b(1) by simp
  ultimately show ?thesis
    using a b k2 assms(3)
    by (simp add: init_metadata_publisher_def register_metadata_def register_invalidation_buffer_def Publisher_new_def Let_def)
qed

section \<open>Properties\<close>

text \<open>
  C19: what a start leads to.  Let the serializer give bytes for the empty snapshot and
  the allocator addresses other than null.  If the staging pool cannot be created the
  start ends with that error, else if the kernel gives no fault descriptor with that one,
  and otherwise it succeeds: the node is in a start state of the node's step relation
  under the identifier of the configuration, the publisher's two regions are registered
  with the engine for the snapshot and for the ring, and the engine calls itself hardware
  accelerated whatever the device probe found.
\<close>

theorem daemon_start_outcome:
  fixes env :: "'be boot_env"
  assumes "be_serialize env \<lparr>ms_version = 0, ms_entries = []\<rparr> = Ok bytes" "bytes \<noteq> []" "length bytes < 2 ^ 64"
    and "be_snapshot_ptr env \<noteq> 0" "be_inval_ptr env \<noteq> 0" "kc_staging_num_pages (vc_klnk c) < 2 ^ 64"
  shows "case StagingPool_new (be_mmap env) (kc_staging_num_pages (vc_klnk c)) PAGE_SIZE_2M
        (word_of_int (max (tun_numa_node (vc_tuning c)) 0)) of
      Inl e \<Rightarrow> (daemon_start env c :: ('be BootError, 'addr daemon) result) = Err (BootStaging e)
    | Inr pool \<Rightarrow>
        case be_uffd env of
          Inl m \<Rightarrow> (daemon_start env c :: ('be BootError, 'addr daemon) result) = Err (BootUffd (CreateFailed m))
        | Inr _ \<Rightarrow> \<exists>d a b. (daemon_start env c :: ('be BootError, 'addr daemon) result) = Ok d \<and> node_reachable (daemon_node_id c) (dm_node d) \<and>
            mp_metadata_region (dm_publisher d) = Some a \<and> covered (dm_engine d) a \<and>
            rg_vaddr a = be_snapshot_ptr env \<and> rg_length a = of_nat (length bytes) \<and>
            mp_invalidation_region (dm_publisher d) = Some b \<and> covered (dm_engine d) b \<and>
            rg_vaddr b = be_inval_ptr env \<and> rg_length b = of_nat INVAL_BUFFER_SIZE \<and>
            en_hardware_accelerated (dm_engine d)"
proof -
  let ?en = "auto_detect (Some (rdc_device_name (trc_rdma (vc_transport c)))) (be_detected env) :: 'addr RmaTransportEngine"
  have "unat (of_nat (length bytes) :: u64) = length bytes"
    using assms(3) by (simp add: unat_of_nat)
  then have "(of_nat (length bytes) :: u64) \<noteq> 0"
    using assms(2) by auto
  moreover have "be_serialize env (build_snapshot [] (Publisher_new (be_inval_ptr env))) = Ok bytes"
    using assms(1) by (simp add: build_snapshot_def Publisher_new_def)
  moreover have "pv_next_qp_num (en_provider ?en) = 1"
    by (simp add: auto_detect_def RdmaProvider_new_def)
  ultimately obtain pub en1 a b where i: "init_metadata_publisher (be_serialize env) (be_inval_ptr env) (be_snapshot_ptr env) [] ?en = (Ok pub, en1)"
    "rma_inv en1" "keys_left en1" "mp_metadata_region pub = Some a" "mp_invalidation_region pub = Some b"
    "rg_vaddr a = be_snapshot_ptr env" "rg_length a = of_nat (length bytes)" "rg_vaddr b = be_inval_ptr env"
    "rg_length b = of_nat INVAL_BUFFER_SIZE" "covered en1 a" "covered en1 b" "en_hardware_accelerated en1 = en_hardware_accelerated ?en"
    using init_publisher_spec [OF auto_detect_inv, where ser = "be_serialize env" and pages = "[]"] assms(4,5) by blast
  have hw: "en_hardware_accelerated en1"
    using i(12) by (simp add: auto_detect_def Let_def)
  show ?thesis
  proof (cases "StagingPool_new (be_mmap env) (kc_staging_num_pages (vc_klnk c)) PAGE_SIZE_2M
        (word_of_int (max (tun_numa_node (vc_tuning c)) 0))")
    case (Inl e)
    then show ?thesis
      by (simp add: daemon_start_def i(1))
  next
    case (Inr pool)
    have pf: "prefetch_start (PrefetchEngine_new (boot_prefetch_config c) (ControlPlane_new (daemon_node_id c)) pool) =
        Some ((PrefetchEngine_new (boot_prefetch_config c) (ControlPlane_new (daemon_node_id c)) pool)\<lparr>pf_has_receiver := False\<rparr>)"
      by (simp add: prefetch_start_def PrefetchEngine_new_def boot_prefetch_config_def)
    show ?thesis
    proof (cases "be_uffd env")
      case (Inl m)
      with Inr show ?thesis
        by (simp add: daemon_start_def i(1) pf UffdHandler_new_def)
    next
      case (Inr u)
      let ?en2 = "snd (register_memory_region (sp_base_ptr pool) (of_nat (sp_total_bytes pool)) None en1)"
      have cov: "covered ?en2 a" "covered ?en2 b" "en_hardware_accelerated ?en2"
        using register_covered [OF i(2,3)] i(10,11) hw by (simp_all add: register_hardware)
      from nr_start [OF \<open>StagingPool_new _ _ _ _ = Inr pool\<close> assms(6), of "be_uffd env" "daemon_node_id c"] Inr
        \<open>StagingPool_new _ _ _ _ = Inr pool\<close> show ?thesis
        by (simp add: daemon_start_def i(1,4-9) cov UffdHandler_new_def PrefetchEngine_new_def register_staging_pool_def
            prefetch_start_def boot_prefetch_config_def Let_def)
    qed
  qed
qed

definition sample_boot :: "unit boot_env" where
  "sample_boot = \<lparr>be_detected = None, be_serialize = (\<lambda>_. Ok [0]), be_snapshot_ptr = 0x1000, be_inval_ptr = 0x2000,
     be_mmap = (\<lambda>_. Ok 0x100000), be_uffd = Ok ()\<rparr>"

theorem daemon_start_outcome_witness:
  "\<exists>d :: unit daemon. daemon_start sample_boot VirthubConfig_default = Ok d \<and> node_reachable (NodeId 1) (dm_node d) \<and>
     en_hardware_accelerated (dm_engine d)"
proof -
  have "daemon_node_id VirthubConfig_default = NodeId 1"
    by (simp add: daemon_node_id_def VirthubConfig_default_def parse_u64_def Let_def)
  with daemon_start_outcome [of sample_boot "[0]" VirthubConfig_default] show ?thesis
    by (auto simp: sample_boot_def VirthubConfig_default_def StagingPool_new_def PAGE_SIZE_2M_def PAGE_SIZE_4K_def)
qed

end
