(* ===== verification/Telemetry.thy ===== *)
theory Telemetry
  imports Daemon_Boot
begin

text \<open>
  The telemetry of the daemon: the trace manager, from \<open>src/klnk/klnk-ebpf/src/lib.rs\<close>, the
  task that \<open>main\<close> of \<open>src/klnk/klnk-daemon/src/main.rs\<close> starts to turn access events into
  prefetch recommendations, the prefetch engine behind it, and \<open>main\<close> of
  \<open>src/klnk/klnk-ebpf/src/main.rs\<close>.  The bounded channel of events is its queue with a
  capacity, the number of its senders and whether its receiver is alive; the channel of
  recommendations has no bound.  Times are supplied by the caller.
\<close>

section \<open>The channel of events\<close>

record 'a mpsc =
  ch_queue :: "'a list"
  ch_capacity :: nat
  ch_senders :: nat
  ch_receiver :: bool

datatype 'a received = Received 'a | Waiting | Closed

definition mpsc_recv :: "'a mpsc \<Rightarrow> 'a received \<times> 'a mpsc" where
  "mpsc_recv ch =
    (case ch_queue ch of
       x # xs \<Rightarrow> (Received x, ch\<lparr>ch_queue := xs\<rparr>)
     | [] \<Rightarrow> (if ch_senders ch = 0 then Closed else Waiting, ch))"

section \<open>The trace manager\<close>

datatype EbpfError =
    ProbeLoadFailed string
  | TracepointAttachFailed string
  | RingBufferError string
  | NotActive

record EbpfTraceManager =
  tm_config :: VirthubConfig
  tm_is_active :: bool
  tm_detector :: StrideDetector

text \<open>The manager owns the only sender; a channel without capacity panics.\<close>

definition TraceManager_new :: "VirthubConfig \<Rightarrow> nat \<Rightarrow> (EbpfTraceManager \<times> AccessEvent mpsc) option" where
  "TraceManager_new config channel_buffer_size =
    (if channel_buffer_size = 0 then None
     else Some (\<lparr>tm_config = config, tm_is_active = True, tm_detector = StrideDetector_default\<rparr>,
                \<lparr>ch_queue = [], ch_capacity = channel_buffer_size, ch_senders = 1, ch_receiver = True\<rparr>))"

text \<open>Attaching succeeds whether or not the tracing file system is there.\<close>

definition attach_probes :: "bool \<Rightarrow> EbpfTraceManager \<Rightarrow> (EbpfError, unit) result" where
  "attach_probes tracing_exists m =
    (if \<not> tm_is_active m then Err NotActive else if tracing_exists then Ok () else Ok ())"

text \<open>Submitting waits while the channel is full, \<open>None\<close>, and fails once the receiver is gone.\<close>

definition submit_event :: "AccessEvent \<Rightarrow> AccessEvent mpsc \<Rightarrow> ((EbpfError, unit) result \<times> AccessEvent mpsc) option" where
  "submit_event event ch =
    (if \<not> ch_receiver ch then Some (Err (RingBufferError ''channel closed''), ch)
     else if ch_capacity ch \<le> length (ch_queue ch) then None
     else Some (Ok (), ch\<lparr>ch_queue := ch_queue ch @ [event]\<rparr>))"

definition analyze_event :: "AccessEvent \<times> nat \<Rightarrow> EbpfTraceManager \<Rightarrow> PrefetchRecommendation option \<times> EbpfTraceManager" where
  "analyze_event event m =
    (let (r, sd) = process_event event (tm_detector m) in (r, m\<lparr>tm_detector := sd\<rparr>))"

section \<open>The telemetry task of the daemon\<close>

text \<open>
  The state of the task and of the engine behind it.  \<open>te_handles\<close> counts the handles to
  the manager outside the task: whoever has one can submit events.
\<close>

record 'addr telemetry =
  te_manager :: EbpfTraceManager
  te_channel :: "AccessEvent mpsc"
  te_handles :: nat
  te_running :: bool
  te_recs :: "PrefetchRecommendation list"
  te_engine_open :: bool
  te_engine :: "'addr PrefetchEngine"

text \<open>The end of the task drops the receiver and its handle to the manager.\<close>

definition stop_task :: "'addr telemetry \<Rightarrow> 'addr telemetry" where
  "stop_task s = s\<lparr>te_running := False,
     te_channel := (te_channel s)\<lparr>ch_receiver := False, ch_senders := (if te_handles s = 0 then 0 else 1)\<rparr>\<rparr>"

text \<open>One turn of the loop; \<open>None\<close> is a task that waits or has ended.\<close>

definition telemetry_turn :: "nat \<Rightarrow> 'addr telemetry \<Rightarrow> 'addr telemetry option" where
  "telemetry_turn now s =
    (if \<not> te_running s then None
     else case mpsc_recv (te_channel s) of
            (Waiting, _) \<Rightarrow> None
          | (Closed, _) \<Rightarrow> Some (stop_task s)
          | (Received event, ch) \<Rightarrow>
              let (r, m) = analyze_event (event, now) (te_manager s); s1 = s\<lparr>te_channel := ch, te_manager := m\<rparr>
              in (case r of
                    None \<Rightarrow> Some s1
                  | Some rec \<Rightarrow> if te_engine_open s then Some (s1\<lparr>te_recs := te_recs s @ [rec]\<rparr>) else Some (stop_task s1)))"

text \<open>One turn of the prefetch engine: it takes the oldest recommendation.\<close>

definition engine_turn ::
    "('addr \<Rightarrow> u64 \<Rightarrow> u32 \<Rightarrow> u64 \<Rightarrow> nat \<Rightarrow> ('rma, unit) result) \<Rightarrow>
     ('addr prefetch_task list \<Rightarrow> 'addr prefetch_task list) \<Rightarrow> 'addr telemetry \<Rightarrow> 'addr telemetry option" where
  "engine_turn reads order s =
    (case te_recs s of
       [] \<Rightarrow> None
     | rec # recs \<Rightarrow> map_option (\<lambda>e. s\<lparr>te_recs := recs, te_engine := e\<rparr>) (receive_recommendation reads order rec (te_engine s)))"

text \<open>
  The wiring of \<open>main\<close>: the manager moves into the task, so no handle to it is left
  outside.  A failure to attach is only logged.  Without telemetry there is no task.
\<close>

definition daemon_telemetry :: "VirthubConfig \<Rightarrow> 'addr PrefetchEngine \<Rightarrow> 'addr telemetry option" where
  "daemon_telemetry c e =
    (if \<not> ebc_enabled (vc_ebpf c) then None
     else map_option (\<lambda>(m, ch).
       \<lparr>te_manager = m, te_channel = ch, te_handles = 0, te_running = True, te_recs = [], te_engine_open = True, te_engine = e\<rparr>)
       (TraceManager_new c 1024))"

section \<open>The controller binary\<close>

text \<open>
  \<open>main\<close> of the controller: a sample region is registered, and with telemetry enabled a
  task is started that has the receiver and the detector.  The manager itself, and with it
  the sender, ends with the block that starts the task.
\<close>

definition sample_ebpf_region :: RegionState where
  "sample_ebpf_region = \<lparr>rs_region_id = GlobalRegionId 100 1, rs_base_vaddr = 0x7fff00000000,
     rs_size = 2 * 1024 * 1024, rs_owner_node = NodeId 1\<rparr>"

definition ebpf_main ::
    "('e, VirthubConfig) result \<Rightarrow>
     (EbpfManagerError, EbpfManager \<times> (StrideDetector \<times> AccessEvent mpsc) option) result option" where
  "ebpf_main loaded =
    (let config = (case loaded of Inl _ \<Rightarrow> VirthubConfig_default | Inr c \<Rightarrow> c)
     in case ebpf_register_region sample_ebpf_region EbpfManager_new of
          (Inl e, _) \<Rightarrow> Some (Err e)
        | (Inr _, manager) \<Rightarrow>
            if ebc_enabled (vc_ebpf config)
            then map_option (\<lambda>(m, ch). Ok (manager, Some (tm_detector m, ch\<lparr>ch_senders := 0\<rparr>))) (TraceManager_new config 1024)
            else Some (Ok (manager, None)))"

definition ebpf_task_turn ::
    "nat \<Rightarrow> StrideDetector \<times> AccessEvent mpsc \<Rightarrow>
     (PrefetchRecommendation option \<times> StrideDetector \<times> AccessEvent mpsc) received" where
  "ebpf_task_turn now = (\<lambda>(sd, ch).
     case mpsc_recv ch of
       (Received event, ch1) \<Rightarrow> (let (r, sd1) = process_event (event, now) sd in Received (r, sd1, ch1))
     | (Waiting, _) \<Rightarrow> Waiting
     | (Closed, _) \<Rightarrow> Closed)"

section \<open>Runs\<close>

text \<open>
  Any interleaving of submissions by holders of a handle, turns of the telemetry task and
  turns of the engine, with the events submitted, the events consumed and their times, and
  the recommendations handled.
\<close>

inductive telemetry_run ::
    "('addr \<Rightarrow> u64 \<Rightarrow> u32 \<Rightarrow> u64 \<Rightarrow> nat \<Rightarrow> ('rma, unit) result) \<Rightarrow> ('addr prefetch_task list \<Rightarrow> 'addr prefetch_task list) \<Rightarrow>
     'addr telemetry \<Rightarrow> AccessEvent list \<Rightarrow> (AccessEvent \<times> nat) list \<Rightarrow> PrefetchRecommendation list \<Rightarrow> 'addr telemetry \<Rightarrow> bool"
  for reads order s where
  tr_start: "telemetry_run reads order s [] [] [] s"
| tr_submit: "telemetry_run reads order s sub con hnd s1 \<Longrightarrow> 0 < te_handles s1 \<Longrightarrow>
    submit_event ev (te_channel s1) = Some (Ok (), ch) \<Longrightarrow> telemetry_run reads order s (sub @ [ev]) con hnd (s1\<lparr>te_channel := ch\<rparr>)"
| tr_turn: "telemetry_run reads order s sub con hnd s1 \<Longrightarrow> fst (mpsc_recv (te_channel s1)) = Received ev \<Longrightarrow>
    telemetry_turn now s1 = Some s2 \<Longrightarrow> telemetry_run reads order s sub (con @ [(ev, now)]) hnd s2"
| tr_end: "telemetry_run reads order s sub con hnd s1 \<Longrightarrow> fst (mpsc_recv (te_channel s1)) = Closed \<Longrightarrow>
    telemetry_turn now s1 = Some s2 \<Longrightarrow> telemetry_run reads order s sub con hnd s2"
| tr_engine: "telemetry_run reads order s sub con hnd s1 \<Longrightarrow> te_recs s1 = rec # recs \<Longrightarrow>
    engine_turn reads order s1 = Some s2 \<Longrightarrow> telemetry_run reads order s sub con (hnd @ [rec]) s2"

text \<open>What the detector says to a sequence of events, and the engine's way through recommendations.\<close>

definition emitted :: "StrideDetector \<Rightarrow> (AccessEvent \<times> nat) list \<Rightarrow> PrefetchRecommendation list" where
  "emitted sd con = List.map_filter id (fst (map_state process_event con sd))"

definition handle_all ::
    "('addr \<Rightarrow> u64 \<Rightarrow> u32 \<Rightarrow> u64 \<Rightarrow> nat \<Rightarrow> ('rma, unit) result) \<Rightarrow> ('addr prefetch_task list \<Rightarrow> 'addr prefetch_task list) \<Rightarrow>
     PrefetchRecommendation list \<Rightarrow> 'addr PrefetchEngine \<Rightarrow> 'addr PrefetchEngine option" where
  "handle_all reads order recs e = foldl (\<lambda>r rec. Option.bind r (receive_recommendation reads order rec)) (Some e) recs"

lemma emitted_snoc:
  "emitted sd (con @ [x]) = emitted sd con @
    (case fst (process_event x (snd (map_state process_event con sd))) of None \<Rightarrow> [] | Some r \<Rightarrow> [r])"
  by (simp add: emitted_def map_state_append List.map_filter_def split: option.splits)

lemma handle_all_snoc: "handle_all reads order (recs @ [r]) e = Option.bind (handle_all reads order recs e) (receive_recommendation reads order r)"
  by (simp add: handle_all_def)

lemma recv_cases:
  "fst (mpsc_recv ch) = Received ev \<longleftrightarrow> (\<exists>xs. ch_queue ch = ev # xs)"
  "fst (mpsc_recv ch) = Closed \<longleftrightarrow> ch_queue ch = [] \<and> ch_senders ch = 0"
  by (auto simp: mpsc_recv_def split: list.splits)

text \<open>One consuming turn.\<close>

lemma turn_received:
  assumes "fst (mpsc_recv (te_channel s)) = Received ev" "telemetry_turn now s = Some s1" "te_engine_open s"
  shows "te_running s" "ch_queue (te_channel s) = ev # ch_queue (te_channel s1)"
    "ch_senders (te_channel s1) = ch_senders (te_channel s)" "ch_capacity (te_channel s1) = ch_capacity (te_channel s)"
    "tm_detector (te_manager s1) = snd (process_event (ev, now) (tm_detector (te_manager s)))"
    "te_recs s1 = te_recs s @ (case fst (process_event (ev, now) (tm_detector (te_manager s))) of None \<Rightarrow> [] | Some r \<Rightarrow> [r])"
    "te_engine s1 = te_engine s" "te_engine_open s1" "te_handles s1 = te_handles s"
  using assms
  by (auto simp: telemetry_turn_def mpsc_recv_def analyze_event_def Let_def
      split: if_splits list.splits prod.splits option.splits)

lemma engine_turn_spec:
  assumes "te_recs s = rec # recs" "engine_turn reads order s = Some s1"
  obtains e where "s1 = s\<lparr>te_recs := recs, te_engine := e\<rparr>" "receive_recommendation reads order rec (te_engine s) = Some e"
  using assms by (auto simp: engine_turn_def)

text \<open>
  The invariant of runs: channel, detector, recommendations and engine are those of the
  sequential run over the consumed events and the handled recommendations.
\<close>

lemma telemetry_run_inv:
  assumes "telemetry_run reads order s sub con hnd s'" "te_engine_open s" "0 < ch_senders (te_channel s)"
    and "length (ch_queue (te_channel s)) \<le> ch_capacity (te_channel s)"
  shows "ch_queue (te_channel s) @ sub = map fst con @ ch_queue (te_channel s') \<and>
    te_recs s @ emitted (tm_detector (te_manager s)) con = hnd @ te_recs s' \<and>
    handle_all reads order hnd (te_engine s) = Some (te_engine s') \<and>
    tm_detector (te_manager s') = snd (map_state process_event con (tm_detector (te_manager s))) \<and>
    te_engine_open s' \<and> 0 < ch_senders (te_channel s') \<and> te_handles s' = te_handles s \<and>
    ch_capacity (te_channel s') = ch_capacity (te_channel s) \<and> length (ch_queue (te_channel s')) \<le> ch_capacity (te_channel s')"
  using assms
proof (induction rule: telemetry_run.induct)
  case tr_start
  then show ?case
    by (simp add: emitted_def handle_all_def)
next
  case (tr_submit sub con hnd s1 ev ch)
  then show ?case
    by (auto simp: submit_event_def split: if_splits)
next
  case (tr_turn sub con hnd s1 ev now s2)
  then have "te_engine_open s1"
    by simp
  note t = turn_received [OF tr_turn.hyps(2,3) this]
  from tr_turn t show ?case
    by (simp add: emitted_snoc map_state_append)
next
  case (tr_end sub con hnd s1 now s2)
  then show ?case
    by (simp add: recv_cases)
next
  case (tr_engine sub con hnd s1 rec recs s2)
  obtain e where e: "s2 = s1\<lparr>te_recs := recs, te_engine := e\<rparr>" "receive_recommendation reads order rec (te_engine s1) = Some e"
    using engine_turn_spec [OF tr_engine.hyps(2,3)] by blast
  with tr_engine show ?case
    by (simp add: handle_all_snoc)
qed


text \<open>A holder of a handle gets every event through: each is consumed right after it is submitted.\<close>

definition tele_ready :: "'addr telemetry \<Rightarrow> bool" where
  "tele_ready s \<longleftrightarrow> te_running s \<and> te_engine_open s \<and> 0 < te_handles s \<and> ch_receiver (te_channel s) \<and>
     0 < ch_senders (te_channel s) \<and> 0 < ch_capacity (te_channel s) \<and> ch_queue (te_channel s) = []"

lemma submit_and_consume:
  assumes "tele_ready s"
  shows "\<exists>ch s1. submit_event ev (te_channel s) = Some (Ok (), ch) \<and> fst (mpsc_recv ch) = Received ev \<and>
    telemetry_turn now (s\<lparr>te_channel := ch\<rparr>) = Some s1 \<and> tele_ready s1 \<and> te_engine s1 = te_engine s"
  using assms
  by (auto simp: tele_ready_def submit_event_def mpsc_recv_def telemetry_turn_def analyze_event_def Let_def
      split: prod.splits option.splits)

lemma consume_all:
  assumes "tele_ready s"
  shows "\<exists>s'. telemetry_run reads order s (map fst con) con [] s' \<and> tele_ready s' \<and> te_engine s' = te_engine s"
proof (induction con rule: rev_induct)
  case Nil
  show ?case
    using assms tr_start by fastforce
next
  case (snoc x con)
  then obtain s1 where s1: "telemetry_run reads order s (map fst con) con [] s1" "tele_ready s1" "te_engine s1 = te_engine s"
    by blast
  obtain ch s2 where s2: "submit_event (fst x) (te_channel s1) = Some (Ok (), ch)" "fst (mpsc_recv ch) = Received (fst x)"
    "telemetry_turn (snd x) (s1\<lparr>te_channel := ch\<rparr>) = Some s2" "tele_ready s2" "te_engine s2 = te_engine s1"
    using submit_and_consume [OF s1(2)] by blast
  have "0 < te_handles s1"
    using s1(2) by (simp add: tele_ready_def)
  from tr_submit [OF s1(1) this s2(1)] s2(2,3) have "telemetry_run reads order s (map fst con @ [fst x]) (con @ [(fst x, snd x)]) [] s2"
    by (intro tr_turn) simp_all
  with s1(3) s2(4,5) show ?case
    by auto
qed

section \<open>From strides to prefetched pages\<close>

lemma prefetch_keeps: "pf_prefetched_pages e v \<noteq> None \<Longrightarrow> pf_prefetched_pages (prefetch_one_page reads t e) v \<noteq> None"
  by (cases t) (auto simp: prefetch_one_page_def Let_def split: prod.splits sum.splits)

lemma prefetch_all_keeps: "pf_prefetched_pages e v \<noteq> None \<Longrightarrow> pf_prefetched_pages (fold (prefetch_one_page reads) ts e) v \<noteq> None"
proof (induction ts arbitrary: e)
  case (Cons t ts)
  show ?case
    unfolding fold_simps by (rule Cons.IH [OF prefetch_keeps [OF Cons.prems]])
qed simp

lemma prefetch_one_succeeds:
  assumes "sp_inv (pf_staging_pool e)" "0 < available_slots (pf_staging_pool e)" "\<And>a v k d n. reads a v k d n = Ok ()"
  shows "pf_prefetched_pages (prefetch_one_page reads t e) (fst t) \<noteq> None"
    "sp_inv (pf_staging_pool (prefetch_one_page reads t e))"
    "available_slots (pf_staging_pool e) = Suc (available_slots (pf_staging_pool (prefetch_one_page reads t e)))"
proof -
  obtain i r where "sp_free_slots (pf_staging_pool e) = i # r"
    using assms(2) by (cases "sp_free_slots (pf_staging_pool e)") (auto simp: available_slots_def)
  then obtain slot p1 where p1: "pop_slot (pf_staging_pool e) = (Inr slot, p1)"
    by (auto simp: pop_slot_def)
  with pop_inv [OF assms(1) p1] assms(3) show
    "pf_prefetched_pages (prefetch_one_page reads t e) (fst t) \<noteq> None"
    "sp_inv (pf_staging_pool (prefetch_one_page reads t e))"
    "available_slots (pf_staging_pool e) = Suc (available_slots (pf_staging_pool (prefetch_one_page reads t e)))"
    by (cases t; simp add: prefetch_one_page_def Let_def)+
qed

text \<open>With a slot for every task and reads that succeed, every task leaves its page prefetched.\<close>

lemma prefetch_all_succeed:
  assumes "sp_inv (pf_staging_pool e)" "length ts \<le> available_slots (pf_staging_pool e)" "\<And>a v k d n. reads a v k d n = Ok ()"
    and "t \<in> set ts"
  shows "pf_prefetched_pages (fold (prefetch_one_page reads) ts e) (fst t) \<noteq> None"
  using assms(1,2,4)
proof (induction ts arbitrary: e)
  case (Cons u ts)
  have "0 < available_slots (pf_staging_pool e)"
    using Cons.prems(2) by simp
  note one = prefetch_one_succeeds [where reads = reads and t = u, OF Cons.prems(1) this assms(3)]
  show ?case
  proof (cases "t = u")
    case True
    with one(1) prefetch_all_keeps show ?thesis
      by (simp del: not_None_eq)
  next
    case False
    with Cons one(2,3) show ?thesis
      by simp
  qed
qed simp

text \<open>A page of a peer that the node knows and can fetch.\<close>

definition remote_page :: "'addr cp \<Rightarrow> u64 \<Rightarrow> bool" where
  "remote_page cp v \<longleftrightarrow> (\<exists>e. lookup_page_state v cp = Some e \<and> pe_primary_owner e \<noteq> cp_local_node_id cp \<and>
     pe_coherence_state e \<noteq> InFlight \<and> get_remote_node (pe_primary_owner e) cp \<noteq> None)"

lemma receive_prefetches:
  assumes "sp_inv (pf_staging_pool e)" "pc_max_concurrent_requests (pf_config e) \<noteq> 0"
    and "pr_count rec \<le> available_slots (pf_staging_pool e)" "\<And>a v k d n. reads a v k d n = Ok ()"
    and "\<And>ts. set (order ts) = set ts \<and> length (order ts) = length ts"
    and "i < pr_count rec" "i < pc_max_prefetch_count (pf_config e)" "remote_page (pf_control_plane e) (pr_base_vaddr rec + of_nat i * pr_stride_bytes rec)"
  shows "\<exists>e'. receive_recommendation reads order rec e = Some e' \<and>
    pf_prefetched_pages e' (pr_base_vaddr rec + of_nat i * pr_stride_bytes rec) \<noteq> None"
proof -
  let ?e = "e\<lparr>pf_metrics := (pf_metrics e)\<lparr>pm_total_recommendations := pm_total_recommendations (pf_metrics e) + 1\<rparr>\<rparr>"
  let ?v = "pr_base_vaddr rec + of_nat i * pr_stride_bytes rec"
  let ?ts = "prefetch_tasks rec ?e"
  have r: "receive_recommendation reads order rec e = Some (fold (prefetch_one_page reads) (order ?ts) ?e)"
    using assms(2) by (simp add: receive_recommendation_def handle_recommendation_def Let_def)
  show ?thesis
  proof (cases "pf_prefetched_pages e ?v")
    case None
    with assms(8) obtain x y z where "prefetch_task rec ?e i = Some (?v, x, y, z)"
      by (auto simp: prefetch_task_def remote_page_def Let_def)
    with assms(6,7) have "(?v, x, y, z) \<in> set ?ts"
      by (auto simp: prefetch_tasks_def List.map_filter_def image_iff intro!: exI [of _ i])
    then have "(?v, x, y, z) \<in> set (order ?ts)"
      using assms(5) by blast
    moreover have "length (List.map_filter f xs) \<le> length xs" for f :: "nat \<Rightarrow> 'a prefetch_task option" and xs
      by (simp add: List.map_filter_def)
    then have "length ?ts \<le> pr_count rec"
      unfolding prefetch_tasks_def by (rule order_trans) simp
    then have "length (order ?ts) \<le> available_slots (pf_staging_pool ?e)"
      using assms(3,5) by simp
    ultimately have "pf_prefetched_pages (fold (prefetch_one_page reads) (order ?ts) ?e) (fst (?v, x, y, z)) \<noteq> None"
      using assms(1,4) by (intro prefetch_all_succeed) simp_all
    with r show ?thesis
      by simp
  next
    case (Some a)
    with r prefetch_all_keeps [of ?e ?v reads "order ?ts"] show ?thesis
      by simp
  qed
qed

section \<open>Properties\<close>

text \<open>A fault on a prefetched page is served from its slot, whatever a remote read would do.\<close>

lemma prefetched_fault_served:
  assumes "uh_prefetched_pages h = Some m" "m v = Some slot" "remote_page (uh_control_plane h) v"
    and "uffd_move (fe_kernel env) v (slot_vaddr slot) (of_nat (slot_size slot)) = Ok n"
  shows "fst (handle_page_fault env v h) = Ok ()"
    "handle_page_fault (env\<lparr>fe_rdma_read := f\<rparr>) v h = handle_page_fault env v h"
proof -
  obtain e where e: "lookup_page_state v (uh_control_plane h) = Some e" "pe_coherence_state e \<noteq> InFlight"
    "pe_primary_owner e \<noteq> cp_local_node_id (uh_control_plane h)"
    using assms(3) by (auto simp: remote_page_def)
  have pre: "uh_prefetched_pages (begin_remote v owner h) = Some m" for owner
    using assms(1) by (simp add: begin_remote_def)
  show "fst (handle_page_fault env v h) = Ok ()"
    "handle_page_fault (env\<lparr>fe_rdma_read := f\<rparr>) v h = handle_page_fault env v h"
    unfolding handle_remote_unfold [OF e] using assms(2,4) by (simp_all add: fetch_remote_page_def pre)
qed

lemma emitted_stride:
  assumes "stride \<noteq> 0" "\<forall>k. t (Suc k) \<le> t k + 100000000"
  shows "emitted StrideDetector_default (stride_events pid base stride t 0 3) =
    [\<lparr>pr_pid = pid, pr_base_vaddr = base + of_nat (2 + 1) * stride, pr_stride_bytes = stride, pr_count = 4\<rparr>]"
  unfolding emitted_def
  using stride_detected [of stride t StrideDetector_default pid base 3] assms
  by (simp add: StrideDetector_default_def numeral_3_eq_3 List.map_filter_def)


text \<open>A node that has prefetched nothing, with a page of a peer at the fourth address of the sequence.\<close>

definition four_slots :: StagingMemoryPool where
  "four_slots = \<lparr>sp_base_ptr = 0x10000, sp_total_bytes = 16384, sp_slot_page_size = 4096, sp_num_slots = 4,
     sp_free_slots = [0, 1, 2, 3], sp_numa_node = 0, sp_is_freed = False, sp_active = 0\<rparr>"

definition sample_telemetry :: "unit telemetry" where
  "sample_telemetry =
    \<lparr>te_manager = \<lparr>tm_config = VirthubConfig_default, tm_is_active = True, tm_detector = StrideDetector_default\<rparr>,
     te_channel = \<lparr>ch_queue = [], ch_capacity = 1024, ch_senders = 1, ch_receiver = True\<rparr>, te_handles = 1,
     te_running = True, te_recs = [], te_engine_open = True,
     te_engine = PrefetchEngine_new PrefetchConfig_default (uh_control_plane sample_node) four_slots\<rparr>"

lemma four_slots_inv: "sp_inv four_slots" "available_slots four_slots = 4"
  by (auto simp: sp_inv_def four_slots_def available_slots_def)

lemma sample_telemetry_facts:
  "tele_ready sample_telemetry" "te_recs sample_telemetry = []"
  "tm_detector (te_manager sample_telemetry) = StrideDetector_default"
  "pf_staging_pool (te_engine sample_telemetry) = four_slots"
  "pf_config (te_engine sample_telemetry) = PrefetchConfig_default"
  "remote_page (pf_control_plane (te_engine sample_telemetry)) 0x8000"
  by (simp_all add: sample_telemetry_def tele_ready_def PrefetchEngine_new_def remote_page_def sample_node_page)
    (simp add: sample_node_def PageEntry_new_def get_remote_node_def register_remote_node_def RemoteEndpoint_new_def)

lemma sample_telemetry_run:
  "\<exists>sub hnd s'. telemetry_run (\<lambda>_ _ _ _ _. Ok () :: (unit, unit) result) id sample_telemetry sub
     (stride_events 7 0x5000 0x1000 (\<lambda>k. k) 0 3) hnd s' \<and> te_recs s' = []"
proof -
  let ?reads = "\<lambda>_ _ _ _ _. Ok () :: (unit, unit) result" and ?evs = "stride_events 7 0x5000 0x1000 (\<lambda>k. k) 0 3"
  obtain s1 where s1: "telemetry_run ?reads id sample_telemetry (map fst ?evs) ?evs [] s1" "tele_ready s1"
    "te_engine s1 = te_engine sample_telemetry"
    using consume_all [OF sample_telemetry_facts(1)] by blast
  have "te_recs s1 = emitted StrideDetector_default ?evs"
    using telemetry_run_inv [OF s1(1)] sample_telemetry_facts(1-3) by (simp add: tele_ready_def)
  then obtain rec where rec: "te_recs s1 = [rec]"
    by (simp add: emitted_stride)
  moreover obtain s2 where s2: "engine_turn ?reads id s1 = Some s2" "te_recs s2 = []"
    using rec s1(2) by (auto simp: engine_turn_def receive_recommendation_def handle_recommendation_def
        s1(3) sample_telemetry_facts(5) PrefetchConfig_default_def Let_def)
  ultimately show ?thesis
    using tr_engine [OF s1(1) rec s2(1)] by blast
qed

text \<open>The node of the engine, whose handler shares the prefetched pages.\<close>

abbreviation sharing_node :: "unit telemetry \<Rightarrow> unit UffdHandler" where
  "sharing_node s \<equiv> set_prefetched_pages (pf_prefetched_pages (te_engine s)) sample_node"

text \<open>A system with single-byte pages, so that every slot is aligned, and no network.\<close>

definition offline :: "(unit, unit) fault_env" where
  "offline = (sample_env False)\<lparr>fe_kernel := (fe_kernel (sample_env False :: (unit, unit) fault_env))\<lparr>kn_sysconf_page_size := 1\<rparr>\<rparr>"


text \<open>
  The daemon never prefetches.  The daemon moves the trace manager into the telemetry
  task, which consumes events and submits none, and keeps no other handle to it.  So in
  every run from its start, with whatever configuration and engine, no event is submitted,
  none is consumed, no recommendation is handled and the state never changes.
\<close>

theorem daemon_telemetry_silent:
  assumes "daemon_telemetry c e = Some s" "telemetry_run reads order s sub con hnd s'"
  shows "sub = [] \<and> con = [] \<and> hnd = [] \<and> s' = s"
  using assms(2)
proof (induction rule: telemetry_run.induct)
  case (tr_submit sub con hnd s1 ev ch)
  with assms(1) show ?case
    by (auto simp: daemon_telemetry_def split: if_splits)
next
  case (tr_turn sub con hnd s1 ev now s2)
  with assms(1) show ?case
    by (auto simp: daemon_telemetry_def TraceManager_new_def mpsc_recv_def split: if_splits)
next
  case (tr_end sub con hnd s1 now s2)
  with assms(1) show ?case
    by (auto simp: daemon_telemetry_def TraceManager_new_def mpsc_recv_def split: if_splits)
next
  case (tr_engine sub con hnd s1 rec recs s2)
  with assms(1) show ?case
    by (auto simp: daemon_telemetry_def split: if_splits)
qed simp

theorem daemon_telemetry_silent_witness:
  "\<exists>s :: unit telemetry. daemon_telemetry VirthubConfig_default (te_engine sample_telemetry) = Some s \<and>
     \<not> (\<exists>hnd s'. telemetry_run (\<lambda>_ _ _ _ _. Ok () :: (unit, unit) result) id s [] (stride_events 7 0x5000 0x1000 (\<lambda>k. k) 0 3) hnd s')"
proof -
  obtain s :: "unit telemetry" where s: "daemon_telemetry VirthubConfig_default (te_engine sample_telemetry) = Some s"
    by (auto simp: daemon_telemetry_def VirthubConfig_default_def TraceManager_new_def)
  with daemon_telemetry_silent [OF s] show ?thesis
    by (fastforce simp: stride_events_def numeral_3_eq_3)
qed

text \<open>A new manager attaches on every system.\<close>

lemma attach_always_succeeds: "TraceManager_new c n = Some (m, ch) \<Longrightarrow> attach_probes tracing_exists m = Ok ()"
  by (auto simp: TraceManager_new_def attach_probes_def split: if_splits)

text \<open>The task of the controller binary ends at its first turn, for its sender is gone.\<close>

lemma controller_task_ends:
  assumes "ebpf_main loaded = Some (Ok (m, Some task))"
  shows "ebpf_task_turn now task = Closed"
  using assms
  by (auto simp: ebpf_main_def ebpf_task_turn_def TraceManager_new_def mpsc_recv_def Let_def
      split: prod.splits sum.splits if_splits)

end
