(* ===== verification/Daemon_Service.thy ===== *)
theory Daemon_Service
  imports Telemetry "HOL-Library.Sublist"
begin

text \<open>
  The service loop at the end of \<open>main\<close> of \<open>src/klnk/klnk-daemon/src/main.rs\<close>: the control
  socket, the accept loop with its shutdown flag, and the connections it spawns, which
  run concurrently over one control plane.  One round of \<open>handle_client\<close> is one step of
  its connection: it receives a request, applies it to the shared control plane and
  sends the response.  A request the daemon never finishes is no step.
\<close>

section \<open>The socket and the accept loop\<close>

text \<open>The operating system's answers for the configured path.  That a stale socket cannot be removed is ignored.\<close>

record socket_env =
  so_parent_missing :: bool
  so_create_dir_all :: "(io_error, unit) result"
  so_bind :: "(io_error, unit) result"

record 'be connection =
  cn_input :: "u8 list"
  cn_output :: "u8 list"
  cn_result :: "('be TransportError, unit) result option"

definition connection_new :: "u8 list \<Rightarrow> 'be connection" where
  "connection_new input = \<lparr>cn_input = input, cn_output = [], cn_result = None\<rparr>"

text \<open>\<open>sv_selecting\<close>: the loop has passed its test of the flag and waits in the select.\<close>

record ('be, 'addr) service =
  sv_control_plane :: "'addr cp"
  sv_connections :: "'be connection list"
  sv_shutdown_flag :: bool
  sv_looping :: bool
  sv_selecting :: bool

definition open_control_socket :: "socket_env \<Rightarrow> 'addr cp \<Rightarrow> (io_error, ('be, 'addr) service) result" where
  "open_control_socket env cp =
    (case (if so_parent_missing env then so_create_dir_all env else Ok ()) of
       Inl e \<Rightarrow> Err e
     | Inr _ \<Rightarrow>
         case so_bind env of
           Inl e \<Rightarrow> Err e
         | Inr _ \<Rightarrow> Ok \<lparr>sv_control_plane = cp, sv_connections = [], sv_shutdown_flag = False,
                       sv_looping = True, sv_selecting = False\<rparr>)"

text \<open>The branch of the select that completes: a signal, a connection with the bytes its client sends, or an error.\<close>

datatype selected = CtrlC | Accepted "u8 list" | AcceptError

definition loop_top :: "('be, 'addr) service \<Rightarrow> ('be, 'addr) service" where
  "loop_top s = (if sv_shutdown_flag s then s\<lparr>sv_looping := False\<rparr> else s\<lparr>sv_selecting := True\<rparr>)"

fun select_turn :: "selected \<Rightarrow> ('be, 'addr) service \<Rightarrow> ('be, 'addr) service" where
  "select_turn CtrlC s = s\<lparr>sv_shutdown_flag := True, sv_looping := False, sv_selecting := False\<rparr>"
| "select_turn (Accepted input) s =
    s\<lparr>sv_connections := sv_connections s @ [connection_new input], sv_selecting := False\<rparr>"
| "select_turn AcceptError s =
    (if sv_shutdown_flag s then s\<lparr>sv_looping := False, sv_selecting := False\<rparr> else s\<lparr>sv_selecting := False\<rparr>)"

definition signal_task :: "('be, 'addr) service \<Rightarrow> ('be, 'addr) service" where
  "signal_task s = s\<lparr>sv_shutdown_flag := True\<rparr>"

section \<open>Connections\<close>

definition connection_turn ::
    "('be, ControlMessagePayload) serializer \<Rightarrow> ('be, ControlMessagePayload) deserializer \<Rightarrow>
     (u8 list \<Rightarrow> u8 list \<Rightarrow> (io_error, unit) result) \<Rightarrow> 'be connection \<Rightarrow> 'addr cp \<Rightarrow> ('be connection \<times> 'addr cp) option" where
  "connection_turn ser de write_to c cp =
    (case recv_control_message_tokio de (cn_input c) of
       (Inl e, _) \<Rightarrow> Some (c\<lparr>cn_result := Some (case e of IoError UnexpectedEof \<Rightarrow> Ok () | _ \<Rightarrow> Err e)\<rparr>, cp)
     | (Inr payload, rest) \<Rightarrow>
         case process_control_payload payload cp of
           None \<Rightarrow> None
         | Some (response, cp1) \<Rightarrow>
             case send_control_message_tokio ser (write_to (cn_output c)) response of
               (Inl e, _) \<Rightarrow> Some (c\<lparr>cn_input := rest, cn_result := Some (Err e)\<rparr>, cp1)
             | (Inr _, sent) \<Rightarrow> Some (c\<lparr>cn_input := rest, cn_output := cn_output c @ sent\<rparr>, cp1))"

text \<open>A connection alone is the loop of \<open>handle_client\<close>.\<close>

lemma handle_client_turns:
  "handle_client ser de write_to (cn_input c) (cn_output c) cp =
    (case connection_turn ser de write_to c cp of
       None \<Rightarrow> None
     | Some (c', cp') \<Rightarrow>
         if cn_result c' = cn_result c then handle_client ser de write_to (cn_input c') (cn_output c') cp'
         else Some (the (cn_result c'), cn_output c', cp'))" if "cn_result c = None"
  using that
  by (subst handle_client.simps) (auto simp: connection_turn_def split: prod.splits sum.splits option.splits)

text \<open>The runs of the service, with the byte streams of the clients it has accepted.\<close>

inductive service_run ::
    "('be, ControlMessagePayload) serializer \<Rightarrow> ('be, ControlMessagePayload) deserializer \<Rightarrow>
     (u8 list \<Rightarrow> u8 list \<Rightarrow> (io_error, unit) result) \<Rightarrow> ('be, 'addr) service \<Rightarrow> u8 list list \<Rightarrow> ('be, 'addr) service \<Rightarrow> bool"
  for ser de write_to s where
  sr_start: "service_run ser de write_to s [] s"
| sr_signal: "service_run ser de write_to s ins s1 \<Longrightarrow> service_run ser de write_to s ins (signal_task s1)"
| sr_top: "service_run ser de write_to s ins s1 \<Longrightarrow> sv_looping s1 \<Longrightarrow> \<not> sv_selecting s1 \<Longrightarrow>
    service_run ser de write_to s ins (loop_top s1)"
| sr_select: "service_run ser de write_to s ins s1 \<Longrightarrow> sv_looping s1 \<Longrightarrow> sv_selecting s1 \<Longrightarrow>
    service_run ser de write_to s (case sel of Accepted input \<Rightarrow> ins @ [input] | _ \<Rightarrow> ins) (select_turn sel s1)"
| sr_client: "service_run ser de write_to s ins s1 \<Longrightarrow> i < length (sv_connections s1) \<Longrightarrow>
    cn_result (sv_connections s1 ! i) = None \<Longrightarrow>
    connection_turn ser de write_to (sv_connections s1 ! i) (sv_control_plane s1) = Some (c, cp) \<Longrightarrow>
    service_run ser de write_to s ins (s1\<lparr>sv_connections := (sv_connections s1)[i := c], sv_control_plane := cp\<rparr>)"

section \<open>Shutdown\<close>

text \<open>
  Once the flag is set the loop accepts at most the connection it is waiting for, and
  none after it has ended.
\<close>

definition may_accept :: "('be, 'addr) service \<Rightarrow> nat" where
  "may_accept s = (if sv_looping s \<and> sv_selecting s then 1 else 0)"

lemma shutdown_accepts:
  assumes "service_run ser de write_to s ins s'" "sv_shutdown_flag s \<or> \<not> sv_looping s"
  shows "(sv_shutdown_flag s' \<or> \<not> sv_looping s') \<and> length ins + may_accept s' \<le> may_accept s"
  using assms
proof (induction rule: service_run.induct)
  case (sr_select ins s1 sel)
  then show ?case
    by (cases sel) (auto simp: may_accept_def)
qed (auto simp: signal_task_def loop_top_def may_accept_def)

section \<open>Serial order\<close>

text \<open>A log of served requests: the connection, the request and the response.\<close>

type_synonym served = "(nat \<times> ControlMessagePayload \<times> ControlMessagePayload) list"

definition requests_of :: "nat \<Rightarrow> served \<Rightarrow> ControlMessagePayload list" where
  "requests_of i lg = map (fst \<circ> snd) (filter (\<lambda>x. fst x = i) lg)"

definition responses_of :: "nat \<Rightarrow> served \<Rightarrow> ControlMessagePayload list" where
  "responses_of i lg = map (snd \<circ> snd) (filter (\<lambda>x. fst x = i) lg)"

definition serial :: "'addr cp \<Rightarrow> served \<Rightarrow> 'addr cp \<Rightarrow> bool" where
  "serial cp lg cp' \<longleftrightarrow> process_all (map (fst \<circ> snd) lg) cp = Some (map (snd \<circ> snd) lg, cp')"

lemma log_snoc [simp]:
  "requests_of i (lg @ [(j, m, r)]) = requests_of i lg @ (if i = j then [m] else [])"
  "responses_of i (lg @ [(j, m, r)]) = responses_of i lg @ (if i = j then [r] else [])"
  by (simp_all add: requests_of_def responses_of_def)

lemma process_all_snoc:
  "process_all ms cp = Some (rs, cp1) \<Longrightarrow> process_control_payload m cp1 = Some (r, cp2) \<Longrightarrow>
   process_all (ms @ [m]) cp = Some (rs @ [r], cp2)"
  by (induction ms arbitrary: cp rs) (auto split: option.splits)

lemma serial_snoc:
  "serial cp lg cp1 \<Longrightarrow> process_control_payload m cp1 = Some (r, cp2) \<Longrightarrow> serial cp (lg @ [(i, m, r)]) cp2"
  by (simp add: serial_def process_all_snoc)

definition sendable :: "('be, ControlMessagePayload) serializer \<Rightarrow> ControlMessagePayload list \<Rightarrow> bool" where
  "sendable ser ms \<longleftrightarrow> (\<forall>m \<in> set ms. \<exists>bs. ser m = Ok bs \<and> length bs \<le> MAX_FRAME_SIZE)"

lemma requests_snoc:
  "requests ser (rs @ [r]) = requests ser rs @ (case ser r of Inl _ \<Rightarrow> [] | Inr bs \<Rightarrow> frame_bytes 0 bs)"
proof -
  have "encode_seq ser c (rs @ [r]) dst = (fst (encode_seq ser c rs dst) @ [fst (encode ser c r (snd (encode_seq ser c rs dst)))],
      snd (encode ser c r (snd (encode_seq ser c rs dst))))" for c dst
    unfolding encode_seq_def by (induction rs arbitrary: dst) (auto simp: split_beta)
  then show ?thesis
    by (simp add: requests_def encode_def serialize_payload_def split: sum.splits)
qed

text \<open>
  How far a connection has come with the requests \<open>ms\<close> of its client: it has served a
  prefix of them, still has the rest to read, and has sent the responses that can be
  serialized.
\<close>

definition conn_inv ::
    "('be, ControlMessagePayload) serializer \<Rightarrow> served \<Rightarrow> nat \<Rightarrow> ControlMessagePayload list \<Rightarrow> 'be connection \<Rightarrow> bool" where
  "conn_inv ser lg i ms c \<longleftrightarrow>
    (\<exists>k. requests_of i lg = take k ms \<and> cn_input c = requests ser (drop k ms) \<and>
       cn_output c = requests ser (responses_of i lg) \<and>
       (cn_result c = Some (Ok ()) \<longrightarrow> drop k ms = []) \<and>
       (\<forall>e. cn_result c = Some (Err e) \<longrightarrow> (\<exists>r \<in> set (responses_of i lg). \<forall>bs. ser r \<noteq> Ok bs)))"

lemma conn_inv_other: "j \<noteq> i \<Longrightarrow> conn_inv ser (lg @ [(j, m, r)]) i ms c = conn_inv ser lg i ms c"
  by (simp add: conn_inv_def)

lemma conn_inv_turn:
  assumes "\<forall>m bs. ser m = Ok bs \<longrightarrow> de bs = Ok m" "\<forall>out bs. write_to out bs = Ok ()" "sendable ser ms"
    and "conn_inv ser lg i ms c" "cn_result c = None" "connection_turn ser de write_to c cp = Some (c', cp')"
  shows "cp' = cp \<and> conn_inv ser lg i ms c' \<or>
    (\<exists>m r. process_control_payload m cp = Some (r, cp') \<and> conn_inv ser (lg @ [(i, m, r)]) i ms c')"
proof -
  obtain k where k: "requests_of i lg = take k ms" "cn_input c = requests ser (drop k ms)"
    "cn_output c = requests ser (responses_of i lg)"
    using assms(4) by (auto simp: conn_inv_def)
  show ?thesis
  proof (cases "drop k ms")
    case Nil
    then have "cn_input c = []"
      by (simp add: k(2) requests_def encode_seq_def)
    with assms(6) have "c' = c\<lparr>cn_result := Some (Ok ())\<rparr>" "cp' = cp"
      by (simp_all add: connection_turn_def recv_eof)
    with k Nil have "conn_inv ser lg i ms c'"
      unfolding conn_inv_def by (intro exI [of _ k]) simp
    with \<open>cp' = cp\<close> show ?thesis
      by blast
  next
    case (Cons m rest)
    then have m: "take (Suc k) ms = take k ms @ [m]" "drop (Suc k) ms = rest"
      using Cons_nth_drop_Suc [of k ms] by (cases "k < length ms"; force simp: take_Suc_conv_app_nth)+
    obtain bs where bs: "ser m = Ok bs" "length bs \<le> MAX_FRAME_SIZE"
      using assms(3) Cons by (metis sendable_def in_set_dropD list.set_intros(1))
    have "recv_control_message_tokio de (cn_input c) = (Ok m, requests ser rest)"
      using recv_tokio_frame [OF bs(2), of de "requests ser rest"] assms(1) bs(1) by (simp add: k(2) Cons requests_Cons)
    with assms(2,5,6) obtain r where r: "process_control_payload m cp = Some (r, cp')"
      "cn_input c' = requests ser rest" "cn_output c' = cn_output c @ (case ser r of Inl _ \<Rightarrow> [] | Inr bs \<Rightarrow> frame_bytes 0 bs)"
      "cn_result c' \<noteq> Some (Ok ())" "\<forall>e. cn_result c' = Some (Err e) \<longrightarrow> (\<forall>bs. ser r \<noteq> Ok bs)"
      by (auto simp: connection_turn_def send_control_message_tokio_def split: option.splits sum.splits prod.splits)
    have "conn_inv ser (lg @ [(i, m, r)]) i ms c'"
      unfolding conn_inv_def
      using r(2-5) m k(1,3) by (intro exI [of _ "Suc k"]) (auto simp: requests_snoc)
    with r(1) show ?thesis
      by blast
  qed
qed

text \<open>The whole service: the log explains the control plane and every connection.\<close>

definition serving ::
    "('be, ControlMessagePayload) serializer \<Rightarrow> 'addr cp \<Rightarrow> ControlMessagePayload list list \<Rightarrow> ('be, 'addr) service \<Rightarrow> served \<Rightarrow> bool" where
  "serving ser cp mss s lg \<longleftrightarrow>
    serial cp lg (sv_control_plane s) \<and> (\<forall>x \<in> set lg. fst x < length mss) \<and> length (sv_connections s) = length mss \<and>
    (\<forall>i < length mss. conn_inv ser lg i (mss ! i) (sv_connections s ! i))"

lemma serving_accept:
  assumes "serving ser cp mss s lg"
  shows "serving ser cp (mss @ [ms]) (select_turn (Accepted (requests ser ms)) s) lg"
proof -
  have "requests_of (length mss) lg = []" "responses_of (length mss) lg = []"
    using assms by (auto simp: serving_def requests_of_def responses_of_def filter_empty_conv)
  then have "conn_inv ser lg (length mss) ms (connection_new (requests ser ms))"
    unfolding conn_inv_def by (intro exI [of _ 0]) (simp add: connection_new_def requests_def encode_seq_def)
  with assms show ?thesis
    by (auto simp: serving_def nth_append less_Suc_eq)
qed

lemma serving_client:
  assumes "\<forall>m bs. ser m = Ok bs \<longrightarrow> de bs = Ok m" "\<forall>out bs. write_to out bs = Ok ()" "\<forall>ms \<in> set mss. sendable ser ms"
    and "serving ser cp0 mss s lg" "i < length (sv_connections s)" "cn_result (sv_connections s ! i) = None"
    and "connection_turn ser de write_to (sv_connections s ! i) (sv_control_plane s) = Some (c, cp)"
  shows "\<exists>lg'. serving ser cp0 mss (s\<lparr>sv_connections := (sv_connections s)[i := c], sv_control_plane := cp\<rparr>) lg'"
proof -
  have i: "i < length mss" "sendable ser (mss ! i)" "conn_inv ser lg i (mss ! i) (sv_connections s ! i)"
    using assms(3-5) by (auto simp: serving_def)
  from conn_inv_turn [OF assms(1,2) i(2,3) assms(6,7)] show ?thesis
  proof (elim disjE conjE exE)
    assume "cp = sv_control_plane s" "conn_inv ser lg i (mss ! i) c"
    with assms(4) i(1) show ?thesis
      by (intro exI [of _ lg]) (auto simp: serving_def nth_list_update)
  next
    fix m r
    assume "process_control_payload m (sv_control_plane s) = Some (r, cp)" "conn_inv ser (lg @ [(i, m, r)]) i (mss ! i) c"
    with assms(4) i(1) show ?thesis
      by (intro exI [of _ "lg @ [(i, m, r)]"]) (auto simp: serving_def nth_list_update serial_snoc conn_inv_other)
  qed
qed

lemma serving_cong [simp]:
  "serving ser cp mss (signal_task s) = serving ser cp mss s" "serving ser cp mss (loop_top s) = serving ser cp mss s"
  "serving ser cp mss (select_turn CtrlC s) = serving ser cp mss s"
  "serving ser cp mss (select_turn AcceptError s) = serving ser cp mss s"
  by (simp_all add: fun_eq_iff serving_def signal_task_def loop_top_def)

lemma service_run_serving:
  assumes "service_run ser de write_to s ins s'" "sv_connections s = []"
    and "\<forall>m bs. ser m = Ok bs \<longrightarrow> de bs = Ok m" "\<forall>out bs. write_to out bs = Ok ()"
    and "ins = map (requests ser) mss" "\<forall>ms \<in> set mss. sendable ser ms"
  shows "\<exists>lg. serving ser (sv_control_plane s) mss s' lg"
  using assms(1,5,6)
proof (induction arbitrary: mss rule: service_run.induct)
  case sr_start
  with assms(2) show ?case
    by (intro exI [of _ "[]"]) (simp add: serving_def serial_def)
next
  case (sr_select ins s1 sel)
  show ?case
  proof (cases sel)
    case (Accepted input)
    then obtain mss' ms where mss: "mss = mss' @ [ms]" "input = requests ser ms" "ins = map (requests ser) mss'"
      using sr_select.prems(1) by (cases mss rule: rev_cases) auto
    with sr_select.IH [OF mss(3)] sr_select.prems(2) Accepted show ?thesis
      by (auto intro: serving_accept simp del: select_turn.simps)
  qed (use sr_select in \<open>auto simp del: select_turn.simps\<close>)
next
  case (sr_client ins s1 i c cp)
  then show ?case
    using serving_client [OF assms(3,4)] by blast
qed auto


definition sample_clients :: "ControlMessagePayload list list" where
  "sample_clients = [[LockAcquire 5 0 0], [LockAcquire 6 0 0]]"

lemma sample_sendable: "\<forall>ms \<in> set sample_clients. sendable sample_ser ms"
  by (simp add: sample_clients_def sendable_def sample_ser_def MAX_FRAME_SIZE_def)

text \<open>Two clients, of which the second has been served.\<close>

lemma sample_service_run:
  "\<exists>s s'. open_control_socket \<lparr>so_parent_missing = True, so_create_dir_all = Ok (), so_bind = Ok ()\<rparr>
      (ControlPlane_new (NodeId 1) :: unit cp) = Ok s \<and>
     service_run sample_ser sample_de (\<lambda>_ _. Ok ()) s (map (requests sample_ser) sample_clients) s' \<and>
     cp_holder (sv_control_plane s') 6 = Some 0"
proof -
  let ?w = "\<lambda>_ _. Ok ()" and ?cp = "ControlPlane_new (NodeId 1) :: unit cp"
  let ?a = "requests sample_ser [LockAcquire 5 0 0]" and ?b = "requests sample_ser [LockAcquire 6 0 0]"
  define s :: "(unit, unit) service" where
    "s = \<lparr>sv_control_plane = ?cp, sv_connections = [], sv_shutdown_flag = False, sv_looping = True, sv_selecting = False\<rparr>"
  define s1 where "s1 = select_turn (Accepted ?a) (loop_top s)"
  define s2 where "s2 = select_turn (Accepted ?b) (loop_top s1)"
  have "service_run sample_ser sample_de ?w s [?a] s1"
    using sr_select [OF sr_top [OF sr_start], of s sample_ser sample_de ?w "Accepted ?a"] by (simp add: s1_def loop_top_def s_def)
  from sr_select [OF sr_top [OF this], of "Accepted ?b"] have 2: "service_run sample_ser sample_de ?w s [?a, ?b] s2"
    by (simp add: s2_def s1_def loop_top_def s_def)
  have "recv_control_message_tokio sample_de ?b = (Ok (LockAcquire 6 0 0), [])"
    using recv_tokio_frame [of "0 # to_be_bytes 6" sample_de "[]"] sample_ser_inverse [rule_format, of "LockAcquire 6 0 0" "0 # to_be_bytes 6"]
    by (simp add: requests_def encode_seq_def encode_def serialize_payload_def sample_ser_def MAX_FRAME_SIZE_def)
  then have "\<exists>c cp. connection_turn sample_ser sample_de ?w (connection_new ?b) ?cp = Some (c, cp) \<and> cp_holder cp 6 = Some 0"
    by (auto simp: connection_turn_def connection_new_def acquire_lock_def lock_entry_def ControlPlane_new_def ack_of_def
        cp_holder_def Let_def send_control_message_tokio_def sample_ser_def)
  then obtain c cp where c: "connection_turn sample_ser sample_de ?w (sv_connections s2 ! 1) (sv_control_plane s2) = Some (c, cp)"
    "cp_holder cp 6 = Some 0"
    by (auto simp: s2_def s1_def loop_top_def s_def)
  have "1 < length (sv_connections s2)" "cn_result (sv_connections s2 ! 1) = None"
    by (simp_all add: s2_def s1_def loop_top_def s_def connection_new_def)
  from sr_client [OF 2 this c(1)] have "service_run sample_ser sample_de ?w s (map (requests sample_ser) sample_clients)
      (s2\<lparr>sv_connections := (sv_connections s2)[1 := c], sv_control_plane := cp\<rparr>)"
    by (simp add: sample_clients_def)
  moreover have "open_control_socket \<lparr>so_parent_missing = True, so_create_dir_all = Ok (), so_bind = Ok ()\<rparr> ?cp = Ok s"
    by (simp add: open_control_socket_def s_def)
  ultimately show ?thesis
    using c(2) by fastforce
qed


end
