(* ===== verification/Uffd_Batch.thy ===== *)
theory Uffd_Batch
  imports Prefetch
begin

text \<open>
  The endless loop of the batch processor, from \<open>src/klnk/klnk-daemon/src/uffd_batch.rs\<close>, and
  how it works off the events queued in the fault descriptor.  One turn of the loop is one
  batch of \<open>Prefetch\<close> and the pause after it.
\<close>

record 'addr UffdBatchProcessor =
  bp_handler :: "'addr UffdHandler"
  bp_config :: UffdBatchConfig
  bp_stats :: BatchStats

definition BatchProcessor_new :: "'addr UffdHandler \<Rightarrow> UffdBatchConfig \<Rightarrow> 'addr UffdBatchProcessor" where
  "BatchProcessor_new h config = \<lparr>bp_handler = h, bp_config = config, bp_stats = BatchStats_default\<rparr>"

text \<open>One turn; the answer is the outcome of the batch and the pause in milliseconds, if there is one.\<close>

definition run_loop_turn ::
    "(nat \<Rightarrow> ('addr, 'rma) poll_input) \<Rightarrow> u64 \<Rightarrow> 'addr UffdBatchProcessor \<Rightarrow>
     (('rma UffdHandlerError, nat) result \<times> u64 option) \<times> 'addr UffdBatchProcessor" where
  "run_loop_turn polls elapsed_ms b =
    (let (r, stats, h) = process_batch (bp_config b) polls elapsed_ms (bp_stats b, bp_handler b);
         idle = bc_idle_sleep_ms (bp_config b);
         pause = (case r of Inr count \<Rightarrow> if count = 0 then Some idle else None | Inl e \<Rightarrow> Some (idle * 10))
     in ((r, pause), b\<lparr>bp_stats := stats, bp_handler := h\<rparr>))"

section \<open>Working off a queue of events\<close>

text \<open>The polls of a descriptor in which \<open>events\<close> are queued, each with the environment of its handler.\<close>

definition queued :: "('addr, 'rma) fault_env \<Rightarrow> (UffdEvent \<times> ('addr, 'rma) fault_env) list \<Rightarrow> nat \<Rightarrow> ('addr, 'rma) poll_input" where
  "queued env events i = (if i < length events then (Ok True, Ok (Some (fst (events ! i))), snd (events ! i)) else (Ok False, Ok None, env))"

definition handle_event :: "UffdEvent \<times> ('addr, 'rma) fault_env \<Rightarrow> 'addr UffdHandler \<Rightarrow> 'addr UffdHandler" where
  "handle_event = (\<lambda>(event, env) h. snd (poll_and_handle (Ok True) (Ok (Some event)) env h))"

lemma handle_event_answer:
  "poll_and_handle (Ok True) (Ok (Some event)) env h = (Ok True, handle_event (event, env) h)"
  by (auto simp: handle_event_def poll_and_handle_def split: UffdEvent.splits prod.splits sum.splits)

lemma batch_loop_queued:
  assumes "p \<le> length events"
  shows "batch_loop left p (queued env events) h =
    (Ok (p + min left (length events - p)), fold handle_event (take left (drop p events)) h)"
  using assms
proof (induction left arbitrary: p h)
  case (Suc left)
  show ?case
  proof (cases "p < length events")
    case True
    then have "batch_loop (Suc left) p (queued env events) h = batch_loop left (Suc p) (queued env events) (handle_event (events ! p) h)"
      by (simp add: queued_def handle_event_answer)
    also have "\<dots> = (Ok (Suc p + min left (length events - Suc p)), fold handle_event (take left (drop (Suc p) events)) (handle_event (events ! p) h))"
      using Suc.IH True by simp
    finally show ?thesis
      using True by (simp add: Cons_nth_drop_Suc [symmetric] min_def del: batch_loop.simps) linarith
  next
    case False
    with Suc.prems show ?thesis
      by (simp add: queued_def poll_and_handle_def)
  qed
qed simp

text \<open>\<open>n\<close> turns over a queue; each takes the events of its batch out of it.\<close>

fun run_turns ::
    "nat \<Rightarrow> ('addr, 'rma) fault_env \<Rightarrow> (nat \<Rightarrow> u64) \<Rightarrow>
     (UffdEvent \<times> ('addr, 'rma) fault_env) list \<times> 'addr UffdBatchProcessor \<Rightarrow>
     (UffdEvent \<times> ('addr, 'rma) fault_env) list \<times> 'addr UffdBatchProcessor" where
  "run_turns 0 env elapsed s = s"
| "run_turns (Suc n) env elapsed (events, b) =
    (case run_loop_turn (queued env events) (elapsed n) b of
       ((Inr count, _), b1) \<Rightarrow> run_turns n env elapsed (drop count events, b1)
     | ((Inl e, _), b1) \<Rightarrow> (events, b1))"

lemma run_loop_turn_queued:
  "run_loop_turn (queued env events) t b =
    ((Ok (min (bc_max_batch_size (bp_config b)) (length events)),
      if bc_max_batch_size (bp_config b) = 0 \<or> events = [] then Some (bc_idle_sleep_ms (bp_config b)) else None),
     b\<lparr>bp_stats := record_batch (min (bc_max_batch_size (bp_config b)) (length events)) t (bp_stats b),
       bp_handler := fold handle_event (take (bc_max_batch_size (bp_config b)) events) (bp_handler b)\<rparr>)"
  by (auto simp: run_loop_turn_def process_batch_def batch_loop_queued min_def Let_def)

lemma run_turns_drain:
  assumes "length events \<le> n * bc_max_batch_size (bp_config b)"
  shows "\<exists>b'. run_turns n env elapsed (events, b) = ([], b') \<and> bp_config b' = bp_config b \<and>
    bp_handler b' = fold handle_event events (bp_handler b) \<and>
    bs_total_faults_processed (bp_stats b') = bs_total_faults_processed (bp_stats b) + of_nat (length events) \<and>
    bs_total_batches (bp_stats b') = bs_total_batches (bp_stats b) + of_nat n"
  using assms
proof (induction n arbitrary: events b)
  case (Suc n)
  let ?m = "bc_max_batch_size (bp_config b)" and ?q = "drop (min (bc_max_batch_size (bp_config b)) (length events)) events"
  let ?b = "b\<lparr>bp_stats := record_batch (min ?m (length events)) (elapsed n) (bp_stats b),
       bp_handler := fold handle_event (take ?m events) (bp_handler b)\<rparr>"
  have "length ?q \<le> n * bc_max_batch_size (bp_config ?b)"
    using Suc.prems by (auto simp: min_def)
  from Suc.IH [OF this] obtain b' where b': "run_turns n env elapsed (?q, ?b) = ([], b')" "bp_config b' = bp_config ?b"
    "bp_handler b' = fold handle_event ?q (bp_handler ?b)"
    "bs_total_faults_processed (bp_stats b') = bs_total_faults_processed (bp_stats ?b) + of_nat (length ?q)"
    "bs_total_batches (bp_stats b') = bs_total_batches (bp_stats ?b) + of_nat n"
    by blast
  have "fold handle_event ?q (fold handle_event (take ?m events) (bp_handler b)) = fold handle_event events (bp_handler b)"
    by (subst (3) append_take_drop_id [of ?m events, symmetric], subst fold_append) (simp add: min_def)
  moreover have "(of_nat (min ?m (length events)) + of_nat (length ?q) :: u64) = of_nat (length events)"
    by (simp add: min_def flip: of_nat_add)
  ultimately show ?case
    using b' by (simp add: run_loop_turn_queued record_batch_def Let_def algebra_simps)
qed simp

end
