(* ===== verification/Socket_Provider.thy ===== *)
theory Socket_Provider
  imports Control_Transport
begin

text \<open>
  The TCP fallback transport, from \<open>src/klnk/librmashim/src/socket_provider.rs\<close>: binding,
  connecting and accepting with their errors, raw sends and the length-prefixed messages.
  Address parsing, the operating system's answers and the texts of its errors are
  parameters; a stream is the list of bytes still to be read or already written.
\<close>

section \<open>The transport\<close>

datatype 'addr SocketProviderError =
    TransportFailure string
  | BindError string string
  | ConnectError 'addr string
  | BufferOverflow
  | SocketIoError string

record 'l SocketTransportFallback =
  sf_bind_addr :: string
  sf_listener :: "'l option"

definition SocketFallback_new :: "'l SocketTransportFallback" where
  "SocketFallback_new = \<lparr>sf_bind_addr = ''127.0.0.1:0'', sf_listener = None\<rparr>"

definition with_address :: "string \<Rightarrow> 'l SocketTransportFallback" where
  "with_address bind_addr = \<lparr>sf_bind_addr = bind_addr, sf_listener = None\<rparr>"

definition socket_bind ::
    "(string \<Rightarrow> (string, 'addr) result) \<Rightarrow> ('addr \<Rightarrow> (string, 'l) result) \<Rightarrow> ('l \<Rightarrow> (string, 'addr) result) \<Rightarrow> ('addr \<Rightarrow> string) \<Rightarrow>
     'l SocketTransportFallback \<Rightarrow> ('addr SocketProviderError, unit) result \<times> 'l SocketTransportFallback" where
  "socket_bind parse os_bind local_addr show_addr t =
    (if sf_listener t \<noteq> None then (Ok (), t)
     else case parse (sf_bind_addr t) of
            Inl e \<Rightarrow> (Err (BindError (sf_bind_addr t) (''Failed to parse address: '' @ e)), t)
          | Inr addr \<Rightarrow>
              case os_bind addr of
                Inl e \<Rightarrow> (Err (BindError (sf_bind_addr t) e), t)
              | Inr listener \<Rightarrow>
                  case local_addr listener of
                    Inl e \<Rightarrow> (Err (SocketIoError e), t)
                  | Inr bound \<Rightarrow> (Ok (), t\<lparr>sf_bind_addr := show_addr bound, sf_listener := Some listener\<rparr>))"

definition bound_address ::
    "(string \<Rightarrow> (string, 'addr) result) \<Rightarrow> ('l \<Rightarrow> (string, 'addr) result) \<Rightarrow> 'l SocketTransportFallback \<Rightarrow>
     ('addr SocketProviderError, 'addr) result" where
  "bound_address parse local_addr t =
    (case sf_listener t of
       Some listener \<Rightarrow> (case local_addr listener of Inl e \<Rightarrow> Err (SocketIoError e) | Inr a \<Rightarrow> Ok a)
     | None \<Rightarrow>
         (case parse (sf_bind_addr t) of
            Inl e \<Rightarrow> Err (BindError (sf_bind_addr t) (''Not bound and address invalid: '' @ e))
          | Inr a \<Rightarrow> Ok a))"

definition socket_connect ::
    "('addr \<Rightarrow> (string, 's) result) \<Rightarrow> 'addr \<Rightarrow> ('addr SocketProviderError, 's) result" where
  "socket_connect os_connect peer =
    (case os_connect peer of Inl e \<Rightarrow> Err (ConnectError peer e) | Inr s \<Rightarrow> Ok s)"

definition socket_accept ::
    "('l \<Rightarrow> (string, 's \<times> 'addr) result) \<Rightarrow> 'l SocketTransportFallback \<Rightarrow> ('addr SocketProviderError, 's \<times> 'addr) result" where
  "socket_accept os_accept t =
    (case sf_listener t of
       None \<Rightarrow> Err (TransportFailure ''Cannot accept: listener not bound'')
     | Some listener \<Rightarrow>
         (case os_accept listener of Inl e \<Rightarrow> Err (TransportFailure (''Accept failed: '' @ e)) | Inr x \<Rightarrow> Ok x))"

text \<open>Sending: the second component is what the peer receives.\<close>

definition socket_send ::
    "(u8 list \<Rightarrow> (string, unit) result) \<Rightarrow> (string, unit) result \<Rightarrow> u8 list \<Rightarrow>
     ('addr SocketProviderError, nat) result \<times> u8 list" where
  "socket_send write_all flush buffer =
    (if buffer = [] then (Ok 0, [])
     else case write_all buffer of
            Inl e \<Rightarrow> (Err (TransportFailure e), [])
          | Inr _ \<Rightarrow> (case flush of Inl e \<Rightarrow> (Err (TransportFailure e), buffer) | Inr _ \<Rightarrow> (Ok (length buffer), buffer)))"

definition send_message ::
    "(u8 list \<Rightarrow> (string, unit) result) \<Rightarrow> (string, unit) result \<Rightarrow> u8 list \<Rightarrow>
     ('addr SocketProviderError, unit) result \<times> u8 list" where
  "send_message write_all flush payload =
    (let header = to_be_bytes (of_nat (length payload))
     in case write_all header of
          Inl e \<Rightarrow> (Err (TransportFailure e), [])
        | Inr _ \<Rightarrow>
            case write_all payload of
              Inl e \<Rightarrow> (Err (TransportFailure e), header)
            | Inr _ \<Rightarrow>
                (case flush of
                   Inl e \<Rightarrow> (Err (TransportFailure e), header @ payload)
                 | Inr _ \<Rightarrow> (Ok (), header @ payload)))"

text \<open>A raw receive: the kernel hands over some of the pending bytes, at most the capacity of the buffer, of which the rest is kept.\<close>

definition socket_recv ::
    "(nat \<Rightarrow> (string, u8 list) result) \<Rightarrow> u8 list \<Rightarrow> ('addr SocketProviderError, nat) result \<times> u8 list" where
  "socket_recv os_read buffer =
    (case os_read (length buffer) of
       Inl e \<Rightarrow> (Err (TransportFailure e), buffer)
     | Inr bs \<Rightarrow> (Ok (length bs), bs @ drop (length bs) buffer))"

definition recv_message ::
    "(io_error \<Rightarrow> string) \<Rightarrow> u8 list \<Rightarrow> ('addr SocketProviderError, u8 list) result \<times> u8 list" where
  "recv_message show_io input =
    (case read_exact 4 input of
       (Inl e, input1) \<Rightarrow> (Err (TransportFailure (show_io e)), input1)
     | (Inr header, input1) \<Rightarrow>
         case read_exact (unat (from_be_bytes header)) input1 of
           (Inl e, input2) \<Rightarrow> (Err (TransportFailure (show_io e)), input2)
         | (Inr payload, input2) \<Rightarrow> (Ok payload, input2))"

section \<open>Lemmas\<close>

lemma bind_idempotent:
  assumes "socket_bind parse os_bind local_addr show_addr t = (Ok (), t1)"
  shows "socket_bind parse os_bind local_addr show_addr t1 = (Ok (), t1)"
  using assms by (auto simp: socket_bind_def split: if_splits sum.splits)

text \<open>A raw receive never grows the buffer: it holds the bytes read followed by what it held before.\<close>

lemma recv_within_buffer:
  assumes "\<And>n bs. os_read n = Ok bs \<Longrightarrow> length bs \<le> n"
  shows "length (snd (socket_recv os_read buffer)) = length buffer"
  using assms by (auto simp: socket_recv_def split: sum.splits)

text \<open>Messages below four gigabytes are received as they were sent, one after the other.\<close>

lemma message_roundtrip:
  assumes "length payload < 2 ^ 32" "send_message wr fl payload = (Ok (), sent)"
  shows "recv_message show_io (sent @ rest) = (Ok payload, rest)"
proof -
  have "sent = to_be_bytes (of_nat (length payload)) @ payload"
    using assms(2) by (auto simp: send_message_def Let_def split: sum.splits)
  moreover have "unat (of_nat (length payload) :: u32) = length payload"
    using assms(1) by (simp add: unat_of_nat)
  ultimately show ?thesis
    by (simp add: recv_message_def read_exact_def)
qed

text \<open>
  A payload of exactly four gigabytes is announced with length zero: the receiver returns
  an empty message and takes the payload for the next headers.
\<close>

lemma message_length_truncates:
  assumes "length payload = 2 ^ 32" "send_message wr fl payload = (Ok (), sent)"
  shows "recv_message show_io sent = (Ok [], payload)"
proof -
  have "to_be_bytes 4294967296 = to_be_bytes 0"
    by (rule arg_cong [where f = to_be_bytes]) code_simp
  then have "sent = to_be_bytes 0 @ payload"
    using assms by (auto simp: send_message_def Let_def split: sum.splits)
  then show ?thesis
    by (simp add: recv_message_def read_exact_def)
qed

end
