(* ===== verification/Connectors.thy ===== *)
theory Connectors
  imports Configuration Kv_Block Tier_Manager Rma
begin

text \<open>
  The connectors of the inference engines, from \<open>src/connectors/vllm/src/lib.rs\<close>,
  \<open>src/connectors/sglang/src/lib.rs\<close> and \<open>src/connectors/lmcache/src/lib.rs\<close>: blocks,
  prefixes and chunks registered with the transport engine, with their precision policies
  and sidecar descriptors.  Where the code walks a hash map, the order of the keys is an
  argument.  The listening address of a connector always parses, so creating one has no
  error branch.
\<close>

section \<open>Shared parts\<close>

definition gpu_opt :: "VirthubConfig \<Rightarrow> u32 \<Rightarrow> u32 option" where
  "gpu_opt c gpu_device_id = (if rdc_enable_gdr (trc_rdma (vc_transport c)) then Some gpu_device_id else None)"

definition connector_engine :: "string option \<Rightarrow> VirthubConfig \<Rightarrow> 'addr RmaTransportEngine" where
  "connector_engine detected c = auto_detect (Some (rdc_device_name (trc_rdma (vc_transport c)))) detected"

text \<open>An optional insertion into a map.\<close>

fun insert_opt :: "'k \<Rightarrow> 'v option \<Rightarrow> ('k \<rightharpoonup> 'v) \<Rightarrow> ('k \<rightharpoonup> 'v)" where
  "insert_opt k None m = m"
| "insert_opt k (Some v) m = m(k \<mapsto> v)"

section \<open>vLLM\<close>

datatype VllmConnectorError =
    VllmConfigError string
  | VllmRmaEngineFailed RmaError
  | VllmTransportFailed string
  | BlockNotFound u64
  | RkeyNotFound u32
  | VllmIoError string

record VllmBlockMeta =
  vm_block_id :: u64
  vm_vaddr :: u64
  vm_size_bytes :: u64
  vm_gpu_device_id :: u32
  vm_rkey :: u32
  vm_lkey :: u32
  vm_precision_policy :: "PackedBlockPolicy option"
  vm_sidecar :: "PspKvSidecarDescriptor option"

record 'addr VirthubVllmConnector =
  vl_config :: VirthubConfig
  vl_rma_engine :: "'addr RmaTransportEngine"
  vl_registered_blocks :: "u64 \<rightharpoonup> RegisteredRegion"
  vl_block_policies :: "u64 \<rightharpoonup> PackedBlockPolicy"
  vl_block_sidecars :: "u64 \<rightharpoonup> PspKvSidecarDescriptor"

definition VllmConnector_new :: "string option \<Rightarrow> VirthubConfig \<Rightarrow> 'addr VirthubVllmConnector" where
  "VllmConnector_new detected c =
    \<lparr>vl_config = c, vl_rma_engine = connector_engine detected c, vl_registered_blocks = Map.empty,
     vl_block_policies = Map.empty, vl_block_sidecars = Map.empty\<rparr>"

definition register_kv_block_with_policy ::
    "u64 \<Rightarrow> u64 \<Rightarrow> u64 \<Rightarrow> u32 \<Rightarrow> PackedBlockPolicy option \<Rightarrow> PspKvSidecarDescriptor option \<Rightarrow> 'addr VirthubVllmConnector \<Rightarrow>
     (VllmConnectorError, VllmBlockMeta) result \<times> 'addr VirthubVllmConnector" where
  "register_kv_block_with_policy bid vaddr size_bytes gpu_device_id precision_policy sidecar c =
    (case register_memory_region vaddr size_bytes (gpu_opt (vl_config c) gpu_device_id) (vl_rma_engine c) of
       (Inl e, en) \<Rightarrow> (Err (VllmRmaEngineFailed e), c\<lparr>vl_rma_engine := en\<rparr>)
     | (Inr region, en) \<Rightarrow>
         (Ok \<lparr>vm_block_id = bid, vm_vaddr = rg_vaddr region, vm_size_bytes = rg_length region,
              vm_gpu_device_id = gpu_device_id, vm_rkey = rg_rkey region, vm_lkey = rg_lkey region,
              vm_precision_policy = precision_policy, vm_sidecar = sidecar\<rparr>,
          c\<lparr>vl_rma_engine := en, vl_registered_blocks := (vl_registered_blocks c)(bid \<mapsto> region),
            vl_block_policies := insert_opt bid precision_policy (vl_block_policies c),
            vl_block_sidecars := insert_opt bid sidecar (vl_block_sidecars c)\<rparr>))"

definition register_kv_block ::
    "u64 \<Rightarrow> u64 \<Rightarrow> u64 \<Rightarrow> u32 \<Rightarrow> 'addr VirthubVllmConnector \<Rightarrow>
     (VllmConnectorError, VllmBlockMeta) result \<times> 'addr VirthubVllmConnector" where
  "register_kv_block bid vaddr size_bytes gpu_device_id c =
    register_kv_block_with_policy bid vaddr size_bytes gpu_device_id None None c"

text \<open>Removing a block that is found; an error of the engine returns before the metadata is removed.\<close>

definition remove_block ::
    "u64 \<Rightarrow> RegisteredRegion \<Rightarrow> 'addr VirthubVllmConnector \<Rightarrow> (VllmConnectorError, unit) result \<times> 'addr VirthubVllmConnector" where
  "remove_block bid region c =
    (let c1 = c\<lparr>vl_registered_blocks := (vl_registered_blocks c)(bid := None)\<rparr>
     in case deregister_memory_region (rg_rkey region) (vl_rma_engine c) of
          (Inl e, en) \<Rightarrow> (Err (VllmRmaEngineFailed e), c1\<lparr>vl_rma_engine := en\<rparr>)
        | (Inr _, en) \<Rightarrow>
            (Ok (), c1\<lparr>vl_rma_engine := en, vl_block_policies := (vl_block_policies c)(bid := None),
                       vl_block_sidecars := (vl_block_sidecars c)(bid := None)\<rparr>))"

definition unregister_kv_block ::
    "u64 \<Rightarrow> 'addr VirthubVllmConnector \<Rightarrow> (VllmConnectorError, unit) result \<times> 'addr VirthubVllmConnector" where
  "unregister_kv_block bid c =
    (case vl_registered_blocks c bid of
       Some region \<Rightarrow> remove_block bid region c
     | None \<Rightarrow> (Err (BlockNotFound bid), c))"

definition vllm_deregister_memory_region ::
    "u64 list \<Rightarrow> u32 \<Rightarrow> 'addr VirthubVllmConnector \<Rightarrow> (VllmConnectorError, unit) result \<times> 'addr VirthubVllmConnector" where
  "vllm_deregister_memory_region order rkey c =
    (case find (\<lambda>bid. map_option rg_rkey (vl_registered_blocks c bid) = Some rkey) order of
       Some bid \<Rightarrow> (case vl_registered_blocks c bid of
                      Some region \<Rightarrow> remove_block bid region c
                    | None \<Rightarrow> (Err (RkeyNotFound rkey), c))
     | None \<Rightarrow> (Err (RkeyNotFound rkey), c))"

text \<open>The loop over the drained map stops at the first error; the map is empty afterwards in any case.\<close>

fun deregister_keys :: "u32 list \<Rightarrow> 'addr RmaTransportEngine \<Rightarrow> (RmaError, unit) result \<times> 'addr RmaTransportEngine" where
  "deregister_keys [] en = (Ok (), en)"
| "deregister_keys (k # ks) en =
    (case deregister_memory_region k en of
       (Inl e, en1) \<Rightarrow> (Err e, en1)
     | (Inr _, en1) \<Rightarrow> deregister_keys ks en1)"

definition vllm_close ::
    "u64 list \<Rightarrow> 'addr VirthubVllmConnector \<Rightarrow> (VllmConnectorError, unit) result \<times> 'addr VirthubVllmConnector" where
  "vllm_close order c =
    (let ks = List.map_filter (\<lambda>bid. map_option rg_rkey (vl_registered_blocks c bid)) order;
         c1 = c\<lparr>vl_registered_blocks := Map.empty\<rparr>
     in case deregister_keys ks (vl_rma_engine c) of
          (Inl e, en) \<Rightarrow> (Err (VllmRmaEngineFailed e), c1\<lparr>vl_rma_engine := en\<rparr>)
        | (Inr _, en) \<Rightarrow>
            (Ok (), c1\<lparr>vl_rma_engine := en, vl_block_policies := Map.empty, vl_block_sidecars := Map.empty\<rparr>))"

definition swap_in_remote_block ::
    "'addr \<Rightarrow> u64 \<Rightarrow> u32 \<Rightarrow> u64 \<Rightarrow> nat \<Rightarrow> 'addr VirthubVllmConnector \<Rightarrow>
     (VllmConnectorError, unit) result \<times> 'addr VirthubVllmConnector" where
  "swap_in_remote_block peer_addr remote_vaddr remote_rkey local_vaddr size_bytes c =
    (case rdma_read peer_addr remote_vaddr remote_rkey local_vaddr size_bytes (vl_rma_engine c) of
       (Inl e, en) \<Rightarrow> (Err (VllmRmaEngineFailed e), c\<lparr>vl_rma_engine := en\<rparr>)
     | (Inr _, en) \<Rightarrow> (Ok (), c\<lparr>vl_rma_engine := en\<rparr>))"

definition registered_block_count :: "'addr VirthubVllmConnector \<Rightarrow> nat" where
  "registered_block_count c = card (dom (vl_registered_blocks c))"

definition get_block_policy :: "u64 \<Rightarrow> 'addr VirthubVllmConnector \<Rightarrow> PackedBlockPolicy option" where
  "get_block_policy bid c = vl_block_policies c bid"

definition get_block_sidecar :: "u64 \<Rightarrow> 'addr VirthubVllmConnector \<Rightarrow> PspKvSidecarDescriptor option" where
  "get_block_sidecar bid c = vl_block_sidecars c bid"

definition vllm_register_kv_cache ::
    "u64 \<Rightarrow> u64 \<Rightarrow> u32 \<Rightarrow> 'addr VirthubVllmConnector \<Rightarrow>
     (VllmConnectorError, RegisteredRegion) result \<times> 'addr VirthubVllmConnector" where
  "vllm_register_kv_cache vaddr size_bytes gpu_device_id c =
    (case register_memory_region vaddr size_bytes (gpu_opt (vl_config c) gpu_device_id) (vl_rma_engine c) of
       (Inl e, en) \<Rightarrow> (Err (VllmRmaEngineFailed e), c\<lparr>vl_rma_engine := en\<rparr>)
     | (Inr region, en) \<Rightarrow> (Ok region, c\<lparr>vl_rma_engine := en\<rparr>))"

section \<open>SGLang\<close>

datatype SglangConnectorError =
    SglangConfigError string
  | SglangRmaEngineFailed RmaError
  | SglangTransportFailed string
  | PrefixNotFound u64
  | SglangIoError string

record SglangPrefixMeta =
  sm_prefix_hash :: u64
  sm_token_count :: u64
  sm_vaddr :: u64
  sm_size_bytes :: u64
  sm_gpu_device_id :: u32
  sm_rkey :: u32
  sm_lkey :: u32
  sm_precision_policy :: "PackedBlockPolicy option"
  sm_sidecar :: "PspKvSidecarDescriptor option"

record 'addr VirthubSglangConnector =
  sg_config :: VirthubConfig
  sg_rma_engine :: "'addr RmaTransportEngine"
  sg_registered_prefixes :: "u64 \<rightharpoonup> RegisteredRegion"
  sg_prefix_policies :: "u64 \<rightharpoonup> PackedBlockPolicy"
  sg_prefix_sidecars :: "u64 \<rightharpoonup> PspKvSidecarDescriptor"

definition SglangConnector_new :: "string option \<Rightarrow> VirthubConfig \<Rightarrow> 'addr VirthubSglangConnector" where
  "SglangConnector_new detected c =
    \<lparr>sg_config = c, sg_rma_engine = connector_engine detected c, sg_registered_prefixes = Map.empty,
     sg_prefix_policies = Map.empty, sg_prefix_sidecars = Map.empty\<rparr>"

definition register_prefix_node_with_policy ::
    "u64 \<Rightarrow> u64 \<Rightarrow> u64 \<Rightarrow> u64 \<Rightarrow> u32 \<Rightarrow> PackedBlockPolicy option \<Rightarrow> PspKvSidecarDescriptor option \<Rightarrow>
     'addr VirthubSglangConnector \<Rightarrow> (SglangConnectorError, SglangPrefixMeta) result \<times> 'addr VirthubSglangConnector" where
  "register_prefix_node_with_policy prefix_hash token_count vaddr size_bytes gpu_device_id precision_policy sidecar c =
    (case register_memory_region vaddr size_bytes (gpu_opt (sg_config c) gpu_device_id) (sg_rma_engine c) of
       (Inl e, en) \<Rightarrow> (Err (SglangRmaEngineFailed e), c\<lparr>sg_rma_engine := en\<rparr>)
     | (Inr region, en) \<Rightarrow>
         (Ok \<lparr>sm_prefix_hash = prefix_hash, sm_token_count = token_count, sm_vaddr = rg_vaddr region,
              sm_size_bytes = rg_length region, sm_gpu_device_id = gpu_device_id, sm_rkey = rg_rkey region,
              sm_lkey = rg_lkey region, sm_precision_policy = precision_policy, sm_sidecar = sidecar\<rparr>,
          c\<lparr>sg_rma_engine := en, sg_registered_prefixes := (sg_registered_prefixes c)(prefix_hash \<mapsto> region),
            sg_prefix_policies := insert_opt prefix_hash precision_policy (sg_prefix_policies c),
            sg_prefix_sidecars := insert_opt prefix_hash sidecar (sg_prefix_sidecars c)\<rparr>))"

definition register_prefix_node ::
    "u64 \<Rightarrow> u64 \<Rightarrow> u64 \<Rightarrow> u64 \<Rightarrow> u32 \<Rightarrow> 'addr VirthubSglangConnector \<Rightarrow>
     (SglangConnectorError, SglangPrefixMeta) result \<times> 'addr VirthubSglangConnector" where
  "register_prefix_node prefix_hash token_count vaddr size_bytes gpu_device_id c =
    register_prefix_node_with_policy prefix_hash token_count vaddr size_bytes gpu_device_id None None c"

definition fetch_remote_prefix ::
    "'addr \<Rightarrow> u64 \<Rightarrow> u32 \<Rightarrow> u64 \<Rightarrow> nat \<Rightarrow> 'addr VirthubSglangConnector \<Rightarrow>
     (SglangConnectorError, unit) result \<times> 'addr VirthubSglangConnector" where
  "fetch_remote_prefix peer_addr remote_vaddr remote_rkey local_vaddr size_bytes c =
    (case rdma_read peer_addr remote_vaddr remote_rkey local_vaddr size_bytes (sg_rma_engine c) of
       (Inl e, en) \<Rightarrow> (Err (SglangRmaEngineFailed e), c\<lparr>sg_rma_engine := en\<rparr>)
     | (Inr _, en) \<Rightarrow> (Ok (), c\<lparr>sg_rma_engine := en\<rparr>))"

definition unregister_prefix ::
    "u64 \<Rightarrow> 'addr VirthubSglangConnector \<Rightarrow> (SglangConnectorError, unit) result \<times> 'addr VirthubSglangConnector" where
  "unregister_prefix prefix_hash c =
    (case sg_registered_prefixes c prefix_hash of
       Some region \<Rightarrow>
         let c1 = c\<lparr>sg_registered_prefixes := (sg_registered_prefixes c)(prefix_hash := None)\<rparr>
         in (case deregister_memory_region (rg_rkey region) (sg_rma_engine c) of
               (Inl e, en) \<Rightarrow> (Err (SglangRmaEngineFailed e), c1\<lparr>sg_rma_engine := en\<rparr>)
             | (Inr _, en) \<Rightarrow>
                 (Ok (), c1\<lparr>sg_rma_engine := en, sg_prefix_policies := (sg_prefix_policies c)(prefix_hash := None),
                            sg_prefix_sidecars := (sg_prefix_sidecars c)(prefix_hash := None)\<rparr>))
     | None \<Rightarrow> (Err (PrefixNotFound prefix_hash), c))"

definition registered_prefix_count :: "'addr VirthubSglangConnector \<Rightarrow> nat" where
  "registered_prefix_count c = card (dom (sg_registered_prefixes c))"

definition get_prefix_policy :: "u64 \<Rightarrow> 'addr VirthubSglangConnector \<Rightarrow> PackedBlockPolicy option" where
  "get_prefix_policy prefix_hash c = sg_prefix_policies c prefix_hash"

definition get_prefix_sidecar :: "u64 \<Rightarrow> 'addr VirthubSglangConnector \<Rightarrow> PspKvSidecarDescriptor option" where
  "get_prefix_sidecar prefix_hash c = sg_prefix_sidecars c prefix_hash"

definition sglang_register_kv_cache ::
    "u64 \<Rightarrow> u64 \<Rightarrow> u32 \<Rightarrow> 'addr VirthubSglangConnector \<Rightarrow>
     (SglangConnectorError, RegisteredRegion) result \<times> 'addr VirthubSglangConnector" where
  "sglang_register_kv_cache vaddr size_bytes gpu_device_id c =
    (case register_memory_region vaddr size_bytes (gpu_opt (sg_config c) gpu_device_id) (sg_rma_engine c) of
       (Inl e, en) \<Rightarrow> (Err (SglangRmaEngineFailed e), c\<lparr>sg_rma_engine := en\<rparr>)
     | (Inr region, en) \<Rightarrow> (Ok region, c\<lparr>sg_rma_engine := en\<rparr>))"

section \<open>LMCache\<close>

datatype LmCacheConnectorError =
    LmCacheConfigError string
  | LmCacheRmaEngineFailed RmaError
  | LmCacheTransportFailed string
  | ChunkNotFound KvBlockKey
  | LmCacheIoError string
  | LmCacheSerializationError string

record LmCacheChunkMeta =
  lm_key :: KvBlockKey
  lm_tier :: StorageTier
  lm_vaddr :: u64
  lm_size_bytes :: u64
  lm_gpu_device_id :: u32
  lm_rkey :: u32
  lm_lkey :: u32
  lm_precision_policy :: "PackedBlockPolicy option"
  lm_sidecar :: "PspKvSidecarDescriptor option"

record 'addr VirthubLmCacheConnector =
  lc_config :: VirthubConfig
  lc_rma_engine :: "'addr RmaTransportEngine"
  lc_registered_chunks :: "KvBlockKey \<rightharpoonup> RegisteredRegion"
  lc_chunk_policies :: "KvBlockKey \<rightharpoonup> PackedBlockPolicy"
  lc_chunk_sidecars :: "KvBlockKey \<rightharpoonup> PspKvSidecarDescriptor"
  lc_local_store :: "KvBlockKey \<rightharpoonup> u8 list"

definition LmCacheConnector_new :: "string option \<Rightarrow> VirthubConfig \<Rightarrow> 'addr VirthubLmCacheConnector" where
  "LmCacheConnector_new detected c =
    \<lparr>lc_config = c, lc_rma_engine = connector_engine detected c, lc_registered_chunks = Map.empty,
     lc_chunk_policies = Map.empty, lc_chunk_sidecars = Map.empty, lc_local_store = Map.empty\<rparr>"

definition put_chunk_with_policy ::
    "KvBlockKey \<Rightarrow> StorageTier \<Rightarrow> u32 \<Rightarrow> u8 list \<Rightarrow> u64 \<Rightarrow> u64 \<Rightarrow> PackedBlockPolicy option \<Rightarrow> PspKvSidecarDescriptor option \<Rightarrow>
     'addr VirthubLmCacheConnector \<Rightarrow> (LmCacheConnectorError, LmCacheChunkMeta) result \<times> 'addr VirthubLmCacheConnector" where
  "put_chunk_with_policy key tier gpu_device_id payload vaddr len precision_policy sidecar c =
    (let c1 = c\<lparr>lc_local_store := (lc_local_store c)(key \<mapsto> payload)\<rparr>
     in case register_memory_region vaddr len (gpu_opt (lc_config c) gpu_device_id) (lc_rma_engine c) of
          (Inl e, en) \<Rightarrow> (Err (LmCacheRmaEngineFailed e), c1\<lparr>lc_rma_engine := en\<rparr>)
        | (Inr region, en) \<Rightarrow>
            (Ok \<lparr>lm_key = key, lm_tier = tier, lm_vaddr = rg_vaddr region, lm_size_bytes = rg_length region,
                 lm_gpu_device_id = gpu_device_id, lm_rkey = rg_rkey region, lm_lkey = rg_lkey region,
                 lm_precision_policy = precision_policy, lm_sidecar = sidecar\<rparr>,
             c1\<lparr>lc_rma_engine := en, lc_registered_chunks := (lc_registered_chunks c)(key \<mapsto> region),
                lc_chunk_policies := insert_opt key precision_policy (lc_chunk_policies c),
                lc_chunk_sidecars := insert_opt key sidecar (lc_chunk_sidecars c)\<rparr>))"

definition put_chunk ::
    "KvBlockKey \<Rightarrow> StorageTier \<Rightarrow> u32 \<Rightarrow> u8 list \<Rightarrow> u64 \<Rightarrow> u64 \<Rightarrow> 'addr VirthubLmCacheConnector \<Rightarrow>
     (LmCacheConnectorError, LmCacheChunkMeta) result \<times> 'addr VirthubLmCacheConnector" where
  "put_chunk key tier gpu_device_id payload vaddr len c =
    put_chunk_with_policy key tier gpu_device_id payload vaddr len None None c"

definition get_chunk :: "KvBlockKey \<Rightarrow> 'addr VirthubLmCacheConnector \<Rightarrow> (LmCacheConnectorError, u8 list) result" where
  "get_chunk key c = (case lc_local_store c key of Some p \<Rightarrow> Ok p | None \<Rightarrow> Err (ChunkNotFound key))"

definition remove_chunk ::
    "KvBlockKey \<Rightarrow> 'addr VirthubLmCacheConnector \<Rightarrow> (LmCacheConnectorError, unit) result \<times> 'addr VirthubLmCacheConnector" where
  "remove_chunk key c =
    (let c1 = c\<lparr>lc_local_store := (lc_local_store c)(key := None),
                lc_registered_chunks := (lc_registered_chunks c)(key := None)\<rparr>;
         cleaned = (\<lambda>c. c\<lparr>lc_chunk_policies := (lc_chunk_policies c)(key := None),
                          lc_chunk_sidecars := (lc_chunk_sidecars c)(key := None)\<rparr>)
     in case lc_registered_chunks c key of
          Some region \<Rightarrow>
            (case deregister_memory_region (rg_rkey region) (lc_rma_engine c) of
               (Inl e, en) \<Rightarrow> (Err (LmCacheRmaEngineFailed e), c1\<lparr>lc_rma_engine := en\<rparr>)
             | (Inr _, en) \<Rightarrow> (Ok (), cleaned (c1\<lparr>lc_rma_engine := en\<rparr>)))
        | None \<Rightarrow> (Ok (), cleaned c1))"

definition fetch_remote_chunk ::
    "KvBlockKey \<Rightarrow> 'addr \<Rightarrow> u64 \<Rightarrow> u32 \<Rightarrow> u64 \<Rightarrow> nat \<Rightarrow> 'addr VirthubLmCacheConnector \<Rightarrow>
     (LmCacheConnectorError, unit) result \<times> 'addr VirthubLmCacheConnector" where
  "fetch_remote_chunk key peer_addr remote_vaddr remote_rkey local_vaddr size_bytes c =
    (case rdma_read peer_addr remote_vaddr remote_rkey local_vaddr size_bytes (lc_rma_engine c) of
       (Inl e, en) \<Rightarrow> (Err (LmCacheRmaEngineFailed e), c\<lparr>lc_rma_engine := en\<rparr>)
     | (Inr _, en) \<Rightarrow> (Ok (), c\<lparr>lc_rma_engine := en\<rparr>))"

definition registered_chunk_count :: "'addr VirthubLmCacheConnector \<Rightarrow> nat" where
  "registered_chunk_count c = card (dom (lc_registered_chunks c))"

definition get_chunk_policy :: "KvBlockKey \<Rightarrow> 'addr VirthubLmCacheConnector \<Rightarrow> PackedBlockPolicy option" where
  "get_chunk_policy key c = lc_chunk_policies c key"

definition get_chunk_sidecar :: "KvBlockKey \<Rightarrow> 'addr VirthubLmCacheConnector \<Rightarrow> PspKvSidecarDescriptor option" where
  "get_chunk_sidecar key c = lc_chunk_sidecars c key"

definition lmcache_register_kv_cache ::
    "u64 \<Rightarrow> u64 \<Rightarrow> u32 \<Rightarrow> 'addr VirthubLmCacheConnector \<Rightarrow>
     (LmCacheConnectorError, RegisteredRegion) result \<times> 'addr VirthubLmCacheConnector" where
  "lmcache_register_kv_cache vaddr size_bytes gpu_device_id c =
    (case register_memory_region vaddr size_bytes (gpu_opt (lc_config c) gpu_device_id) (lc_rma_engine c) of
       (Inl e, en) \<Rightarrow> (Err (LmCacheRmaEngineFailed e), c\<lparr>lc_rma_engine := en\<rparr>)
     | (Inr region, en) \<Rightarrow> (Ok region, c\<lparr>lc_rma_engine := en\<rparr>))"

section \<open>What a connector promises\<close>

text \<open>
  The three connectors differ in keys, metadata and answers for missing keys; what they do
  with the engine and with their table of regions is the same.
\<close>

locale connector =
  fixes blocks :: "'c \<Rightarrow> 'k \<rightharpoonup> RegisteredRegion"
    and engine :: "'c \<Rightarrow> 'addr RmaTransportEngine"
    and gpu :: "'c \<Rightarrow> u32 \<Rightarrow> u32 option"
    and register :: "'k \<Rightarrow> u64 \<Rightarrow> u64 \<Rightarrow> u32 \<Rightarrow> 'x \<Rightarrow> 'c \<Rightarrow> ('e, 'm) result \<times> 'c"
    and unregister :: "'k \<Rightarrow> 'c \<Rightarrow> ('e, unit) result \<times> 'c"
    and meta_rkey :: "'m \<Rightarrow> u32"
  assumes register_ok: "register_memory_region v n (gpu c g) (engine c) = (Ok r, en) \<Longrightarrow>
      \<exists>m c'. register k v n g x c = (Ok m, c') \<and> meta_rkey m = rg_rkey r \<and>
        blocks c' = (blocks c)(k \<mapsto> r) \<and> engine c' = en"
    and unregister_some: "blocks c k = Some r \<Longrightarrow> deregister_memory_region (rg_rkey r) (engine c) = (q, en) \<Longrightarrow>
      is_ok (fst (unregister k c)) = is_ok q \<and> blocks (snd (unregister k c)) = (blocks c)(k := None) \<and>
      engine (snd (unregister k c)) = en"
begin

text \<open>Every tracked region is covered by the engine, and no two blocks share a key.\<close>

definition tracked :: "'c \<Rightarrow> bool" where
  "tracked c \<longleftrightarrow> rma_inv (engine c) \<and> (\<forall>k r. blocks c k = Some r \<longrightarrow> covered (engine c) r) \<and>
     (\<forall>k k' r r'. blocks c k = Some r \<longrightarrow> blocks c k' = Some r' \<longrightarrow> rg_rkey r = rg_rkey r' \<longrightarrow> k = k')"

lemma register_result:
  assumes "rma_inv (engine c)" "keys_left (engine c)" "v \<noteq> 0" "n \<noteq> 0"
  obtains m r c' where "register k v n g x c = (Ok m, c')" "blocks c' = (blocks c)(k \<mapsto> r)" "rg_vaddr r = v" "rg_length r = n"
    "meta_rkey m = rg_rkey r" "rma_inv (engine c')" "live (engine c') = (live (engine c))(rg_rkey r \<mapsto> r)"
    "\<forall>r'. live (engine c) (rg_rkey r) = Some r' \<longrightarrow> rg_vaddr r' = v \<and> rg_length r' = n"
    "snd (register_memory_region v n (gpu c g) (engine c)) = engine c'"
proof -
  obtain r en where r: "register_memory_region v n (gpu c g) (engine c) = (Ok r, en)" "rma_inv en" "rg_vaddr r = v"
    "rg_length r = n" "live en = (live (engine c))(rg_rkey r \<mapsto> r)"
    "\<forall>r'. live (engine c) (rg_rkey r) = Some r' \<longrightarrow> rg_vaddr r' = v \<and> rg_length r' = n"
    using register_spec [OF assms, of "gpu c g"] by blast
  from register_ok [OF r(1), of k x] obtain m c' where m: "register k v n g x c = (Ok m, c')" "meta_rkey m = rg_rkey r"
    "blocks c' = (blocks c)(k \<mapsto> r)" "engine c' = en"
    by blast
  show thesis
    by (rule that [OF m(1,3) r(3,4) m(2)]) (simp_all add: r m(4))
qed

lemma register_tracked:
  assumes "tracked c" "keys_left (engine c)" "v \<noteq> 0" "n \<noteq> 0"
    and fresh: "\<forall>k' r. blocks c k' = Some r \<and> k' \<noteq> k \<longrightarrow> rg_vaddr r \<noteq> v \<or> rg_length r \<noteq> n"
  shows "\<exists>m r. fst (register k v n g x c) = Ok m \<and> tracked (snd (register k v n g x c)) \<and>
    blocks (snd (register k v n g x c)) = (blocks c)(k \<mapsto> r) \<and> meta_rkey m = rg_rkey r \<and> rg_vaddr r = v \<and> rg_length r = n"
proof -
  have inv: "rma_inv (engine c)" "\<And>k r. blocks c k = Some r \<Longrightarrow> covered (engine c) r"
    and inj: "\<And>k k' r r'. blocks c k = Some r \<Longrightarrow> blocks c k' = Some r' \<Longrightarrow> rg_rkey r = rg_rkey r' \<Longrightarrow> k = k'"
    using assms(1) unfolding tracked_def by blast+
  obtain m r c' where r: "register k v n g x c = (Ok m, c')" "blocks c' = (blocks c)(k \<mapsto> r)" "rg_vaddr r = v" "rg_length r = n"
    "meta_rkey m = rg_rkey r" "rma_inv (engine c')" "live (engine c') = (live (engine c))(rg_rkey r \<mapsto> r)"
    "\<forall>r'. live (engine c) (rg_rkey r) = Some r' \<longrightarrow> rg_vaddr r' = v \<and> rg_length r' = n"
    "snd (register_memory_region v n (gpu c g) (engine c)) = engine c'"
    by (rule register_result [OF inv(1) assms(2-4)])
  have cov: "covered (engine c') r'" if "blocks c k' = Some r'" for k' r'
    using register_covered [OF inv(1) assms(2) inv(2) [OF that], of v n "gpu c g"] r(9) by simp
  have new: "rg_rkey r' \<noteq> rg_rkey r" if "blocks c k' = Some r'" "k' \<noteq> k" for k' r'
    using inv(2) [OF that(1)] fresh that r(8) unfolding covered_def by force
  have "covered (engine c') r"
    by (simp add: covered_def r(7))
  then have "tracked c'"
    unfolding tracked_def r(2) using cov new new [symmetric] r(6) inj by (simp add: fun_upd_apply)
  with r show ?thesis
    by auto
qed

lemma unregister_tracked:
  assumes "tracked c" "blocks c k = Some r"
  shows "is_ok (fst (unregister k c)) \<and> tracked (snd (unregister k c)) \<and>
    blocks (snd (unregister k c)) = (blocks c)(k := None) \<and>
    live (engine (snd (unregister k c))) = (live (engine c))(rg_rkey r := None)"
proof -
  have inv: "rma_inv (engine c)" "\<And>k r. blocks c k = Some r \<Longrightarrow> covered (engine c) r"
    and inj: "\<And>k k' r r'. blocks c k = Some r \<Longrightarrow> blocks c k' = Some r' \<Longrightarrow> rg_rkey r = rg_rkey r' \<Longrightarrow> k = k'"
    using assms(1) unfolding tracked_def by blast+
  obtain q en where d: "deregister_memory_region (rg_rkey r) (engine c) = (q, en)"
    by (cases "deregister_memory_region (rg_rkey r) (engine c)")
  note u = unregister_some [OF assms(2) d] and sp = deregister_spec [OF inv(1), of "rg_rkey r", unfolded d fst_conv snd_conv]
  have q: "q = Ok ()"
    using sp inv(2) [OF assms(2)] by (auto simp: covered_def)
  have "covered en r'" if "blocks c k' = Some r'" "k' \<noteq> k" for k' r'
    using inv(2) [OF that(1)] inj [OF that(1) assms(2)] that(2) sp unfolding covered_def by auto
  then have "tracked (snd (unregister k c))"
    unfolding tracked_def using u sp inj by (simp add: fun_upd_apply)
  with u sp q show ?thesis
    by simp
qed

text \<open>Two blocks over one range share a key: removing one takes the region of the other away.\<close>

lemma shared_range_dangles:
  assumes "rma_inv (engine c)" "keys_left (engine c)" "v \<noteq> 0" "n \<noteq> 0" "k \<noteq> k'"
    and "blocks c k = Some r" "covered (engine c) r" "rg_vaddr r = v" "rg_length r = n"
  shows "\<exists>r' m c1. register k' v n g x c = (Ok m, c1) \<and> blocks c1 k = Some r \<and> blocks c1 k' = Some r' \<and> rg_rkey r' = rg_rkey r \<and>
    is_ok (fst (unregister k c1)) \<and> blocks (snd (unregister k c1)) k' = Some r' \<and>
    live (engine (snd (unregister k c1))) (rg_rkey r') = None \<and>
    \<not> is_ok (fst (unregister k' (snd (unregister k c1)))) \<and> blocks (snd (unregister k' (snd (unregister k c1)))) k' = None"
proof -
  obtain m r' c1 where r: "register k' v n g x c = (Ok m, c1)" "blocks c1 = (blocks c)(k' \<mapsto> r')" "rg_vaddr r' = v" "rg_length r' = n"
    "meta_rkey m = rg_rkey r'" "rma_inv (engine c1)" "live (engine c1) = (live (engine c))(rg_rkey r' \<mapsto> r')"
    "\<forall>r''. live (engine c) (rg_rkey r') = Some r'' \<longrightarrow> rg_vaddr r'' = v \<and> rg_length r'' = n"
    "snd (register_memory_region v n (gpu c g) (engine c)) = engine c1"
    by (rule register_result [OF assms(1-4)])
  have "covered (engine c1) r"
    using register_covered [OF assms(1,2,7), of v n "gpu c g"] r(9) by simp
  then obtain r'' where r'': "live (engine c1) (rg_rkey r) = Some r''" "rg_vaddr r'' = v" "rg_length r'' = n"
    using assms(8,9) by (auto simp: covered_def)
  have "live (engine c1) (rg_rkey r') = Some r'"
    by (simp add: r(7))
  from live_range_unique [OF r(6) r''(1) this] have key: "rg_rkey r = rg_rkey r'"
    by (simp add: r(3,4) r''(2,3))
  obtain q en where d: "deregister_memory_region (rg_rkey r) (engine c1) = (q, en)"
    by (cases "deregister_memory_region (rg_rkey r) (engine c1)")
  note sp = deregister_spec [OF r(6), of "rg_rkey r", unfolded d fst_conv snd_conv]
  have b: "blocks c1 k = Some r" "blocks c1 k' = Some r'"
    using assms(5,6) r(2) by auto
  note u = unregister_some [OF b(1) d]
  let ?c2 = "snd (unregister k c1)"
  have b2: "blocks ?c2 k' = Some r'" "engine ?c2 = en"
    using u b(2) assms(5) by auto
  obtain q' en' where d': "deregister_memory_region (rg_rkey r') (engine ?c2) = (q', en')"
    by (cases "deregister_memory_region (rg_rkey r') (engine ?c2)")
  have "q' = Err (MemoryRegistrationFailed 0 0)"
    using deregister_spec [of en "rg_rkey r'"] sp d' b2(2) key by auto
  moreover have "q = Ok ()"
    using sp r(7) key by simp
  ultimately show ?thesis
    using r(1) b b2 key u sp unregister_some [OF b2(1) d'] by auto
qed

text \<open>Registering a block again over another range forgets the old region, which stays live.\<close>

lemma reregister_leaks:
  assumes "tracked c" "keys_left (engine c)" "v \<noteq> 0" "n \<noteq> 0" "blocks c k = Some r" "rg_vaddr r \<noteq> v \<or> rg_length r \<noteq> n"
    and "register k v n g x c = (Ok m, c1)"
  shows "covered (engine c1) r \<and> (\<forall>k' r'. blocks c1 k' = Some r' \<longrightarrow> rg_rkey r' \<noteq> rg_rkey r)"
proof -
  have inv: "rma_inv (engine c)" "covered (engine c) r"
    and inj: "\<And>k k' r r'. blocks c k = Some r \<Longrightarrow> blocks c k' = Some r' \<Longrightarrow> rg_rkey r = rg_rkey r' \<Longrightarrow> k = k'"
    using assms(1,5) unfolding tracked_def by blast+
  obtain m' r' c' where r: "register k v n g x c = (Ok m', c')" "blocks c' = (blocks c)(k \<mapsto> r')" "rg_vaddr r' = v" "rg_length r' = n"
    "meta_rkey m' = rg_rkey r'" "rma_inv (engine c')" "live (engine c') = (live (engine c))(rg_rkey r' \<mapsto> r')"
    "\<forall>r''. live (engine c) (rg_rkey r') = Some r'' \<longrightarrow> rg_vaddr r'' = v \<and> rg_length r'' = n"
    "snd (register_memory_region v n (gpu c g) (engine c)) = engine c'"
    by (rule register_result [OF inv(1) assms(2-4)])
  have c': "c' = c1"
    using r(1) assms(7) by simp
  have "rg_rkey r' \<noteq> rg_rkey r"
    using inv(2) r(8) assms(6) unfolding covered_def by auto
  with r(2,9) register_covered [OF inv(1) assms(2) inv(2), of v n "gpu c g"] inj [OF assms(5)] show ?thesis
    unfolding c' by (auto split: if_splits)
qed

end

section \<open>The three connectors keep the promise\<close>

interpretation vllm: connector vl_registered_blocks vl_rma_engine "\<lambda>c. gpu_opt (vl_config c)"
  "\<lambda>k v n g (pol, sc). register_kv_block_with_policy k v n g pol sc" unregister_kv_block vm_rkey
  by unfold_locales
    (auto simp: register_kv_block_with_policy_def unregister_kv_block_def remove_block_def Let_def is_ok_def split: sum.splits)

interpretation sglang: connector sg_registered_prefixes sg_rma_engine "\<lambda>c. gpu_opt (sg_config c)"
  "\<lambda>k v n g (tokens, pol, sc). register_prefix_node_with_policy k tokens v n g pol sc" unregister_prefix sm_rkey
  by unfold_locales
    (auto simp: register_prefix_node_with_policy_def unregister_prefix_def Let_def is_ok_def split: sum.splits)

interpretation lmcache: connector lc_registered_chunks lc_rma_engine "\<lambda>c. gpu_opt (lc_config c)"
  "\<lambda>k v n g (tier, payload, pol, sc). put_chunk_with_policy k tier g payload v n pol sc" remove_chunk lm_rkey
  by unfold_locales (auto simp: put_chunk_with_policy_def remove_chunk_def Let_def is_ok_def split: sum.splits)

section \<open>Reachable connectors\<close>

text \<open>
  The operations of the vLLM connector while keys are left, with no two blocks over one
  range and no block registered twice.
\<close>

inductive vllm_reachable :: "'addr VirthubVllmConnector \<Rightarrow> bool" where
  vr_new: "vllm_reachable (VllmConnector_new detected cfg)"
| vr_register: "vllm_reachable c \<Longrightarrow> keys_left (vl_rma_engine c) \<Longrightarrow> vl_registered_blocks c bid = None \<Longrightarrow>
    \<forall>b r. vl_registered_blocks c b = Some r \<longrightarrow> rg_vaddr r \<noteq> v \<or> rg_length r \<noteq> n \<Longrightarrow>
    vllm_reachable (snd (register_kv_block_with_policy bid v n g pol sc c))"
| vr_unregister: "vllm_reachable c \<Longrightarrow> vllm_reachable (snd (unregister_kv_block bid c))"
| vr_deregister: "vllm_reachable c \<Longrightarrow> vllm_reachable (snd (vllm_deregister_memory_region order rkey c))"
| vr_swap_in: "vllm_reachable c \<Longrightarrow> keys_left (vl_rma_engine c) \<Longrightarrow>
    vllm_reachable (snd (swap_in_remote_block a rv rk lv len c))"

lemma vllm_same_table:
  assumes "vllm.tracked c" "rma_inv (vl_rma_engine c')" "live (vl_rma_engine c') = live (vl_rma_engine c)"
    and "vl_registered_blocks c' = vl_registered_blocks c"
  shows "vllm.tracked c'"
  using assms unfolding vllm.tracked_def covered_def by simp

lemma unregister_keeps: "vllm.tracked c \<Longrightarrow> vllm.tracked (snd (unregister_kv_block bid c))"
  using vllm.unregister_tracked [of c bid]
  by (cases "vl_registered_blocks c bid") (simp_all add: unregister_kv_block_def)

lemma deregister_by_key:
  "vllm_deregister_memory_region order rkey c = (Err (RkeyNotFound rkey), c) \<or>
   (\<exists>bid r. vl_registered_blocks c bid = Some r \<and> rg_rkey r = rkey \<and>
      vllm_deregister_memory_region order rkey c = unregister_kv_block bid c)"
  by (auto simp: vllm_deregister_memory_region_def unregister_kv_block_def find_Some_iff split: option.splits)

lemma vllm_reachable_tracked: "vllm_reachable c \<Longrightarrow> vllm.tracked c"
proof (induction rule: vllm_reachable.induct)
  case (vr_new detected cfg)
  then show ?case
    by (simp add: vllm.tracked_def VllmConnector_new_def connector_engine_def auto_detect_inv)
next
  case (vr_register c bid v n g pol sc)
  show ?case
  proof (cases "v = 0 \<or> n = 0")
    case True
    with vr_register.IH show ?thesis
      by (simp add: register_kv_block_with_policy_def register_memory_region_def)
  next
    case False
    with vllm.register_tracked [OF vr_register.IH vr_register.hyps(2), of v n bid g "(pol, sc)"] vr_register.hyps(4) show ?thesis
      by auto
  qed
next
  case (vr_deregister c order rkey)
  then show ?case
    using deregister_by_key [of order rkey c] unregister_keeps by auto
next
  case (vr_swap_in c a rv rk lv len)
  have inv: "rma_inv (vl_rma_engine c)"
    using vr_swap_in.IH by (simp add: vllm.tracked_def)
  have "rma_inv (snd (rdma_read a rv rk lv len (vl_rma_engine c)))"
    by (rule posted_inv [OF inv vr_swap_in.hyps(2), of _ a]) (simp_all add: rdma_read_def post_read_def)
  then show ?case
    by (intro vllm_same_table [OF vr_swap_in.IH]) (simp_all add: swap_in_remote_block_def rdma_read_def live_def)
qed (rule unregister_keeps)

lemma deregister_keys_all:
  assumes "rma_inv en" "distinct ks" "\<forall>k \<in> set ks. live en k \<noteq> None"
  shows "\<exists>en'. deregister_keys ks en = (Ok (), en') \<and> live en' = (\<lambda>k. if k \<in> set ks then None else live en k)"
  using assms
proof (induction ks arbitrary: en)
  case (Cons k ks)
  let ?d = "deregister_memory_region k en"
  have d: "fst ?d = Ok ()" "rma_inv (snd ?d)" "live (snd ?d) = (live en)(k := None)"
    using deregister_spec [OF Cons.prems(1), of k] Cons.prems(3) by auto
  have "distinct ks" "\<forall>k' \<in> set ks. live (snd ?d) k' \<noteq> None"
    using Cons.prems(2,3) by (auto simp: d(3))
  from Cons.IH [OF d(2) this] obtain en' where "deregister_keys ks (snd ?d) = (Ok (), en')"
    "live en' = (\<lambda>k'. if k' \<in> set ks then None else live (snd ?d) k')"
    by blast
  with d(1,3) show ?case
    by (cases ?d) auto
qed simp

lemma vllm_close_all:
  assumes "vllm.tracked c" "distinct order" "set order = dom (vl_registered_blocks c)"
  shows "fst (vllm_close order c) = Ok () \<and> vl_registered_blocks (snd (vllm_close order c)) = Map.empty \<and>
    live (vl_rma_engine (snd (vllm_close order c))) =
      (\<lambda>k. if \<exists>b r. vl_registered_blocks c b = Some r \<and> rg_rkey r = k then None else live (vl_rma_engine c) k)"
proof -
  let ?f = "\<lambda>bid. map_option rg_rkey (vl_registered_blocks c bid)"
  let ?ks = "List.map_filter ?f order"
  have inv: "rma_inv (vl_rma_engine c)" "\<And>b r. vl_registered_blocks c b = Some r \<Longrightarrow> covered (vl_rma_engine c) r"
    and inj: "\<And>b b' r r'. vl_registered_blocks c b = Some r \<Longrightarrow> vl_registered_blocks c b' = Some r' \<Longrightarrow>
      rg_rkey r = rg_rkey r' \<Longrightarrow> b = b'"
    using assms(1) unfolding vllm.tracked_def by blast+
  have "List.map_filter ?f bs = map (\<lambda>b. rg_rkey (the (vl_registered_blocks c b))) bs"
    if "set bs \<subseteq> dom (vl_registered_blocks c)" for bs
    using that by (induction bs) (auto simp: List.map_filter_simps)
  then have ks: "?ks = map (\<lambda>b. rg_rkey (the (vl_registered_blocks c b))) order"
    by (simp add: assms(3))
  have keys: "set ?ks = {k. \<exists>b r. vl_registered_blocks c b = Some r \<and> rg_rkey r = k}"
    unfolding ks using assms(3) by (force simp: dom_def)
  have "inj_on (\<lambda>b. rg_rkey (the (vl_registered_blocks c b))) (set order)"
    unfolding assms(3) using inj by (intro inj_onI) auto
  then have "distinct ?ks"
    unfolding ks by (simp add: distinct_map assms(2))
  moreover have "\<forall>k \<in> set ?ks. live (vl_rma_engine c) k \<noteq> None"
    unfolding keys using inv(2) by (auto simp: covered_def)
  ultimately obtain en' where "deregister_keys ?ks (vl_rma_engine c) = (Ok (), en')"
    "live en' = (\<lambda>k. if k \<in> set ?ks then None else live (vl_rma_engine c) k)"
    using deregister_keys_all [OF inv(1)] by blast
  then show ?thesis
    by (simp add: vllm_close_def keys)
qed

section \<open>Properties\<close>

text \<open>
  C15: registered blocks are live until they are removed.  In every state the operations of
  the vLLM connector lead to, while keys are left, no block is registered twice and no two
  blocks lie over one range, every registered block has a live region of its own with its
  range; unregistering it succeeds, removes exactly this block and this region; and
  closing, in whatever order the table is walked, succeeds and removes exactly the regions
  of the blocks.
\<close>

theorem vllm_blocks_live:
  assumes "vllm_reachable c" "vl_registered_blocks c b = Some r" "distinct order" "set order = dom (vl_registered_blocks c)"
  shows "covered (vl_rma_engine c) r \<and>
    (\<forall>b' r'. vl_registered_blocks c b' = Some r' \<and> rg_rkey r' = rg_rkey r \<longrightarrow> b' = b) \<and>
    (\<exists>c'. unregister_kv_block b c = (Ok (), c') \<and> vl_registered_blocks c' = (vl_registered_blocks c)(b := None) \<and>
       live (vl_rma_engine c') = (live (vl_rma_engine c))(rg_rkey r := None)) \<and>
    (\<exists>c'. vllm_close order c = (Ok (), c') \<and> vl_registered_blocks c' = Map.empty \<and>
       live (vl_rma_engine c') =
         (\<lambda>k. if \<exists>b r. vl_registered_blocks c b = Some r \<and> rg_rkey r = k then None else live (vl_rma_engine c) k))"
proof -
  note tr = vllm_reachable_tracked [OF assms(1)]
  have "is_ok (fst (unregister_kv_block b c))"
    using vllm.unregister_tracked [OF tr assms(2)] by simp
  then have "fst (unregister_kv_block b c) = Ok ()"
    by (simp add: is_ok_iff)
  with vllm.unregister_tracked [OF tr assms(2)] have
    "\<exists>c'. unregister_kv_block b c = (Ok (), c') \<and> vl_registered_blocks c' = (vl_registered_blocks c)(b := None) \<and>
       live (vl_rma_engine c') = (live (vl_rma_engine c))(rg_rkey r := None)"
    by (metis prod.collapse)
  moreover have "\<exists>c'. vllm_close order c = (Ok (), c') \<and> vl_registered_blocks c' = Map.empty \<and>
       live (vl_rma_engine c') =
         (\<lambda>k. if \<exists>b r. vl_registered_blocks c b = Some r \<and> rg_rkey r = k then None else live (vl_rma_engine c) k)"
    using vllm_close_all [OF tr assms(3,4)] by (intro exI [of _ "snd (vllm_close order c)"]) (simp add: prod_eq_iff)
  ultimately show ?thesis
    using tr assms(2) unfolding vllm.tracked_def by blast
qed

theorem vllm_blocks_live_witness:
  "\<exists>(c :: unit VirthubVllmConnector) r c'. vl_registered_blocks c 7 = Some r \<and> covered (vl_rma_engine c) r \<and>
     unregister_kv_block 7 c = (Ok (), c') \<and> vl_registered_blocks c' 7 = None"
proof -
  let ?new = "VllmConnector_new None VirthubConfig_default :: unit VirthubVllmConnector"
  let ?c = "snd (register_kv_block_with_policy 7 0x1000 64 0 None None ?new)"
  have n: "keys_left (vl_rma_engine ?new)" "vl_registered_blocks ?new = Map.empty" "rma_inv (vl_rma_engine ?new)"
    by (simp_all add: VllmConnector_new_def connector_engine_def auto_detect_def RdmaProvider_new_def keys_left_def Let_def
        rma_inv_def reg_inv_def live_def Registry_new_def)
  have reach: "vllm_reachable ?c"
    by (rule vr_register [OF vr_new n(1)]) (simp_all add: n(2))
  obtain r where "vl_registered_blocks ?c = [7 \<mapsto> r]"
    using vllm.register_tracked [OF vllm_reachable_tracked [OF vr_new] n(1), of "0x1000" 64 7 0 "(None, None)"] n(2) by auto
  then have b: "vl_registered_blocks ?c 7 = Some r" "set [7] = dom (vl_registered_blocks ?c)"
    by simp_all
  have "covered (vl_rma_engine ?c) r" and
    "\<exists>c'. unregister_kv_block 7 ?c = (Ok (), c') \<and> vl_registered_blocks c' = (vl_registered_blocks ?c)(7 := None)"
    using vllm_blocks_live [OF reach b(1) _ b(2)] by auto
  then obtain c' where "covered (vl_rma_engine ?c) r" "unregister_kv_block 7 ?c = (Ok (), c')" "vl_registered_blocks c' 7 = None"
    by auto
  with b(1) show ?thesis
    by blast
qed

text \<open>
  Blocks over one range share one registration.  Whatever state the connector is in,
  if a block over a range is live and a second block is registered over the same range,
  both get the same key.  Unregistering the first then takes the region away from the
  second, which stays in the table with a dead key, and unregistering the second fails
  although it does remove it from the table.
\<close>

theorem vllm_shared_range_dangles:
  assumes "rma_inv (vl_rma_engine c)" "keys_left (vl_rma_engine c)" "v \<noteq> 0" "n \<noteq> 0" "b \<noteq> b'"
    and "vl_registered_blocks c b = Some r" "covered (vl_rma_engine c) r" "rg_vaddr r = v" "rg_length r = n"
  shows "\<exists>m c1 c2 c3 r' e. register_kv_block b' v n g c = (Ok m, c1) \<and> vl_registered_blocks c1 b' = Some r' \<and>
    vm_rkey m = rg_rkey r \<and> rg_rkey r' = rg_rkey r \<and>
    unregister_kv_block b c1 = (Ok (), c2) \<and> vl_registered_blocks c2 b' = Some r' \<and> live (vl_rma_engine c2) (rg_rkey r') = None \<and>
    unregister_kv_block b' c2 = (Err e, c3) \<and> vl_registered_blocks c3 b' = None"
proof -
  obtain r' m c1 where s: "register_kv_block b' v n g c = (Ok m, c1)" "vl_registered_blocks c1 b' = Some r'" "rg_rkey r' = rg_rkey r"
    "is_ok (fst (unregister_kv_block b c1))" "vl_registered_blocks (snd (unregister_kv_block b c1)) b' = Some r'"
    "live (vl_rma_engine (snd (unregister_kv_block b c1))) (rg_rkey r') = None"
    "\<not> is_ok (fst (unregister_kv_block b' (snd (unregister_kv_block b c1))))"
    "vl_registered_blocks (snd (unregister_kv_block b' (snd (unregister_kv_block b c1)))) b' = None"
    using vllm.shared_range_dangles [OF assms, of g "(None, None)"] by (auto simp: register_kv_block_def)
  have "vm_rkey m = rg_rkey r'"
    using s(1,2) by (auto simp: register_kv_block_def register_kv_block_with_policy_def split: prod.splits sum.splits)
  moreover obtain c2 where "unregister_kv_block b c1 = (Ok (), c2)"
    using s(4) by (cases "unregister_kv_block b c1") (auto simp: is_ok_iff)
  moreover from this s(7) obtain e c3 where "unregister_kv_block b' c2 = (Err e, c3)"
    by (cases "unregister_kv_block b' c2"; cases "fst (unregister_kv_block b' c2)") auto
  ultimately show ?thesis
    using s by auto
qed

theorem vllm_shared_range_dangles_witness:
  "\<exists>(c :: unit VirthubVllmConnector) m c1 c2 c3 e. register_kv_block 8 0x1000 64 0 c = (Ok m, c1) \<and>
     unregister_kv_block 7 c1 = (Ok (), c2) \<and> unregister_kv_block 8 c2 = (Err e, c3)"
proof -
  let ?new = "VllmConnector_new None VirthubConfig_default :: unit VirthubVllmConnector"
  let ?p = "register_kv_block_with_policy 7 0x1000 64 0 None None ?new"
  have n: "keys_left (vl_rma_engine ?new)" "vl_registered_blocks ?new = Map.empty" "pv_next_qp_num (en_provider (vl_rma_engine ?new)) = 1"
    by (simp_all add: VllmConnector_new_def connector_engine_def auto_detect_def RdmaProvider_new_def keys_left_def Let_def)
  obtain r where r: "vl_registered_blocks (snd ?p) 7 = Some r" "rg_vaddr r = 0x1000" "rg_length r = 64" "vllm.tracked (snd ?p)"
    using vllm.register_tracked [OF vllm_reachable_tracked [OF vr_new] n(1), of "0x1000" 64 7 0 "(None, None)"] n(2) by auto
  have "vl_rma_engine (snd ?p) = snd (register_memory_region 0x1000 64 (gpu_opt (vl_config ?new) 0) (vl_rma_engine ?new))"
    by (simp add: register_kv_block_with_policy_def split: prod.splits sum.splits)
  then have "keys_left (vl_rma_engine (snd ?p))"
    using register_next [of "0x1000" 64 "gpu_opt (vl_config ?new) 0" "vl_rma_engine ?new"] n(3) by (auto simp: keys_left_def)
  with r vllm_shared_range_dangles [of "snd ?p" "0x1000" 64 7 8 r 0] show ?thesis
    unfolding vllm.tracked_def by fastforce
qed

section \<open>Metadata and payloads\<close>

text \<open>A block registered again without a policy keeps the policy of the earlier registration.\<close>

lemma stale_policy_kept:
  assumes "register_kv_block_with_policy b v n g (Some pol) sc c = (Ok m, c1)" "register_kv_block b v' n' g' c1 = (Ok m', c2)"
  shows "vm_precision_policy m' = None \<and> get_block_policy b c2 = Some pol"
  using assms by (auto simp: register_kv_block_def register_kv_block_with_policy_def get_block_policy_def split: prod.splits sum.splits)

text \<open>A removal that fails in the engine leaves the metadata of the removed block.\<close>

lemma failed_removal_keeps_metadata:
  assumes "unregister_kv_block b c = (Err (VllmRmaEngineFailed e), c1)"
  shows "vl_registered_blocks c1 b = None \<and> get_block_policy b c1 = get_block_policy b c \<and>
    get_block_sidecar b c1 = get_block_sidecar b c"
  using assms
  by (auto simp: unregister_kv_block_def remove_block_def get_block_policy_def get_block_sidecar_def Let_def
      split: option.splits prod.splits sum.splits)

text \<open>The chunk store: a put is visible even when its registration fails, other keys are not touched.\<close>

lemma chunk_store:
  "get_chunk k (snd (put_chunk_with_policy key tier g payload v n pol sc c)) = (if k = key then Ok payload else get_chunk k c)"
  "get_chunk k (snd (remove_chunk key c)) = (if k = key then Err (ChunkNotFound key) else get_chunk k c)"
  by (simp_all add: get_chunk_def put_chunk_with_policy_def remove_chunk_def Let_def split: prod.splits sum.splits option.splits)

lemma failed_put_visible:
  "fst (put_chunk key tier g payload 0 n c) = Err (LmCacheRmaEngineFailed (MemoryRegistrationFailed 0 n)) \<and>
   get_chunk key (snd (put_chunk key tier g payload 0 n c)) = Ok payload"
  by (simp add: put_chunk_def chunk_store) (simp add: put_chunk_with_policy_def register_memory_region_def)

end
