(* ===== verification/Bindings.thy ===== *)
theory Bindings
  imports Connectors Dsm_Api
begin

text \<open>
  The Python extension module, from \<open>bindings/rust/src/lib.rs\<close>: the classes that wrap the
  three connectors.  Every method calls the connector, turns its error into a Python
  exception with the error's text and copies the metadata it exposes.  The parser of
  socket addresses and the loader of the configuration are parameters.
\<close>

section \<open>Exceptions and texts\<close>

datatype PyErr = PyValueError string | PyRuntimeError string | PyKeyError string

fun show_vllm_error :: "VllmConnectorError \<Rightarrow> string" where
  "show_vllm_error (VllmConfigError m) = ''Configuration error: '' @ m"
| "show_vllm_error (VllmRmaEngineFailed e) = ''RMA engine failure: '' @ show_rma_error e"
| "show_vllm_error (VllmTransportFailed m) = ''Transport communication failed: '' @ m"
| "show_vllm_error (BlockNotFound b) = ''Block '' @ show_base 10 (unat b) @ '' not found in local registry''"
| "show_vllm_error (RkeyNotFound k) = ''No block found with rkey '' @ show_base 10 (unat k)"
| "show_vllm_error (VllmIoError m) = ''I/O error: '' @ m"

fun show_sglang_error :: "SglangConnectorError \<Rightarrow> string" where
  "show_sglang_error (SglangConfigError m) = ''Configuration error: '' @ m"
| "show_sglang_error (SglangRmaEngineFailed e) = ''RMA engine failure: '' @ show_rma_error e"
| "show_sglang_error (SglangTransportFailed m) = ''Transport communication failed: '' @ m"
| "show_sglang_error (PrefixNotFound h) = ''Prefix node 0x'' @ show_base 16 (unat h) @ '' not found in local registry''"
| "show_sglang_error (SglangIoError m) = ''I/O error: '' @ m"

definition show_block_key :: "KvBlockKey \<Rightarrow> string" where
  "show_block_key k =
    ''BlockKey(NS:'' @ show_base 10 (unat (namespace_id k)) @ '', ID:'' @ show_base 10 (unat (block_id k)) @ '')''"

fun show_lmcache_error :: "LmCacheConnectorError \<Rightarrow> string" where
  "show_lmcache_error (LmCacheConfigError m) = ''Configuration error: '' @ m"
| "show_lmcache_error (LmCacheRmaEngineFailed e) = ''RMA engine failure: '' @ show_rma_error e"
| "show_lmcache_error (LmCacheTransportFailed m) = ''Transport communication failed: '' @ m"
| "show_lmcache_error (ChunkNotFound k) = ''Chunk '' @ show_block_key k @ '' not found in local registry''"
| "show_lmcache_error (LmCacheIoError m) = ''I/O error: '' @ m"
| "show_lmcache_error (LmCacheSerializationError m) = ''Serialization error: '' @ m"

definition py_error :: "('e \<Rightarrow> PyErr) \<Rightarrow> ('e, 'a) result \<Rightarrow> (PyErr, 'a) result" where
  "py_error f r = (case r of Inl e \<Rightarrow> Err (f e) | Inr x \<Rightarrow> Ok x)"

definition load_config :: "(string \<Rightarrow> (string, VirthubConfig) result) \<Rightarrow> string \<Rightarrow> (PyErr, VirthubConfig) result" where
  "load_config loader path = py_error PyValueError (loader path)"

section \<open>Keys and tiers\<close>

datatype PyKvBlockKey = PyKvBlockKey (py_namespace_id: u64) (py_block_id: u64)

definition PyKvBlockKey_repr :: "PyKvBlockKey \<Rightarrow> string" where
  "PyKvBlockKey_repr k =
    ''KvBlockKey(ns='' @ show_base 10 (unat (py_namespace_id k)) @ '', id='' @ show_base 10 (unat (py_block_id k)) @ '')''"

definition PyKvBlockKey_eq :: "PyKvBlockKey \<Rightarrow> PyKvBlockKey \<Rightarrow> bool" where
  "PyKvBlockKey_eq a b \<longleftrightarrow> py_namespace_id a = py_namespace_id b \<and> py_block_id a = py_block_id b"

definition native_key :: "PyKvBlockKey \<Rightarrow> KvBlockKey" where
  "native_key k = KvBlockKey_new (py_namespace_id k) (py_block_id k)"

datatype PyStorageTier = PyDram | PySsd | PyVram

fun to_rust :: "PyStorageTier \<Rightarrow> StorageTier" where
  "to_rust PyDram = Dram"
| "to_rust PySsd = Ssd"
| "to_rust PyVram = Vram"

fun from_rust :: "StorageTier \<Rightarrow> PyStorageTier" where
  "from_rust Dram = PyDram"
| "from_rust Ssd = PySsd"
| "from_rust Vram = PyVram"

section \<open>vLLM\<close>

record PyVllmBlockMeta =
  pvm_block_id :: u64
  pvm_vaddr :: u64
  pvm_size_bytes :: u64
  pvm_gpu_device_id :: u32
  pvm_rkey :: u32
  pvm_lkey :: u32

definition py_vllm_new ::
    "(string \<Rightarrow> (string, VirthubConfig) result) \<Rightarrow> string option \<Rightarrow> string \<Rightarrow> (PyErr, 'addr VirthubVllmConnector) result" where
  "py_vllm_new loader detected path =
    (case load_config loader path of Inl e \<Rightarrow> Err e | Inr config \<Rightarrow> Ok (VllmConnector_new detected config))"

definition py_register_kv_block ::
    "u64 \<Rightarrow> u64 \<Rightarrow> u64 \<Rightarrow> u32 \<Rightarrow> 'addr VirthubVllmConnector \<Rightarrow> (PyErr, PyVllmBlockMeta) result \<times> 'addr VirthubVllmConnector" where
  "py_register_kv_block bid vaddr size_bytes gpu_device_id c =
    (case register_kv_block bid vaddr size_bytes gpu_device_id c of
       (Inl e, c1) \<Rightarrow> (Err (PyRuntimeError (show_vllm_error e)), c1)
     | (Inr m, c1) \<Rightarrow>
         (Ok \<lparr>pvm_block_id = vm_block_id m, pvm_vaddr = vm_vaddr m, pvm_size_bytes = vm_size_bytes m,
              pvm_gpu_device_id = vm_gpu_device_id m, pvm_rkey = vm_rkey m, pvm_lkey = vm_lkey m\<rparr>, c1))"

definition py_swap_in_remote_block ::
    "(string \<Rightarrow> (string, 'addr) result) \<Rightarrow> string \<Rightarrow> u64 \<Rightarrow> u32 \<Rightarrow> u64 \<Rightarrow> nat \<Rightarrow> 'addr VirthubVllmConnector \<Rightarrow>
     (PyErr, unit) result \<times> 'addr VirthubVllmConnector" where
  "py_swap_in_remote_block parse peer_addr remote_vaddr remote_rkey local_vaddr size_bytes c =
    (case parse peer_addr of
       Inl e \<Rightarrow> (Err (PyValueError e), c)
     | Inr addr \<Rightarrow>
         map_prod (py_error (\<lambda>e. PyRuntimeError (show_vllm_error e))) id
           (swap_in_remote_block addr remote_vaddr remote_rkey local_vaddr size_bytes c))"

definition py_vllm_deregister ::
    "u64 list \<Rightarrow> u32 \<Rightarrow> 'addr VirthubVllmConnector \<Rightarrow> (PyErr, unit) result \<times> 'addr VirthubVllmConnector" where
  "py_vllm_deregister order rkey c =
    map_prod (py_error (\<lambda>e. PyRuntimeError (show_vllm_error e))) id (vllm_deregister_memory_region order rkey c)"

definition py_vllm_close ::
    "u64 list \<Rightarrow> 'addr VirthubVllmConnector \<Rightarrow> (PyErr, unit) result \<times> 'addr VirthubVllmConnector" where
  "py_vllm_close order c = map_prod (py_error (\<lambda>e. PyRuntimeError (show_vllm_error e))) id (vllm_close order c)"

section \<open>LMCache\<close>

record PyLmCacheChunkMeta =
  plm_namespace_id :: u64
  plm_block_id :: u64
  plm_tier :: PyStorageTier
  plm_vaddr :: u64
  plm_size_bytes :: u64
  plm_gpu_device_id :: u32
  plm_rkey :: u32
  plm_lkey :: u32

definition py_lmcache_new ::
    "(string \<Rightarrow> (string, VirthubConfig) result) \<Rightarrow> string option \<Rightarrow> string \<Rightarrow> (PyErr, 'addr VirthubLmCacheConnector) result" where
  "py_lmcache_new loader detected path =
    (case load_config loader path of Inl e \<Rightarrow> Err e | Inr config \<Rightarrow> Ok (LmCacheConnector_new detected config))"

definition py_put_chunk ::
    "PyKvBlockKey \<Rightarrow> PyStorageTier \<Rightarrow> u32 \<Rightarrow> u8 list \<Rightarrow> u64 \<Rightarrow> u64 \<Rightarrow> 'addr VirthubLmCacheConnector \<Rightarrow>
     (PyErr, PyLmCacheChunkMeta) result \<times> 'addr VirthubLmCacheConnector" where
  "py_put_chunk key tier gpu_device_id payload vaddr len c =
    (case put_chunk (native_key key) (to_rust tier) gpu_device_id payload vaddr len c of
       (Inl e, c1) \<Rightarrow> (Err (PyRuntimeError (show_lmcache_error e)), c1)
     | (Inr m, c1) \<Rightarrow>
         (Ok \<lparr>plm_namespace_id = namespace_id (lm_key m), plm_block_id = block_id (lm_key m), plm_tier = from_rust (lm_tier m),
              plm_vaddr = lm_vaddr m, plm_size_bytes = lm_size_bytes m, plm_gpu_device_id = lm_gpu_device_id m,
              plm_rkey = lm_rkey m, plm_lkey = lm_lkey m\<rparr>, c1))"

definition py_get_chunk :: "PyKvBlockKey \<Rightarrow> 'addr VirthubLmCacheConnector \<Rightarrow> (PyErr, u8 list) result" where
  "py_get_chunk key c = py_error (\<lambda>e. PyKeyError (show_lmcache_error e)) (get_chunk (native_key key) c)"

definition py_remove_chunk ::
    "PyKvBlockKey \<Rightarrow> 'addr VirthubLmCacheConnector \<Rightarrow> (PyErr, unit) result \<times> 'addr VirthubLmCacheConnector" where
  "py_remove_chunk key c =
    map_prod (py_error (\<lambda>e. PyRuntimeError (show_lmcache_error e))) id (remove_chunk (native_key key) c)"

definition py_lmcache_deregister ::
    "u32 \<Rightarrow> 'addr VirthubLmCacheConnector \<Rightarrow> (PyErr, unit) result \<times> 'addr VirthubLmCacheConnector" where
  "py_lmcache_deregister rkey c = (Ok (), c)"

definition py_lmcache_close :: "'addr VirthubLmCacheConnector \<Rightarrow> (PyErr, unit) result \<times> 'addr VirthubLmCacheConnector" where
  "py_lmcache_close c = (Ok (), c)"

section \<open>SGLang\<close>

record PySglangPrefixMeta =
  psm_prefix_hash :: u64
  psm_token_count :: u64
  psm_vaddr :: u64
  psm_size_bytes :: u64
  psm_gpu_device_id :: u32
  psm_rkey :: u32
  psm_lkey :: u32

definition py_sglang_new ::
    "(string \<Rightarrow> (string, VirthubConfig) result) \<Rightarrow> string option \<Rightarrow> string \<Rightarrow> (PyErr, 'addr VirthubSglangConnector) result" where
  "py_sglang_new loader detected path =
    (case load_config loader path of Inl e \<Rightarrow> Err e | Inr config \<Rightarrow> Ok (SglangConnector_new detected config))"

definition py_register_prefix_node ::
    "u64 \<Rightarrow> u64 \<Rightarrow> u64 \<Rightarrow> u64 \<Rightarrow> u32 \<Rightarrow> 'addr VirthubSglangConnector \<Rightarrow>
     (PyErr, PySglangPrefixMeta) result \<times> 'addr VirthubSglangConnector" where
  "py_register_prefix_node prefix_hash token_count vaddr size_bytes gpu_device_id c =
    (case register_prefix_node prefix_hash token_count vaddr size_bytes gpu_device_id c of
       (Inl e, c1) \<Rightarrow> (Err (PyRuntimeError (show_sglang_error e)), c1)
     | (Inr m, c1) \<Rightarrow>
         (Ok \<lparr>psm_prefix_hash = sm_prefix_hash m, psm_token_count = sm_token_count m, psm_vaddr = sm_vaddr m,
              psm_size_bytes = sm_size_bytes m, psm_gpu_device_id = sm_gpu_device_id m, psm_rkey = sm_rkey m,
              psm_lkey = sm_lkey m\<rparr>, c1))"

definition py_fetch_remote_prefix ::
    "(string \<Rightarrow> (string, 'addr) result) \<Rightarrow> string \<Rightarrow> u64 \<Rightarrow> u32 \<Rightarrow> u64 \<Rightarrow> nat \<Rightarrow> 'addr VirthubSglangConnector \<Rightarrow>
     (PyErr, unit) result \<times> 'addr VirthubSglangConnector" where
  "py_fetch_remote_prefix parse peer_addr remote_vaddr remote_rkey local_vaddr size_bytes c =
    (case parse peer_addr of
       Inl e \<Rightarrow> (Err (PyValueError e), c)
     | Inr addr \<Rightarrow>
         map_prod (py_error (\<lambda>e. PyRuntimeError (show_sglang_error e))) id
           (fetch_remote_prefix addr remote_vaddr remote_rkey local_vaddr size_bytes c))"

definition py_sglang_deregister ::
    "u32 \<Rightarrow> 'addr VirthubSglangConnector \<Rightarrow> (PyErr, unit) result \<times> 'addr VirthubSglangConnector" where
  "py_sglang_deregister rkey c = (Ok (), c)"

definition py_sglang_close :: "'addr VirthubSglangConnector \<Rightarrow> (PyErr, unit) result \<times> 'addr VirthubSglangConnector" where
  "py_sglang_close c = (Ok (), c)"

section \<open>Lemmas\<close>

lemma tier_roundtrip [simp]: "from_rust (to_rust t) = t" "to_rust (from_rust r) = r"
  by (cases t; simp) (cases r; simp)

lemma native_key_inj [simp]: "native_key a = native_key b \<longleftrightarrow> PyKvBlockKey_eq a b"
  by (cases a; cases b) (simp add: native_key_def KvBlockKey_new_def PyKvBlockKey_eq_def)

text \<open>Chunks through the bindings: what is put is got, other keys are not touched.\<close>

lemma py_put_state: "snd (py_put_chunk key tier g payload v n c) = snd (put_chunk (native_key key) (to_rust tier) g payload v n c)"
  by (simp add: py_put_chunk_def split: prod.splits sum.splits)

lemma py_chunk_roundtrip:
  "py_get_chunk k (snd (py_put_chunk key tier g payload v n c)) = (if PyKvBlockKey_eq k key then Ok payload else py_get_chunk k c)"
  unfolding py_get_chunk_def py_put_state put_chunk_def chunk_store by (simp add: py_error_def)

text \<open>Deregistering and closing an LMCache or SGLang connector from Python leaves every region registered.\<close>

lemma py_lmcache_regions_leak:
  assumes "rma_inv (lc_rma_engine c)" "keys_left (lc_rma_engine c)" "v \<noteq> 0" "n \<noteq> 0"
  shows "\<exists>m c1. py_put_chunk key tier g payload v n c = (Ok m, c1) \<and>
    live (lc_rma_engine (snd (py_lmcache_close (snd (py_lmcache_deregister (plm_rkey m) c1))))) (plm_rkey m) \<noteq> None"
proof -
  obtain m r c1 where "(\<lambda>(tier, payload, pol, sc). put_chunk_with_policy (native_key key) tier g payload v n pol sc)
      (to_rust tier, payload, None, None) c = (Ok m, c1)" "lc_registered_chunks c1 = (lc_registered_chunks c)(native_key key \<mapsto> r)"
    "rg_vaddr r = v" "rg_length r = n" "lm_rkey m = rg_rkey r" "rma_inv (lc_rma_engine c1)"
    "live (lc_rma_engine c1) = (live (lc_rma_engine c))(rg_rkey r \<mapsto> r)"
    "\<forall>r'. live (lc_rma_engine c) (rg_rkey r) = Some r' \<longrightarrow> rg_vaddr r' = v \<and> rg_length r' = n"
    "snd (register_memory_region v n (gpu_opt (lc_config c) g) (lc_rma_engine c)) = lc_rma_engine c1"
    by (rule lmcache.register_result [OF assms, where k = "native_key key"])
  then show ?thesis
    by (simp add: py_put_chunk_def put_chunk_def py_lmcache_close_def py_lmcache_deregister_def)
qed

end
