(* ===== verification/Py_Connectors.thy ===== *)
theory Py_Connectors
  imports Bindings
begin

text \<open>
  The Python adapters, from \<open>bindings/python/virthub/vllm.py\<close>, \<open>lmcache.py\<close> and
  \<open>sglang.py\<close>: the in-memory clients used when the extension is not built, the adapters'
  own tables, and the calls into the extension of \<open>Bindings\<close>.  Python integers are
  unbounded, dictionaries whose order does not matter are maps, and a raised exception is
  an error value.  Locks make every client method one step.
\<close>

section \<open>Exceptions and calls\<close>

datatype PyExc = TypeError string | KeyError string | OverflowError | NativeError PyErr

text \<open>Binding keyword arguments to the parameters of a method that has no defaults.\<close>

definition bind_keywords :: "string list \<Rightarrow> string list \<Rightarrow> (PyExc, unit) result" where
  "bind_keywords params keywords =
    (case find (\<lambda>k. k \<notin> set params) keywords of
       Some k \<Rightarrow> Err (TypeError (''got an unexpected keyword argument '' @ k))
     | None \<Rightarrow>
         (case find (\<lambda>p. p \<notin> set keywords) params of
            Some p \<Rightarrow> Err (TypeError (''missing required argument '' @ p))
          | None \<Rightarrow> Ok ()))"

section \<open>Configuration\<close>

text \<open>The default dictionary of the vLLM adapter; the section on precision is filled in by the parser.\<close>

definition default_config_dict :: VirthubConfig where
  "default_config_dict =
    \<lparr>vc_general =
       \<lparr>gc_log_level = ''info'', gc_control_socket = ''/tmp/virthub_control.sock'',
        gc_data_bind_addr = ''0.0.0.0:19001'', gc_node_id = ''node-1''\<rparr>,
     vc_klnk =
       \<lparr>kc_enable_uffd_move = True, kc_fallback_copy = True, kc_staging_num_pages = 16, kc_huge_page_size = 2097152\<rparr>,
     vc_store =
       \<lparr>sto_tier = \<lparr>tc_l0_enabled = False, tc_l0_device_ids = [0, 1], tc_l1_enabled = True, tc_l2_enabled = False,
                    tc_l2_path = ''/mnt/nvme/virthub_cache''\<rparr>,
        sto_block_size = 2097152\<rparr>,
     vc_master =
       \<lparr>mc_raft = \<lparr>rs_embedded = True, rs_initial_peers = [''node-1'', ''node-2'', ''node-3''],
                   rs_etcd_endpoints = [''http://127.0.0.1:2379'']\<rparr>,
        mc_scheduler = \<lparr>ss_prefetch_window = 8, ss_l0_promote_threshold = 100, ss_l1_demote_idle_secs = 60,
                        ss_lru_decay = Fin (f64_round (8 / 10))\<rparr>,
        mc_sharding = \<lparr>shc_shard_count = 64\<rparr>\<rparr>,
     vc_transport =
       \<lparr>trc_default_protocol = ''tcp'',
        trc_rdma = \<lparr>rdc_device_name = '''', rdc_enable_gdr = False, rdc_rq_prepost_count = 1024,
                    rdc_control_immediate = True\<rparr>,
        trc_tcp = \<lparr>tcp_io_uring_enabled = True, tcp_port = 19002\<rparr>\<rparr>,
     vc_ebpf =
       \<lparr>ebc_enabled = True, ebc_program_path = ''/usr/lib/virthub/stride_tracer.bpf.o'', ebc_report_interval_ms = 100\<rparr>,
     vc_tuning = \<lparr>tun_numa_node = - 1, tun_operation_timeout_ms = 500, tun_memlock_limit = 17179869184\<rparr>,
     vc_precision = PrecisionConfig_default\<rparr>"

text \<open>A configuration argument: none, a dictionary with some content, or another object.\<close>

datatype 'd PyConfig = NoConfig | DictConfig 'd | OtherConfig

text \<open>The constructor replaces a missing configuration by the empty dictionary; only objects that are no dictionary give the defaults.\<close>

fun client_config :: "'d \<Rightarrow> 'd \<Rightarrow> 'd PyConfig \<Rightarrow> 'd" where
  "client_config empty_dict default_dict NoConfig = empty_dict"
| "client_config empty_dict default_dict (DictConfig d) = d"
| "client_config empty_dict default_dict OtherConfig = default_dict"

text \<open>The process-wide native client: created by the first call, returned to every later one.\<close>

definition get_native_client :: "('d \<Rightarrow> (PyExc, 'c) result) \<Rightarrow> 'd \<Rightarrow> 'c option \<Rightarrow> (PyExc, 'c) result \<times> 'c option" where
  "get_native_client rust_client config singleton =
    (case singleton of
       Some c \<Rightarrow> (Ok c, singleton)
     | None \<Rightarrow> (case rust_client config of Inl e \<Rightarrow> (Err e, None) | Inr c \<Rightarrow> (Ok c, Some c)))"

section \<open>vLLM\<close>

record StubMeta =
  stm_block_id :: int
  stm_vaddr :: int
  stm_size_bytes :: int
  stm_gpu_device_id :: int
  stm_rkey :: int
  stm_lkey :: int
  stm_node_addr :: string

definition stub_register_kv_block ::
    "int \<Rightarrow> int \<Rightarrow> int \<Rightarrow> int \<Rightarrow> (int \<rightharpoonup> StubMeta) \<Rightarrow> StubMeta \<times> (int \<rightharpoonup> StubMeta)" where
  "stub_register_kv_block bid vaddr sz gpu_device_id regions =
    (let meta = \<lparr>stm_block_id = bid, stm_vaddr = vaddr, stm_size_bytes = sz, stm_gpu_device_id = gpu_device_id,
                 stm_rkey = 1000 + bid, stm_lkey = 1000 + bid, stm_node_addr = ''127.0.0.1:19001''\<rparr>
     in (meta, regions(bid \<mapsto> meta)))"

definition stub_deregister_memory_region :: "int \<Rightarrow> (int \<rightharpoonup> StubMeta) \<Rightarrow> (int \<rightharpoonup> StubMeta)" where
  "stub_deregister_memory_region rkey regions =
    (\<lambda>bid. case regions bid of Some meta \<Rightarrow> if stm_rkey meta = rkey then None else Some meta | None \<Rightarrow> None)"

record KVConnector =
  kvc_regions :: "int \<rightharpoonup> StubMeta"
  kvc_block_map :: "int \<rightharpoonup> StubMeta"

definition KVConnector_new :: KVConnector where
  "KVConnector_new = \<lparr>kvc_regions = Map.empty, kvc_block_map = Map.empty\<rparr>"

text \<open>A block the engine hands over: its identifier, 0 if it has none, its address and its size.\<close>

type_synonym kv_block = "int \<times> int \<times> int"

definition save_block :: "int \<Rightarrow> kv_block \<Rightarrow> KVConnector \<Rightarrow> KVConnector" where
  "save_block device_id = (\<lambda>(bid, gpu_ptr, sz) c.
     if bid = 0 then c
     else let (meta, regions1) = stub_register_kv_block bid gpu_ptr sz device_id (kvc_regions c)
          in c\<lparr>kvc_regions := regions1, kvc_block_map := (kvc_block_map c)(bid \<mapsto> meta)\<rparr>)"

definition save_kv_layer :: "kv_block list \<Rightarrow> int \<Rightarrow> KVConnector \<Rightarrow> KVConnector" where
  "save_kv_layer kv_blocks device_id = fold (save_block device_id) kv_blocks"

text \<open>
  The reads a load issues: peer, remote address, key, local address and length.  Without a
  worker, the way vLLM itself calls it, nothing is loaded.
\<close>

definition start_load_kv :: "kv_block list \<Rightarrow> int option \<Rightarrow> KVConnector \<Rightarrow> (string \<times> int \<times> int \<times> int \<times> int) list" where
  "start_load_kv kv_blocks worker c =
    (if worker = None then []
     else List.map_filter (\<lambda>(bid, gpu_ptr, sz).
       if bid = 0 then None
       else map_option (\<lambda>meta. (stm_node_addr meta, stm_vaddr meta, stm_rkey meta, gpu_ptr, stm_size_bytes meta)) (kvc_block_map c bid))
       kv_blocks)"

definition unregister_block :: "int \<Rightarrow> KVConnector \<Rightarrow> KVConnector" where
  "unregister_block bid c =
    (case kvc_block_map c bid of
       Some meta \<Rightarrow> c\<lparr>kvc_block_map := (kvc_block_map c)(bid := None),
                      kvc_regions := stub_deregister_memory_region (stm_rkey meta) (kvc_regions c)\<rparr>
     | None \<Rightarrow> c)"

definition stub_close :: "(int \<rightharpoonup> StubMeta) \<Rightarrow> (int \<rightharpoonup> StubMeta)" where
  "stub_close regions = Map.empty"

definition kv_close :: "int list \<Rightarrow> KVConnector \<Rightarrow> KVConnector" where
  "kv_close order c =
    c\<lparr>kvc_regions := stub_close (fold (\<lambda>bid regions. case kvc_block_map c bid of
                                   Some meta \<Rightarrow> stub_deregister_memory_region (stm_rkey meta) regions | None \<Rightarrow> regions)
                                 order (kvc_regions c)),
      kvc_block_map := Map.empty\<rparr>"

text \<open>With the extension, saving calls the method of the wrapped connector by keyword.\<close>

definition native_params :: "string list" where
  "native_params = [''block_id'', ''vaddr'', ''size_bytes'', ''gpu_device_id'']"

definition save_keywords :: "string list" where
  "save_keywords = [''block_id'', ''vaddr'', ''size'', ''gpu_device_id'']"

fun native_save_kv_layer ::
    "(u64 \<times> u64 \<times> u64) list \<Rightarrow> u32 \<Rightarrow> 'addr VirthubVllmConnector \<times> (u64 \<rightharpoonup> PyVllmBlockMeta) \<Rightarrow>
     (PyExc, unit) result \<times> 'addr VirthubVllmConnector \<times> (u64 \<rightharpoonup> PyVllmBlockMeta)" where
  "native_save_kv_layer [] device_id s = (Ok (), s)"
| "native_save_kv_layer ((bid, gpu_ptr, sz) # bs) device_id (c, block_map) =
    (if bid = 0 then native_save_kv_layer bs device_id (c, block_map)
     else case bind_keywords native_params save_keywords of
            Inl e \<Rightarrow> (Err e, c, block_map)
          | Inr _ \<Rightarrow>
              (case py_register_kv_block bid gpu_ptr sz device_id c of
                 (Inl e, c1) \<Rightarrow> (Err (NativeError e), c1, block_map)
               | (Inr meta, c1) \<Rightarrow> native_save_kv_layer bs device_id (c1, block_map(bid \<mapsto> meta))))"

section \<open>LMCache\<close>

text \<open>The metadata a put returns; the client's own table holds metadata with a node address instead.\<close>

record ChunkMeta =
  cm_key :: PyKvBlockKey
  cm_tier :: string
  cm_vaddr :: int
  cm_size_bytes :: int
  cm_gpu_device_id :: int
  cm_rkey :: int
  cm_lkey :: int

text \<open>A region entry: of a put, or the three values a submission writes (key, address, size).\<close>

datatype ChunkRegion = PutRegion StubMeta | DummyRegion int int int

record ChunkClient =
  chc_store :: "PyKvBlockKey \<rightharpoonup> u8 list"
  chc_regions :: "int \<rightharpoonup> ChunkRegion"

record LmCacheAdapter =
  lca_client :: ChunkClient
  lca_block_map :: "int \<rightharpoonup> ChunkMeta"

definition LmCacheAdapter_new :: LmCacheAdapter where
  "LmCacheAdapter_new =
    \<lparr>lca_client = \<lparr>chc_store = Map.empty, chc_regions = Map.empty\<rparr>, lca_block_map = Map.empty\<rparr>"

text \<open>Regions and the adapter's table are indexed by the block number without the namespace.\<close>

definition stub_put_chunk ::
    "PyKvBlockKey \<Rightarrow> string \<Rightarrow> int \<Rightarrow> u8 list \<Rightarrow> int \<Rightarrow> int \<Rightarrow> ChunkClient \<Rightarrow> ChunkMeta \<times> ChunkClient" where
  "stub_put_chunk key tier gpu_device_id payload vaddr len cl =
    (let bid = uint (py_block_id key);
         meta = \<lparr>stm_block_id = bid, stm_vaddr = vaddr, stm_size_bytes = len, stm_gpu_device_id = gpu_device_id,
                 stm_rkey = 2000 + bid, stm_lkey = 2000 + bid, stm_node_addr = ''127.0.0.1:19001''\<rparr>
     in (\<lparr>cm_key = key, cm_tier = tier, cm_vaddr = vaddr, cm_size_bytes = len, cm_gpu_device_id = gpu_device_id,
          cm_rkey = stm_rkey meta, cm_lkey = stm_lkey meta\<rparr>,
         cl\<lparr>chc_regions := (chc_regions cl)(bid \<mapsto> PutRegion meta), chc_store := (chc_store cl)(key \<mapsto> payload)\<rparr>))"

definition stub_get_chunk :: "PyKvBlockKey \<Rightarrow> ChunkClient \<Rightarrow> (PyExc, u8 list) result" where
  "stub_get_chunk key cl =
    (case chc_store cl key of
       Some p \<Rightarrow> Ok p
     | None \<Rightarrow> Err (KeyError (''Chunk '' @ PyKvBlockKey_repr key @ '' not found'')))"

definition stub_remove_chunk :: "PyKvBlockKey \<Rightarrow> ChunkClient \<Rightarrow> ChunkClient" where
  "stub_remove_chunk key cl =
    cl\<lparr>chc_store := (chc_store cl)(key := None), chc_regions := (chc_regions cl)(uint (py_block_id key) := None)\<rparr>"

definition stub_close_chunks :: "ChunkClient \<Rightarrow> ChunkClient" where
  "stub_close_chunks cl = cl\<lparr>chc_store := Map.empty, chc_regions := Map.empty\<rparr>"

definition stub_contains :: "PyKvBlockKey \<Rightarrow> ChunkClient \<Rightarrow> bool" where
  "stub_contains key cl \<longleftrightarrow> chc_store cl key \<noteq> None"

text \<open>The hash of a key is Python's; it only picks the slot of a dummy region.\<close>

definition stub_submit :: "(PyKvBlockKey \<Rightarrow> int) \<Rightarrow> PyKvBlockKey \<Rightarrow> u8 list \<Rightarrow> ChunkClient \<Rightarrow> ChunkClient" where
  "stub_submit hash key payload cl =
    (let h = take_bit 16 (hash key)
     in cl\<lparr>chc_store := (chc_store cl)(key \<mapsto> payload),
           chc_regions := (chc_regions cl)(h \<mapsto> DummyRegion (2000 + h) 0 (int (length payload)))\<rparr>)"

definition py_put :: "PyKvBlockKey \<times> string \<times> int \<times> u8 list \<times> int \<times> int \<Rightarrow> LmCacheAdapter \<Rightarrow> ChunkMeta \<times> LmCacheAdapter" where
  "py_put = (\<lambda>(key, tier, gpu_device_id, payload, vaddr, len) a.
     let (meta, cl) = stub_put_chunk key tier gpu_device_id payload vaddr len (lca_client a)
     in (meta, a\<lparr>lca_client := cl, lca_block_map := (lca_block_map a)(uint (py_block_id key) \<mapsto> meta)\<rparr>))"

definition py_get :: "PyKvBlockKey \<Rightarrow> LmCacheAdapter \<Rightarrow> (PyExc, u8 list) result" where
  "py_get key a = stub_get_chunk key (lca_client a)"

definition py_remove :: "PyKvBlockKey \<Rightarrow> LmCacheAdapter \<Rightarrow> LmCacheAdapter" where
  "py_remove key a =
    a\<lparr>lca_client := stub_remove_chunk key (lca_client a), lca_block_map := (lca_block_map a)(uint (py_block_id key) := None)\<rparr>"

definition py_close :: "LmCacheAdapter \<Rightarrow> LmCacheAdapter" where
  "py_close a = a\<lparr>lca_client := stub_close_chunks (lca_client a), lca_block_map := Map.empty\<rparr>"

definition put_chunks_batch ::
    "(PyKvBlockKey \<times> string \<times> int \<times> u8 list \<times> int \<times> int) list \<Rightarrow> LmCacheAdapter \<Rightarrow> ChunkMeta list \<times> LmCacheAdapter" where
  "put_chunks_batch = map_state py_put"

fun get_chunks_batch :: "PyKvBlockKey list \<Rightarrow> LmCacheAdapter \<Rightarrow> (PyExc, u8 list list) result" where
  "get_chunks_batch [] a = Ok []"
| "get_chunks_batch (k # ks) a =
    (case py_get k a of
       Inl e \<Rightarrow> Err e
     | Inr p \<Rightarrow> (case get_chunks_batch ks a of Inl e \<Rightarrow> Err e | Inr ps \<Rightarrow> Ok (p # ps)))"

definition remove_chunks_batch :: "PyKvBlockKey list \<Rightarrow> LmCacheAdapter \<Rightarrow> LmCacheAdapter" where
  "remove_chunks_batch = fold py_remove"

text \<open>
  The calls into the extension.  The adapter passes the tier as a string; \<open>extract\<close> is the
  extension's conversion of that argument.
\<close>

definition tier_str :: "string \<Rightarrow> string" where
  "tier_str tier = (if tier = ''Dram'' then ''Dram'' else if tier = ''Ssd'' then ''Ssd'' else ''Vram'')"

definition native_put_chunk ::
    "(string \<Rightarrow> (PyExc, PyStorageTier) result) \<Rightarrow> PyKvBlockKey \<Rightarrow> string \<Rightarrow> u32 \<Rightarrow> u8 list \<Rightarrow> u64 \<Rightarrow> u64 \<Rightarrow> 'addr VirthubLmCacheConnector \<Rightarrow>
     (PyExc, PyLmCacheChunkMeta) result \<times> 'addr VirthubLmCacheConnector" where
  "native_put_chunk extract key tier gpu_device_id payload vaddr len c =
    (case extract (tier_str tier) of
       Inl e \<Rightarrow> (Err e, c)
     | Inr t \<Rightarrow>
         (case py_put_chunk key t gpu_device_id payload vaddr len c of
            (Inl e, c1) \<Rightarrow> (Err (NativeError e), c1)
          | (Inr m, c1) \<Rightarrow> (Ok m, c1)))"

definition native_submit ::
    "(string \<Rightarrow> (PyExc, PyStorageTier) result) \<Rightarrow> PyKvBlockKey \<Rightarrow> u8 list \<Rightarrow> 'addr VirthubLmCacheConnector \<Rightarrow>
     (PyExc, PyLmCacheChunkMeta) result \<times> 'addr VirthubLmCacheConnector" where
  "native_submit extract key payload c =
    native_put_chunk extract key ''Dram'' 0 payload 0x7FFF00000000 (of_nat (length payload)) c"

definition native_contains :: "PyKvBlockKey \<Rightarrow> 'addr VirthubLmCacheConnector \<Rightarrow> bool" where
  "native_contains key c = is_ok (py_get_chunk key c)"

section \<open>SGLang\<close>

record PrefixMeta =
  pxm_prefix_hash :: int
  pxm_token_count :: int
  pxm_vaddr :: int
  pxm_size_bytes :: int
  pxm_gpu_device_id :: int
  pxm_rkey :: int
  pxm_lkey :: int

record PrefixClient =
  pxc_regions :: "int \<rightharpoonup> StubMeta"
  pxc_prefix_store :: "int \<rightharpoonup> PrefixMeta"

record SglangAdapter =
  sga_client :: PrefixClient
  sga_block_map :: "int \<rightharpoonup> PrefixMeta"

definition stub_register_prefix_node ::
    "int \<Rightarrow> int \<Rightarrow> int \<Rightarrow> int \<Rightarrow> int \<Rightarrow> PrefixClient \<Rightarrow> PrefixMeta \<times> PrefixClient" where
  "stub_register_prefix_node prefix_hash token_count vaddr size_bytes gpu_device_id cl =
    (let meta = \<lparr>stm_block_id = prefix_hash, stm_vaddr = vaddr, stm_size_bytes = size_bytes, stm_gpu_device_id = gpu_device_id,
                 stm_rkey = 3000 + prefix_hash, stm_lkey = 3000 + prefix_hash, stm_node_addr = ''127.0.0.1:19001''\<rparr>;
         info = \<lparr>pxm_prefix_hash = prefix_hash, pxm_token_count = token_count, pxm_vaddr = vaddr, pxm_size_bytes = size_bytes,
                 pxm_gpu_device_id = gpu_device_id, pxm_rkey = stm_rkey meta, pxm_lkey = stm_lkey meta\<rparr>
     in (info, cl\<lparr>pxc_regions := (pxc_regions cl)(prefix_hash \<mapsto> meta),
                  pxc_prefix_store := (pxc_prefix_store cl)(prefix_hash \<mapsto> info)\<rparr>))"

definition py_register_prefix :: "int \<times> int \<times> int \<times> int \<times> int \<Rightarrow> SglangAdapter \<Rightarrow> PrefixMeta \<times> SglangAdapter" where
  "py_register_prefix = (\<lambda>(prefix_hash, token_count, vaddr, size_bytes, gpu_device_id) a.
     let (meta, cl) = stub_register_prefix_node prefix_hash token_count vaddr size_bytes gpu_device_id (sga_client a)
     in (meta, \<lparr>sga_client = cl, sga_block_map = (sga_block_map a)(prefix_hash \<mapsto> meta)\<rparr>))"

definition register_prefix_nodes_batch ::
    "(int \<times> int \<times> int \<times> int \<times> int) list \<Rightarrow> SglangAdapter \<Rightarrow> PrefixMeta list \<times> SglangAdapter" where
  "register_prefix_nodes_batch = map_state py_register_prefix"

definition py_unregister_prefix :: "int \<Rightarrow> SglangAdapter \<Rightarrow> SglangAdapter" where
  "py_unregister_prefix prefix_hash a =
    (case sga_block_map a prefix_hash of
       Some meta \<Rightarrow>
         let cl = sga_client a
         in \<lparr>sga_client = cl\<lparr>pxc_regions := stub_deregister_memory_region (pxm_rkey meta) (pxc_regions cl)\<rparr>,
             sga_block_map = (sga_block_map a)(prefix_hash := None)\<rparr>
     | None \<Rightarrow> a)"

definition py_sglang_adapter_close :: "SglangAdapter \<Rightarrow> SglangAdapter" where
  "py_sglang_adapter_close a =
    \<lparr>sga_client = \<lparr>pxc_regions = Map.empty, pxc_prefix_store = Map.empty\<rparr>, sga_block_map = Map.empty\<rparr>"

text \<open>With the extension, the key of the adapter's table is deregistered by a method that does nothing.\<close>

definition native_unregister_prefix ::
    "u64 \<Rightarrow> 'addr VirthubSglangConnector \<times> (u64 \<rightharpoonup> PySglangPrefixMeta) \<Rightarrow> 'addr VirthubSglangConnector \<times> (u64 \<rightharpoonup> PySglangPrefixMeta)" where
  "native_unregister_prefix prefix_hash = (\<lambda>(c, block_map).
     case block_map prefix_hash of
       Some meta \<Rightarrow> (snd (py_sglang_deregister (psm_rkey meta) c), block_map(prefix_hash := None))
     | None \<Rightarrow> (c, block_map))"

section \<open>Lemmas\<close>

text \<open>The Python defaults are those of the Rust crate but for the protocol and the locked-memory limit.\<close>

lemma default_configs_differ:
  "default_config_dict =
    VirthubConfig_default\<lparr>vc_transport := (vc_transport VirthubConfig_default)\<lparr>trc_default_protocol := ''tcp''\<rparr>,
      vc_tuning := (vc_tuning VirthubConfig_default)\<lparr>tun_memlock_limit := 17179869184\<rparr>\<rparr>"
  by (simp add: default_config_dict_def VirthubConfig_default_def)

text \<open>The first configuration wins: a later caller gets the client of an earlier one.\<close>

lemma native_client_ignores_config:
  assumes "get_native_client mk d None = (Ok c, s)"
  shows "get_native_client mk d' s = (Ok c, s)"
  using assms by (auto simp: get_native_client_def split: sum.splits)

lemma missing_config_is_empty: "client_config empty_dict default_dict NoConfig = empty_dict"
  by simp

text \<open>Saving through the extension fails on the first block that has a number, with nothing registered.\<close>

lemma save_keywords_refused: "bind_keywords native_params save_keywords = Err (TypeError ''got an unexpected keyword argument size'')"
  by (simp add: bind_keywords_def native_params_def save_keywords_def)

lemma native_save_fails:
  "native_save_kv_layer bs device_id s =
    (if \<exists>(bid, p, n) \<in> set bs. bid \<noteq> 0 then Err (TypeError ''got an unexpected keyword argument size'') else Ok (), s)"
proof (induction bs)
  case (Cons b bs)
  then show ?case
    by (cases b; cases s) (simp add: save_keywords_refused)
qed simp

text \<open>Removing a chunk forgets the region of a chunk with the same number in another namespace, whose payload stays.\<close>

lemma namespaces_share_regions:
  assumes "n \<noteq> m"
  shows "let a1 = snd (py_put (PyKvBlockKey n b, t, g, p, v, l) a); a2 = snd (py_put (PyKvBlockKey m b, t', g', p', v', l') a1);
             a3 = py_remove (PyKvBlockKey n b) a2
         in py_get (PyKvBlockKey m b) a3 = Ok p' \<and> chc_regions (lca_client a3) (uint b) = None \<and> lca_block_map a3 (uint b) = None"
  using assms
  by (simp add: py_put_def py_remove_def py_get_def stub_put_chunk_def stub_remove_chunk_def stub_get_chunk_def Let_def)

text \<open>Through the extension, an unregistered prefix stays registered with the connector and the engine.\<close>

lemma native_unregister_leaks: "fst (native_unregister_prefix h (c, m)) = c"
  by (simp add: native_unregister_prefix_def py_sglang_deregister_def split: option.splits)

text \<open>The adapter's table and the client's regions stay equal, whatever is saved, unregistered and closed.\<close>

datatype KvOp = SaveLayer "kv_block list" int | UnregisterBlock int | CloseConnector "int list"

fun kv_step :: "KvOp \<Rightarrow> KVConnector \<Rightarrow> KVConnector" where
  "kv_step (SaveLayer bs dev) c = save_kv_layer bs dev c"
| "kv_step (UnregisterBlock b) c = unregister_block b c"
| "kv_step (CloseConnector order) c = kv_close order c"

definition kv_inv :: "KVConnector \<Rightarrow> bool" where
  "kv_inv c \<longleftrightarrow> kvc_regions c = kvc_block_map c \<and>
     (\<forall>b m. kvc_block_map c b = Some m \<longrightarrow> b \<noteq> 0 \<and> stm_block_id m = b \<and> stm_rkey m = 1000 + b)"

lemma save_block_inv: "kv_inv c \<Longrightarrow> kv_inv (save_block dev blk c)"
  by (cases blk) (auto simp: kv_inv_def save_block_def stub_register_kv_block_def Let_def)

lemma save_kv_layer_inv: "kv_inv c \<Longrightarrow> kv_inv (save_kv_layer bs dev c)"
  unfolding save_kv_layer_def by (induction bs arbitrary: c) (simp_all add: save_block_inv)

lemma unregister_block_inv:
  assumes "kv_inv c"
  shows "kv_inv (unregister_block b c)" "kvc_block_map (unregister_block b c) = (kvc_block_map c)(b := None)"
proof -
  have "stub_deregister_memory_region (1000 + b) (kvc_block_map c) = (kvc_block_map c)(b := None)"
    using assms by (auto simp: stub_deregister_memory_region_def kv_inv_def fun_eq_iff split: option.splits)
  then show "kv_inv (unregister_block b c)" "kvc_block_map (unregister_block b c) = (kvc_block_map c)(b := None)"
    using assms by (auto simp: unregister_block_def kv_inv_def fun_upd_idem split: option.splits)
qed

lemma kv_close_inv: "kv_inv (kv_close order c)"
  by (simp add: kv_close_def stub_close_def kv_inv_def)

lemma kv_run_inv: "kv_inv (fold kv_step ops KVConnector_new)"
proof -
  have "kv_inv c \<Longrightarrow> kv_inv (kv_step op c)" for op c
    by (cases op) (simp_all add: save_kv_layer_inv unregister_block_inv(1) kv_close_inv)
  then have "kv_inv c \<Longrightarrow> kv_inv (fold kv_step ops c)" for c
    by (induction ops arbitrary: c) simp_all
  moreover have "kv_inv KVConnector_new"
    by (simp add: KVConnector_new_def kv_inv_def)
  ultimately show ?thesis
    by blast
qed

text \<open>A batch of chunks under different keys is read back in order.\<close>

lemma py_put_get: "py_get k (snd (py_put (key, t, g, p, v, l) a)) = (if k = key then Ok p else py_get k a)"
  by (simp add: py_get_def py_put_def stub_put_chunk_def stub_get_chunk_def Let_def)

lemma put_batch_other:
  "k \<notin> fst ` set xs \<Longrightarrow> py_get k (snd (put_chunks_batch xs a)) = py_get k a"
proof (induction xs arbitrary: a)
  case (Cons x xs)
  then show ?case
    by (cases x) (simp add: put_chunks_batch_def py_put_get split: prod.splits)
qed (simp add: put_chunks_batch_def)

lemma chunks_batch_roundtrip:
  assumes "distinct (map fst xs)"
  shows "get_chunks_batch (map fst xs) (snd (put_chunks_batch xs a)) = Ok (map (\<lambda>(k, t, g, p, v, l). p) xs)"
proof -
  have "py_get k (snd (put_chunks_batch xs a)) = Ok p" if "(k, t, g, p, v, l) \<in> set xs" for k t g p v l
    using that assms
  proof (induction xs arbitrary: a)
    case (Cons x xs)
    obtain k' t' g' p' v' l' where x: "x = (k', t', g', p', v', l')"
      by (metis prod.exhaust)
    have step: "snd (put_chunks_batch (x # xs) a) = snd (put_chunks_batch xs (snd (py_put x a)))"
      by (simp add: put_chunks_batch_def split: prod.splits)
    show ?case
    proof (cases "(k, t, g, p, v, l) \<in> set xs")
      case True
      with Cons show ?thesis
        by (simp add: step)
    next
      case False
      with Cons.prems(1) have "x = (k, t, g, p, v, l)"
        by auto
      with Cons.prems(2) show ?thesis
        unfolding step by (simp add: put_batch_other py_put_get)
    qed
  qed simp
  then have "py_get (fst y) (snd (put_chunks_batch xs a)) = Ok ((\<lambda>(k, t, g, p, v, l). p) y)" if "y \<in> set xs" for y
    using that by (cases y) simp
  then have "get_chunks_batch (map fst ys) (snd (put_chunks_batch xs a)) = Ok (map (\<lambda>(k, t, g, p, v, l). p) ys)"
    if "set ys \<subseteq> set xs" for ys
    using that by (induction ys) simp_all
  then show ?thesis
    by simp
qed

text \<open>
  Submitted chunks of one length share one region, since every submission names the same
  dummy address: after one of them is removed, removing the other raises an error.
\<close>

lemma native_submit_put:
  assumes "extract ''Dram'' = Ok t"
    and "put_chunk_with_policy (native_key key) (to_rust t) 0 p 0x7FFF00000000 (of_nat (length p)) None None c = (Ok m, c1)"
  obtains m' where "native_submit extract key p c = (Ok m', c1)" "plm_rkey m' = lm_rkey m"
  using assms by (simp add: native_submit_def native_put_chunk_def tier_str_def py_put_chunk_def put_chunk_def)

lemma submitted_chunks_share_region:
  assumes "rma_inv (lc_rma_engine c)" "unat (pv_next_qp_num (en_provider (lc_rma_engine c))) < 2 ^ 32 - 2"
    and "extract ''Dram'' = Ok t" "\<not> PyKvBlockKey_eq key key'" "length p = length p'" "p \<noteq> []" "length p < 2 ^ 64"
  shows "\<exists>m c1 m' c2 c3 e. native_submit extract key p c = (Ok m, c1) \<and> native_submit extract key' p' c1 = (Ok m', c2) \<and>
    plm_rkey m' = plm_rkey m \<and> py_remove_chunk key c2 = (Ok (), c3) \<and> fst (py_remove_chunk key' c3) = Err e"
proof -
  let ?n = "of_nat (length p) :: u64" and ?en = "lc_rma_engine c"
  let ?reg = "\<lambda>k v n g (tier, payload, pol, sc). put_chunk_with_policy k tier g payload v n pol sc"
  have "unat ?n = length p"
    using assms(7) by (simp add: unat_of_nat)
  then have n: "?n \<noteq> 0"
    using assms(6) by auto
  have k0: "keys_left ?en"
    using assms(2) by (simp add: keys_left_def)
  obtain m r c1 where r: "?reg (native_key key) 0x7FFF00000000 ?n 0 (to_rust t, p, None, None) c = (Ok m, c1)"
    "lc_registered_chunks c1 = (lc_registered_chunks c)(native_key key \<mapsto> r)"
    "rg_vaddr r = 0x7FFF00000000" "rg_length r = ?n" "lm_rkey m = rg_rkey r" "rma_inv (lc_rma_engine c1)"
    "live (lc_rma_engine c1) = (live ?en)(rg_rkey r \<mapsto> r)"
    "\<forall>r'. live ?en (rg_rkey r) = Some r' \<longrightarrow> rg_vaddr r' = 0x7FFF00000000 \<and> rg_length r' = ?n"
    "snd (register_memory_region 0x7FFF00000000 ?n (gpu_opt (lc_config c) 0) ?en) = lc_rma_engine c1"
    by (rule lmcache.register_result [OF assms(1) k0 _ n, of "0x7FFF00000000" "native_key key" 0 "(to_rust t, p, None, None)"]) simp
  have "pv_next_qp_num (en_provider (lc_rma_engine c1)) \<in> {pv_next_qp_num (en_provider ?en), pv_next_qp_num (en_provider ?en) + 1}"
    using register_next [of "0x7FFF00000000" ?n "gpu_opt (lc_config c) 0" ?en] r(9) by simp
  then have k1: "keys_left (lc_rma_engine c1)"
    using assms(2) by (auto simp: keys_left_def unat_word_ariths)
  have b: "lc_registered_chunks c1 (native_key key) = Some r" "covered (lc_rma_engine c1) r"
    by (simp_all add: r(2,7) covered_def)
  obtain r' m' c2 where s: "?reg (native_key key') 0x7FFF00000000 ?n 0 (to_rust t, p', None, None) c1 = (Ok m', c2)"
    "lc_registered_chunks c2 (native_key key') = Some r'" "rg_rkey r' = rg_rkey r" "is_ok (fst (remove_chunk (native_key key) c2))"
    "\<not> is_ok (fst (remove_chunk (native_key key') (snd (remove_chunk (native_key key) c2))))"
    using lmcache.shared_range_dangles [OF r(6) k1 _ n _ b r(3,4), of "native_key key'" 0 "(to_rust t, p', None, None)"] assms(4)
    by auto
  have "lm_rkey m' = rg_rkey r'"
    using s(1,2) by (auto simp: put_chunk_with_policy_def Let_def split: prod.splits sum.splits)
  moreover obtain q where "native_submit extract key p c = (Ok q, c1)" "plm_rkey q = lm_rkey m"
    using native_submit_put [of "extract" t key p c m c1] assms(3) r(1) by auto
  moreover obtain q' where "native_submit extract key' p' c1 = (Ok q', c2)" "plm_rkey q' = lm_rkey m'"
    using native_submit_put [of "extract" t key' p' c1 m' c2] assms(3,5) s(1) by auto
  moreover obtain c3 where c3: "remove_chunk (native_key key) c2 = (Ok (), c3)"
    using s(4) by (cases "remove_chunk (native_key key) c2") (auto simp: is_ok_iff)
  moreover from s(5) c3 obtain e where "fst (remove_chunk (native_key key') c3) = Err e"
    by (cases "fst (remove_chunk (native_key key') c3)") auto
  ultimately show ?thesis
    using r(5) s(3) by (auto simp: py_remove_chunk_def py_error_def fst_map_prod)
qed

end
