(* ===== verification/Py_Adapters.thy ===== *)
theory Py_Adapters
  imports Py_Connectors
begin

text \<open>
  The adapter classes of \<open>bindings/python/virthub\<close> as their callers see them: the selection
  of the vLLM classes at import, the creation of a client from a configuration dictionary,
  the connector caches, and the LMCache and SGLang adapters over either client, the
  extension of \<open>Bindings\<close> or the in-memory one of \<open>Py_Connectors\<close>.
\<close>

section \<open>Import\<close>

text \<open>The lookup of a class in a module: found, missing, or another exception.\<close>

datatype 'c lookup = Found 'c | Missing | Raised PyExc

definition base_candidates :: "(string \<times> string) list" where
  "base_candidates =
    [(''vllm.distributed.kv_transfer.kv_connector.v1.base'', ''KVConnectorBase''),
     (''vllm.distributed.kv_transfer.kv_connector.v1.base'', ''KVConnectorBase_V1''),
     (''vllm.worker.kv_connector'', ''KVConnectorBase''),
     (''vllm.worker.kv_connector'', ''KVConnectorBase_V1'')]"

text \<open>\<open>None\<close> is the class \<open>object\<close>.\<close>

fun first_base :: "(string \<times> string \<Rightarrow> 'c lookup) \<Rightarrow> (string \<times> string) list \<Rightarrow> (PyExc, 'c option) result" where
  "first_base lookup [] = Ok None"
| "first_base lookup (c # cs) =
    (case lookup c of Found k \<Rightarrow> Ok (Some k) | Missing \<Rightarrow> first_base lookup cs | Raised e \<Rightarrow> Err e)"

definition get_kv_connector_base :: "(string \<times> string \<Rightarrow> 'c lookup) \<Rightarrow> (PyExc, 'c option) result" where
  "get_kv_connector_base lookup =
    (case lookup (''vllm.v1.worker.kv_connector_model_runner_mixin'', ''KVConnectorBase'') of
       Found k \<Rightarrow> Ok (Some k)
     | _ \<Rightarrow> first_base lookup base_candidates)"

datatype KVConnectorVersion = VirthubKVConnectorV1 | VirthubKVConnectorV2

definition lower_char :: "char \<Rightarrow> char" where
  "lower_char c = (if 65 \<le> (of_char c :: nat) \<and> (of_char c :: nat) \<le> 90 then char_of ((of_char c :: nat) + 32) else c)"

definition VirthubKVConnector :: "string option \<Rightarrow> KVConnectorVersion" where
  "VirthubKVConnector env =
    (let version_env = map lower_char (case env of Some v \<Rightarrow> v | None \<Rightarrow> ''auto'')
     in if version_env = ''v1'' then VirthubKVConnectorV1
        else if version_env = ''v2'' then VirthubKVConnectorV2
        else VirthubKVConnectorV1)"

section \<open>Clients from dictionaries\<close>

text \<open>
  The native client reads a file: the dictionary is written to a new temporary file, which
  is removed when the constructor returns or raises; that it cannot be removed is ignored.
\<close>

definition config_client ::
    "string \<Rightarrow> (PyExc, unit) result \<Rightarrow> (string \<Rightarrow> (PyExc, 'c) result) \<Rightarrow> bool \<Rightarrow> string set \<Rightarrow> (PyExc, 'c) result \<times> string set" where
  "config_client tmp dumped rust_client unlinked files =
    (let files1 = insert tmp files
     in case dumped of
          Inl e \<Rightarrow> (Err e, files1)
        | Inr _ \<Rightarrow> (rust_client tmp, if unlinked then files1 - {tmp} else files1))"

section \<open>The connector caches\<close>

datatype PyVal =
  PyNone | PyBool bool | PyInt int | PyFloat rat | PyStr string | PyList "PyVal list" | PyDict "(string \<times> PyVal) list"

fun hashable :: "PyVal \<Rightarrow> bool" where
  "hashable (PyList vs) = False"
| "hashable (PyDict kvs) = False"
| "hashable v = True"

text \<open>Numbers that are equal are one key: \<open>True\<close>, \<open>1\<close> and \<open>1.0\<close>.\<close>

fun py_key :: "PyVal \<Rightarrow> PyVal" where
  "py_key (PyBool b) = PyFloat (if b then 1 else 0)"
| "py_key (PyInt i) = PyFloat (of_int i)"
| "py_key v = v"

definition frozenset_items :: "(string \<times> PyVal) list \<Rightarrow> (PyExc, (string \<times> PyVal) set) result" where
  "frozenset_items config =
    (if \<forall>(k, v) \<in> set config. hashable v then Ok ((\<lambda>(k, v). (k, py_key v)) ` set config)
     else Err (TypeError ''unhashable type''))"

definition get_or_create ::
    "((string \<times> PyVal) list \<Rightarrow> (PyExc, 'i) result) \<Rightarrow> (string \<times> PyVal) list \<Rightarrow> ((string \<times> PyVal) set \<rightharpoonup> 'i) \<Rightarrow>
     (PyExc, 'i) result \<times> ((string \<times> PyVal) set \<rightharpoonup> 'i)" where
  "get_or_create initialize config cache =
    (case frozenset_items config of
       Inl e \<Rightarrow> (Err e, cache)
     | Inr key \<Rightarrow>
         (case cache key of
            Some instance \<Rightarrow> (Ok instance, cache)
          | None \<Rightarrow>
              (case initialize config of
                 Inl e \<Rightarrow> (Err e, cache)
               | Inr instance \<Rightarrow> (Ok instance, cache(key \<mapsto> instance)))))"

section \<open>The LMCache adapter\<close>

text \<open>Whether the extension is built is the kind of the client.\<close>

datatype 'addr LmClient = NativeLm "'addr VirthubLmCacheConnector" | StubLm ChunkClient

record 'addr LmAdapter =
  lma_client :: "'addr LmClient"
  lma_block_map :: "int \<rightharpoonup> ChunkMeta"

text \<open>The extension converts the arguments in their order; an integer out of range raises.\<close>

definition py_uint :: "int \<Rightarrow> (PyExc, 'a :: len word) result" where
  "py_uint n = (if 0 \<le> n \<and> n < 2 ^ LENGTH('a) then Ok (of_int n) else Err OverflowError)"

definition put_args ::
    "(string \<Rightarrow> (PyExc, PyStorageTier) result) \<Rightarrow> string \<Rightarrow> int \<Rightarrow> int \<Rightarrow> int \<Rightarrow> (PyExc, PyStorageTier \<times> u32 \<times> u64 \<times> u64) result" where
  "put_args extract tier gpu_device_id vaddr len =
    (case extract (tier_str tier) of Inl e \<Rightarrow> Err e | Inr t \<Rightarrow>
     case py_uint gpu_device_id of Inl e \<Rightarrow> Err e | Inr g \<Rightarrow>
     case py_uint vaddr of Inl e \<Rightarrow> Err e | Inr v \<Rightarrow>
     case py_uint len of Inl e \<Rightarrow> Err e | Inr n \<Rightarrow> Ok (t, g, v, n))"

definition chunk_meta :: "PyKvBlockKey \<Rightarrow> string \<Rightarrow> PyLmCacheChunkMeta \<Rightarrow> ChunkMeta" where
  "chunk_meta key tier m =
    \<lparr>cm_key = key, cm_tier = tier, cm_vaddr = uint (plm_vaddr m), cm_size_bytes = uint (plm_size_bytes m),
     cm_gpu_device_id = uint (plm_gpu_device_id m), cm_rkey = uint (plm_rkey m), cm_lkey = uint (plm_lkey m)\<rparr>"

definition lm_put_chunk ::
    "(string \<Rightarrow> (PyExc, PyStorageTier) result) \<Rightarrow> PyKvBlockKey \<Rightarrow> string \<Rightarrow> int \<Rightarrow> u8 list \<Rightarrow> int \<Rightarrow> int \<Rightarrow> 'addr LmAdapter \<Rightarrow>
     (PyExc, ChunkMeta) result \<times> 'addr LmAdapter" where
  "lm_put_chunk extract key tier gpu_device_id payload vaddr len a =
    (let tracked = (\<lambda>meta. (lma_block_map a)(uint (py_block_id key) \<mapsto> meta)) in
     case lma_client a of
       NativeLm c \<Rightarrow>
         (case put_args extract tier gpu_device_id vaddr len of
            Inl e \<Rightarrow> (Err e, a)
          | Inr (t, g, v, n) \<Rightarrow>
              (case py_put_chunk key t g payload v n c of
                 (Inl e, c1) \<Rightarrow> (Err (NativeError e), a\<lparr>lma_client := NativeLm c1\<rparr>)
               | (Inr m, c1) \<Rightarrow> (Ok (chunk_meta key tier m), \<lparr>lma_client = NativeLm c1, lma_block_map = tracked (chunk_meta key tier m)\<rparr>)))
     | StubLm cl \<Rightarrow>
         (let (meta, cl1) = stub_put_chunk key tier gpu_device_id payload vaddr len cl
          in (Ok meta, \<lparr>lma_client = StubLm cl1, lma_block_map = tracked meta\<rparr>)))"

definition lm_get_chunk :: "PyKvBlockKey \<Rightarrow> 'addr LmAdapter \<Rightarrow> (PyExc, u8 list) result" where
  "lm_get_chunk key a =
    (case lma_client a of
       NativeLm c \<Rightarrow> (case py_get_chunk key c of Inl e \<Rightarrow> Err (NativeError e) | Inr p \<Rightarrow> Ok p)
     | StubLm cl \<Rightarrow> stub_get_chunk key cl)"

text \<open>A removal that raises keeps the entry of the adapter's table.\<close>

definition lm_remove_chunk :: "PyKvBlockKey \<Rightarrow> 'addr LmAdapter \<Rightarrow> (PyExc, unit) result \<times> 'addr LmAdapter" where
  "lm_remove_chunk key a =
    (let forget = (lma_block_map a)(uint (py_block_id key) := None) in
     case lma_client a of
       NativeLm c \<Rightarrow>
         (case py_remove_chunk key c of
            (Inl e, c1) \<Rightarrow> (Err (NativeError e), a\<lparr>lma_client := NativeLm c1\<rparr>)
          | (Inr _, c1) \<Rightarrow> (Ok (), \<lparr>lma_client = NativeLm c1, lma_block_map = forget\<rparr>))
     | StubLm cl \<Rightarrow> (Ok (), \<lparr>lma_client = StubLm (stub_remove_chunk key cl), lma_block_map = forget\<rparr>))"

definition lm_contains :: "PyKvBlockKey \<Rightarrow> 'addr LmAdapter \<Rightarrow> bool" where
  "lm_contains key a = (case lma_client a of NativeLm c \<Rightarrow> is_ok (lm_get_chunk key a) | StubLm cl \<Rightarrow> stub_contains key cl)"

definition lm_submit ::
    "(string \<Rightarrow> (PyExc, PyStorageTier) result) \<Rightarrow> (PyKvBlockKey \<Rightarrow> int) \<Rightarrow> PyKvBlockKey \<Rightarrow> u8 list \<Rightarrow> 'addr LmAdapter \<Rightarrow>
     (PyExc, unit) result \<times> 'addr LmAdapter" where
  "lm_submit extract hash key payload a =
    (case lma_client a of
       NativeLm c \<Rightarrow>
         (let (r, a1) = lm_put_chunk extract key ''Dram'' 0 payload 0x7FFF00000000 (int (length payload)) a
          in (map_sum id (\<lambda>_. ()) r, a1))
     | StubLm cl \<Rightarrow> (Ok (), a\<lparr>lma_client := StubLm (stub_submit hash key payload cl)\<rparr>))"

text \<open>Deregistering by key scans the regions of the in-memory client; the extension does nothing.\<close>

definition stub_deregister_chunk :: "int \<Rightarrow> ChunkClient \<Rightarrow> ChunkClient" where
  "stub_deregister_chunk rkey cl =
    cl\<lparr>chc_regions := (\<lambda>bid. case chc_regions cl bid of
         Some (PutRegion m) \<Rightarrow> if stm_rkey m = rkey then None else chc_regions cl bid
       | Some (DummyRegion k v n) \<Rightarrow> if k = rkey then None else chc_regions cl bid
       | None \<Rightarrow> None)\<rparr>"

definition lm_deregister :: "int \<Rightarrow> 'addr LmAdapter \<Rightarrow> (PyExc, unit) result \<times> 'addr LmAdapter" where
  "lm_deregister rkey a =
    (case lma_client a of
       NativeLm c \<Rightarrow>
         (case py_uint rkey of
            Inl e \<Rightarrow> (Err e, a)
          | Inr k \<Rightarrow> (let (r, c1) = py_lmcache_deregister k c in (map_sum NativeError id r, a\<lparr>lma_client := NativeLm c1\<rparr>)))
     | StubLm cl \<Rightarrow> (Ok (), a\<lparr>lma_client := StubLm (stub_deregister_chunk rkey cl)\<rparr>))"

definition lm_close :: "'addr LmAdapter \<Rightarrow> (PyExc, unit) result \<times> 'addr LmAdapter" where
  "lm_close a =
    (case lma_client a of
       NativeLm c \<Rightarrow>
         (case py_lmcache_close c of
            (Inl e, c1) \<Rightarrow> (Err (NativeError e), a\<lparr>lma_client := NativeLm c1\<rparr>)
          | (Inr _, c1) \<Rightarrow> (Ok (), \<lparr>lma_client = NativeLm c1, lma_block_map = Map.empty\<rparr>))
     | StubLm cl \<Rightarrow> (Ok (), \<lparr>lma_client = StubLm (stub_close_chunks cl), lma_block_map = Map.empty\<rparr>))"

text \<open>Fetching from a peer does nothing with either client.\<close>

definition lm_fetch_remote_chunk ::
    "PyKvBlockKey \<Rightarrow> string \<Rightarrow> int \<Rightarrow> int \<Rightarrow> int \<Rightarrow> int \<Rightarrow> 'addr LmAdapter \<Rightarrow> (PyExc, unit) result \<times> 'addr LmAdapter" where
  "lm_fetch_remote_chunk key peer_addr remote_vaddr remote_rkey local_vaddr size_bytes a = (Ok (), a)"

section \<open>The vLLM adapter\<close>

datatype 'addr KvClient = NativeKv "'addr VirthubVllmConnector" | StubKv "int \<rightharpoonup> StubMeta"

text \<open>What a client returns for a block: a dictionary, or an object of the extension, which cannot be subscripted.\<close>

datatype BlockMeta = DictMeta StubMeta | ObjectMeta PyVllmBlockMeta

fun subscript :: "BlockMeta \<Rightarrow> (PyExc, StubMeta) result" where
  "subscript (DictMeta m) = Ok m"
| "subscript (ObjectMeta m) = Err (TypeError ''object is not subscriptable'')"

text \<open>The last three fields are values the engine hands over; no method reads them.\<close>

record ('v, 'addr) KvAdapter =
  kva_client :: "'addr KvClient"
  kva_block_map :: "int \<rightharpoonup> BlockMeta"
  kva_kv_caches :: "'v option"
  kva_host_xfer_ops :: "'v option"
  kva_handshake_metadata :: "'v option"

definition KvAdapter_new :: "'addr KvClient \<Rightarrow> ('v, 'addr) KvAdapter" where
  "KvAdapter_new client = \<lparr>kva_client = client, kva_block_map = Map.empty, kva_kv_caches = None,
     kva_host_xfer_ops = None, kva_handshake_metadata = None\<rparr>"

definition kva_register_kv_caches :: "'v \<Rightarrow> ('v, 'addr) KvAdapter \<Rightarrow> ('v, 'addr) KvAdapter" where
  "kva_register_kv_caches kv_caches a = a\<lparr>kva_kv_caches := Some kv_caches\<rparr>"

definition kva_set_host_xfer_buffer_ops :: "'v \<Rightarrow> ('v, 'addr) KvAdapter \<Rightarrow> ('v, 'addr) KvAdapter" where
  "kva_set_host_xfer_buffer_ops copy_kv_blocks a = a\<lparr>kva_host_xfer_ops := Some copy_kv_blocks\<rparr>"

definition kva_set_xfer_handshake_metadata :: "'v \<Rightarrow> ('v, 'addr) KvAdapter \<Rightarrow> ('v, 'addr) KvAdapter" where
  "kva_set_xfer_handshake_metadata content a = a\<lparr>kva_handshake_metadata := Some content\<rparr>"

definition kva_get_handshake_metadata :: "('v, 'addr) KvAdapter \<Rightarrow> 'v option" where
  "kva_get_handshake_metadata a = None"

definition kva_get_num_new_matched_tokens :: "'r \<Rightarrow> ('v, 'addr) KvAdapter \<Rightarrow> nat \<times> bool" where
  "kva_get_num_new_matched_tokens request_meta a = (0, False)"

text \<open>The call of the client while saving, by keyword.\<close>

definition register_call :: "int \<Rightarrow> int \<Rightarrow> int \<Rightarrow> int \<Rightarrow> 'addr KvClient \<Rightarrow> (PyExc, BlockMeta) result \<times> 'addr KvClient" where
  "register_call bid vaddr sz device_id client =
    (case client of
       StubKv regions \<Rightarrow>
         (let (meta, regions1) = stub_register_kv_block bid vaddr sz device_id regions in (Ok (DictMeta meta), StubKv regions1))
     | NativeKv c \<Rightarrow>
         (case bind_keywords native_params save_keywords of Inl e \<Rightarrow> (Err e, client) | Inr _ \<Rightarrow>
          case py_uint bid of Inl e \<Rightarrow> (Err e, client) | Inr b \<Rightarrow>
          case py_uint vaddr of Inl e \<Rightarrow> (Err e, client) | Inr v \<Rightarrow>
          case py_uint sz of Inl e \<Rightarrow> (Err e, client) | Inr n \<Rightarrow>
          case py_uint device_id of Inl e \<Rightarrow> (Err e, client) | Inr g \<Rightarrow>
          case py_register_kv_block b v n g c of
            (Inl e, c1) \<Rightarrow> (Err (NativeError e), NativeKv c1)
          | (Inr m, c1) \<Rightarrow> (Ok (ObjectMeta m), NativeKv c1)))"

fun kva_save_kv_layer :: "kv_block list \<Rightarrow> int \<Rightarrow> ('v, 'addr) KvAdapter \<Rightarrow> (PyExc, unit) result \<times> ('v, 'addr) KvAdapter" where
  "kva_save_kv_layer [] device_id a = (Ok (), a)"
| "kva_save_kv_layer ((bid, gpu_ptr, sz) # bs) device_id a =
    (if bid = 0 then kva_save_kv_layer bs device_id a
     else case register_call bid gpu_ptr sz device_id (kva_client a) of
            (Inl e, cl) \<Rightarrow> (Err e, a\<lparr>kva_client := cl\<rparr>)
          | (Inr meta, cl) \<Rightarrow>
              kva_save_kv_layer bs device_id (a\<lparr>kva_client := cl, kva_block_map := (kva_block_map a)(bid \<mapsto> meta)\<rparr>))"

text \<open>A load: the in-memory client does nothing, the extension reads from the peer.\<close>

definition swap_in_call ::
    "(string \<Rightarrow> (string, 'addr) result) \<Rightarrow> StubMeta \<Rightarrow> int \<Rightarrow> 'addr KvClient \<Rightarrow> (PyExc, unit) result \<times> 'addr KvClient" where
  "swap_in_call parse meta gpu_ptr client =
    (case client of
       StubKv regions \<Rightarrow> (Ok (), client)
     | NativeKv c \<Rightarrow>
         (case py_uint (stm_vaddr meta) of Inl e \<Rightarrow> (Err e, client) | Inr rv \<Rightarrow>
          case py_uint (stm_rkey meta) of Inl e \<Rightarrow> (Err e, client) | Inr k \<Rightarrow>
          case py_uint gpu_ptr of Inl e \<Rightarrow> (Err e, client) | Inr lv \<Rightarrow>
          case (py_uint (stm_size_bytes meta) :: (PyExc, u64) result) of Inl e \<Rightarrow> (Err e, client) | Inr n \<Rightarrow>
            let (r, c1) = py_swap_in_remote_block parse (stm_node_addr meta) rv k lv (unat n) c
            in (map_sum NativeError id r, NativeKv c1)))"

fun kva_load_blocks ::
    "(string \<Rightarrow> (string, 'addr) result) \<Rightarrow> kv_block list \<Rightarrow> ('v, 'addr) KvAdapter \<Rightarrow> (PyExc, unit) result \<times> ('v, 'addr) KvAdapter" where
  "kva_load_blocks parse [] a = (Ok (), a)"
| "kva_load_blocks parse ((bid, gpu_ptr, sz) # bs) a =
    (case (if bid = 0 then None else kva_block_map a bid) of
       None \<Rightarrow> kva_load_blocks parse bs a
     | Some entry \<Rightarrow>
         (case subscript entry of
            Inl e \<Rightarrow> (Err e, a)
          | Inr meta \<Rightarrow>
              (case swap_in_call parse meta gpu_ptr (kva_client a) of
                 (Inl e, cl) \<Rightarrow> (Err e, a\<lparr>kva_client := cl\<rparr>)
               | (Inr _, cl) \<Rightarrow> kva_load_blocks parse bs (a\<lparr>kva_client := cl\<rparr>))))"

definition kva_start_load_kv ::
    "(string \<Rightarrow> (string, 'addr) result) \<Rightarrow> kv_block list \<Rightarrow> int option \<Rightarrow> ('v, 'addr) KvAdapter \<Rightarrow>
     (PyExc, unit) result \<times> ('v, 'addr) KvAdapter" where
  "kva_start_load_kv parse kv_blocks worker a = (if worker = None then (Ok (), a) else kva_load_blocks parse kv_blocks a)"

definition deregister_call :: "u64 list \<Rightarrow> int \<Rightarrow> 'addr KvClient \<Rightarrow> (PyExc, unit) result \<times> 'addr KvClient" where
  "deregister_call order rkey client =
    (case client of
       StubKv regions \<Rightarrow> (Ok (), StubKv (stub_deregister_memory_region rkey regions))
     | NativeKv c \<Rightarrow>
         (case py_uint rkey of
            Inl e \<Rightarrow> (Err e, client)
          | Inr k \<Rightarrow> (let (r, c1) = py_vllm_deregister order k c in (map_sum NativeError id r, NativeKv c1))))"

text \<open>The entry is taken out before its key is read, so it is lost when that raises.\<close>

definition kva_unregister_block ::
    "u64 list \<Rightarrow> int \<Rightarrow> ('v, 'addr) KvAdapter \<Rightarrow> (PyExc, unit) result \<times> ('v, 'addr) KvAdapter" where
  "kva_unregister_block order bid a =
    (case kva_block_map a bid of
       None \<Rightarrow> (Ok (), a)
     | Some entry \<Rightarrow>
         let a1 = a\<lparr>kva_block_map := (kva_block_map a)(bid := None)\<rparr>
         in case subscript entry of
              Inl e \<Rightarrow> (Err e, a1)
            | Inr meta \<Rightarrow> (let (r, cl) = deregister_call order (stm_rkey meta) (kva_client a1) in (r, a1\<lparr>kva_client := cl\<rparr>)))"

text \<open>Closing goes through the values of the table, given in their order, and stops at the first that raises.\<close>

fun deregister_values :: "u64 list \<Rightarrow> BlockMeta list \<Rightarrow> 'addr KvClient \<Rightarrow> (PyExc, unit) result \<times> 'addr KvClient" where
  "deregister_values order [] client = (Ok (), client)"
| "deregister_values order (entry # es) client =
    (case subscript entry of
       Inl e \<Rightarrow> (Err e, client)
     | Inr meta \<Rightarrow>
         (case deregister_call order (stm_rkey meta) client of
            (Inl e, cl) \<Rightarrow> (Err e, cl)
          | (Inr _, cl) \<Rightarrow> deregister_values order es cl))"

definition kva_close ::
    "u64 list \<Rightarrow> int list \<Rightarrow> ('v, 'addr) KvAdapter \<Rightarrow> (PyExc, unit) result \<times> ('v, 'addr) KvAdapter" where
  "kva_close order ids a =
    (case deregister_values order (List.map_filter (kva_block_map a) ids) (kva_client a) of
       (Inl e, cl) \<Rightarrow> (Err e, a\<lparr>kva_client := cl\<rparr>)
     | (Inr _, StubKv regions) \<Rightarrow> (Ok (), a\<lparr>kva_client := StubKv (stub_close regions), kva_block_map := Map.empty\<rparr>)
     | (Inr _, NativeKv c) \<Rightarrow>
         (case py_vllm_close order c of
            (Inl e, c1) \<Rightarrow> (Err (NativeError e), a\<lparr>kva_client := NativeKv c1\<rparr>)
          | (Inr _, c1) \<Rightarrow> (Ok (), a\<lparr>kva_client := NativeKv c1, kva_block_map := Map.empty\<rparr>)))"

section \<open>The SGLang adapter\<close>

datatype 'addr SgClient = NativeSg "'addr VirthubSglangConnector" | StubSg PrefixClient

record 'addr SgAdapter =
  sgd_client :: "'addr SgClient"
  sgd_block_map :: "int \<rightharpoonup> PrefixMeta"

definition prefix_args :: "int \<Rightarrow> int \<Rightarrow> int \<Rightarrow> int \<Rightarrow> int \<Rightarrow> (PyExc, u64 \<times> u64 \<times> u64 \<times> u64 \<times> u32) result" where
  "prefix_args prefix_hash token_count vaddr size_bytes gpu_device_id =
    (case py_uint prefix_hash of Inl e \<Rightarrow> Err e | Inr h \<Rightarrow>
     case py_uint token_count of Inl e \<Rightarrow> Err e | Inr t \<Rightarrow>
     case py_uint vaddr of Inl e \<Rightarrow> Err e | Inr v \<Rightarrow>
     case py_uint size_bytes of Inl e \<Rightarrow> Err e | Inr n \<Rightarrow>
     case py_uint gpu_device_id of Inl e \<Rightarrow> Err e | Inr g \<Rightarrow> Ok (h, t, v, n, g))"

definition prefix_meta :: "PySglangPrefixMeta \<Rightarrow> PrefixMeta" where
  "prefix_meta m =
    \<lparr>pxm_prefix_hash = uint (psm_prefix_hash m), pxm_token_count = uint (psm_token_count m), pxm_vaddr = uint (psm_vaddr m),
     pxm_size_bytes = uint (psm_size_bytes m), pxm_gpu_device_id = uint (psm_gpu_device_id m),
     pxm_rkey = uint (psm_rkey m), pxm_lkey = uint (psm_lkey m)\<rparr>"

definition sg_register_prefix_node ::
    "int \<Rightarrow> int \<Rightarrow> int \<Rightarrow> int \<Rightarrow> int \<Rightarrow> 'addr SgAdapter \<Rightarrow> (PyExc, PrefixMeta) result \<times> 'addr SgAdapter" where
  "sg_register_prefix_node prefix_hash token_count vaddr size_bytes gpu_device_id a =
    (let tracked = (\<lambda>meta. (sgd_block_map a)(prefix_hash \<mapsto> meta)) in
     case sgd_client a of
       NativeSg c \<Rightarrow>
         (case prefix_args prefix_hash token_count vaddr size_bytes gpu_device_id of
            Inl e \<Rightarrow> (Err e, a)
          | Inr (h, t, v, n, g) \<Rightarrow>
              (case py_register_prefix_node h t v n g c of
                 (Inl e, c1) \<Rightarrow> (Err (NativeError e), a\<lparr>sgd_client := NativeSg c1\<rparr>)
               | (Inr m, c1) \<Rightarrow> (Ok (prefix_meta m), \<lparr>sgd_client = NativeSg c1, sgd_block_map = tracked (prefix_meta m)\<rparr>)))
     | StubSg cl \<Rightarrow>
         (let (meta, cl1) = stub_register_prefix_node prefix_hash token_count vaddr size_bytes gpu_device_id cl
          in (Ok meta, \<lparr>sgd_client = StubSg cl1, sgd_block_map = tracked meta\<rparr>)))"

definition sg_fetch_remote_prefix ::
    "(string \<Rightarrow> (string, 'addr) result) \<Rightarrow> string \<Rightarrow> int \<Rightarrow> int \<Rightarrow> int \<Rightarrow> int \<Rightarrow> 'addr SgAdapter \<Rightarrow> (PyExc, unit) result \<times> 'addr SgAdapter" where
  "sg_fetch_remote_prefix parse peer_addr remote_vaddr remote_rkey local_vaddr size_bytes a =
    (case sgd_client a of
       NativeSg c \<Rightarrow>
         (case py_uint remote_vaddr of Inl e \<Rightarrow> (Err e, a) | Inr rv \<Rightarrow>
          case py_uint remote_rkey of Inl e \<Rightarrow> (Err e, a) | Inr k \<Rightarrow>
          case py_uint local_vaddr of Inl e \<Rightarrow> (Err e, a) | Inr lv \<Rightarrow>
          case (py_uint size_bytes :: (PyExc, u64) result) of Inl e \<Rightarrow> (Err e, a) | Inr n \<Rightarrow>
            let (r, c1) = py_fetch_remote_prefix parse peer_addr rv k lv (unat n) c
            in (map_sum NativeError id r, a\<lparr>sgd_client := NativeSg c1\<rparr>))
     | StubSg cl \<Rightarrow> (Ok (), a))"

definition sg_deregister :: "int \<Rightarrow> 'addr SgAdapter \<Rightarrow> (PyExc, unit) result \<times> 'addr SgAdapter" where
  "sg_deregister rkey a =
    (case sgd_client a of
       NativeSg c \<Rightarrow>
         (case py_uint rkey of
            Inl e \<Rightarrow> (Err e, a)
          | Inr k \<Rightarrow> (let (r, c1) = py_sglang_deregister k c in (map_sum NativeError id r, a\<lparr>sgd_client := NativeSg c1\<rparr>)))
     | StubSg cl \<Rightarrow>
         (Ok (), a\<lparr>sgd_client := StubSg (cl\<lparr>pxc_regions := stub_deregister_memory_region rkey (pxc_regions cl)\<rparr>)\<rparr>))"

definition sg_unregister_prefix :: "int \<Rightarrow> 'addr SgAdapter \<Rightarrow> (PyExc, unit) result \<times> 'addr SgAdapter" where
  "sg_unregister_prefix prefix_hash a =
    (case sgd_block_map a prefix_hash of
       Some meta \<Rightarrow> sg_deregister (pxm_rkey meta) (a\<lparr>sgd_block_map := (sgd_block_map a)(prefix_hash := None)\<rparr>)
     | None \<Rightarrow> (Ok (), a))"

definition sg_close :: "'addr SgAdapter \<Rightarrow> (PyExc, unit) result \<times> 'addr SgAdapter" where
  "sg_close a =
    (case sgd_client a of
       NativeSg c \<Rightarrow>
         (case py_sglang_close c of
            (Inl e, c1) \<Rightarrow> (Err (NativeError e), a\<lparr>sgd_client := NativeSg c1\<rparr>)
          | (Inr _, c1) \<Rightarrow> (Ok (), \<lparr>sgd_client = NativeSg c1, sgd_block_map = Map.empty\<rparr>))
     | StubSg cl \<Rightarrow>
         (Ok (), \<lparr>sgd_client = StubSg \<lparr>pxc_regions = Map.empty, pxc_prefix_store = Map.empty\<rparr>, sgd_block_map = Map.empty\<rparr>))"

section \<open>Lemmas on import, clients and caches\<close>

text \<open>The plain class \<open>object\<close> is the base only if none of the four candidates can be imported.\<close>

lemma first_base_object: "first_base lookup cs = Ok None \<longleftrightarrow> (\<forall>c \<in> set cs. lookup c = Missing)"
  by (induction cs) (auto split: lookup.splits)

text \<open>The second version is never chosen automatically.\<close>

lemma connector_version_auto:
  "VirthubKVConnector None = VirthubKVConnectorV1"
  "VirthubKVConnector (Some v) = VirthubKVConnectorV2 \<longleftrightarrow> map lower_char v = ''v2''"
  by (auto simp: VirthubKVConnector_def lower_char_def Let_def)

text \<open>The temporary file is gone however the constructor ends, but stays if it cannot be written.\<close>

lemma config_client_files:
  assumes "tmp \<notin> files"
  shows "snd (config_client tmp (Ok ()) rust_client True files) = files"
    "snd (config_client tmp (Err e) rust_client unlinked files) = insert tmp files"
  using assms by (simp_all add: config_client_def)

text \<open>
  A cache hit creates nothing; a configuration with a section or a list cannot be a key at
  all, which every configuration of the system is.
\<close>

lemma cache_hit:
  assumes "get_or_create initialize config cache = (Ok i, cache1)" "frozenset_items config = frozenset_items config'"
  shows "get_or_create initialize' config' cache1 = (Ok i, cache1)"
  using assms by (auto simp: get_or_create_def split: sum.splits option.splits)

lemma sections_not_cached:
  assumes "(k, PyDict kvs) \<in> set config"
  shows "get_or_create initialize config cache = (Err (TypeError ''unhashable type''), cache)"
  using assms by (auto simp: get_or_create_def frozenset_items_def)

lemma flags_share_instance: "frozenset_items [(k, PyBool True)] = frozenset_items [(k, PyInt 1)]"
  by (simp add: frozenset_items_def)

text \<open>Closing with the extension leaves the wrapped connector, with all its regions, as it is.\<close>

lemma sg_close_keeps_regions:
  "sgd_client a = NativeSg c \<Longrightarrow> sg_close a = (Ok (), \<lparr>sgd_client = NativeSg c, sgd_block_map = Map.empty\<rparr>)"
  by (simp add: sg_close_def py_sglang_close_def)

section \<open>The vLLM adapter over either client\<close>

text \<open>Over the in-memory client, saving is the function of \<open>Py_Connectors\<close> and never raises.\<close>

definition kva_of :: "KVConnector \<Rightarrow> ('v, 'addr) KvAdapter \<Rightarrow> bool" where
  "kva_of c a \<longleftrightarrow> kva_client a = StubKv (kvc_regions c) \<and> kva_block_map a = map_option DictMeta \<circ> kvc_block_map c"

lemma kva_save_stub:
  assumes "kva_of c a"
  shows "\<exists>a1. kva_save_kv_layer bs device_id a = (Ok (), a1) \<and> kva_of (save_kv_layer bs device_id c) a1"
  using assms
proof (induction bs arbitrary: a c)
  case Nil
  then show ?case
    by (simp add: save_kv_layer_def)
next
  case (Cons x bs)
  obtain bid gpu_ptr sz where x: "x = (bid, gpu_ptr, sz)"
    by (metis prod.exhaust)
  show ?case
  proof (cases "bid = 0")
    case True
    with Cons x show ?thesis
      by (simp add: save_kv_layer_def save_block_def)
  next
    case False
    obtain meta regions where m: "stub_register_kv_block bid gpu_ptr sz device_id (kvc_regions c) = (meta, regions)"
      by fastforce
    let ?c = "c\<lparr>kvc_regions := regions, kvc_block_map := (kvc_block_map c)(bid \<mapsto> meta)\<rparr>"
    let ?a = "a\<lparr>kva_client := StubKv regions, kva_block_map := (kva_block_map a)(bid \<mapsto> DictMeta meta)\<rparr>"
    have "kva_of ?c ?a"
      using Cons.prems by (simp add: kva_of_def fun_eq_iff)
    from Cons.IH [OF this] False x m Cons.prems show ?thesis
      by (simp add: kva_of_def register_call_def save_kv_layer_def save_block_def)
  qed
qed

text \<open>
  Over the extension the adapter is inert: saving a numbered block raises before it calls
  the extension, so the table stays empty, loads read nothing and removals do nothing.
\<close>

definition kva_inert :: "('v, 'addr) KvAdapter \<Rightarrow> bool" where
  "kva_inert a \<longleftrightarrow> (\<exists>c. kva_client a = NativeKv c) \<and> kva_block_map a = Map.empty"

lemma kva_native_inert:
  assumes "kva_inert a"
  shows "snd (kva_save_kv_layer bs device_id a) = a" "kva_start_load_kv parse bs worker a = (Ok (), a)"
    "kva_unregister_block order bid a = (Ok (), a)" "kva_inert (snd (kva_close order ids a))"
    "\<exists>b \<in> set bs. fst b \<noteq> 0 \<Longrightarrow>
      fst (kva_save_kv_layer bs device_id a) = Err (TypeError ''got an unexpected keyword argument size'')"
proof -
  obtain c where c: "kva_client a = NativeKv c" "kva_block_map a = Map.empty"
    using assms by (auto simp: kva_inert_def)
  have call: "register_call bid v n g (kva_client a) = (Err (TypeError ''got an unexpected keyword argument size''), kva_client a)"
    for bid v n g
    using save_keywords_refused by (simp add: c register_call_def)
  show "snd (kva_save_kv_layer bs device_id a) = a"
    by (induction bs) (auto simp: call)
  show "fst (kva_save_kv_layer bs device_id a) = Err (TypeError ''got an unexpected keyword argument size'')"
    if "\<exists>b \<in> set bs. fst b \<noteq> 0"
    using that by (induction bs) (fastforce simp: call)+
  have "kva_load_blocks parse bs a = (Ok (), a)"
    by (induction bs) (auto simp: c)
  then show "kva_start_load_kv parse bs worker a = (Ok (), a)"
    by (simp add: kva_start_load_kv_def)
  show "kva_unregister_block order bid a = (Ok (), a)"
    by (simp add: kva_unregister_block_def c)
  show "kva_inert (snd (kva_close order ids a))"
    by (auto simp: kva_close_def kva_inert_def c List.map_filter_def split: prod.splits sum.splits)
qed

section \<open>The LMCache adapter is a dictionary\<close>

datatype LmOp =
    LmPut PyKvBlockKey string int "u8 list" int int
  | LmGet PyKvBlockKey
  | LmRemove PyKvBlockKey
  | LmContains PyKvBlockKey
  | LmSubmit PyKvBlockKey "u8 list"
  | LmDeregister int
  | LmClose

datatype LmAnswer =
  LmMeta "(PyExc, ChunkMeta) result" | LmBytes "(PyExc, u8 list) result" | LmFlag bool | LmDone "(PyExc, unit) result"

fun lm_step ::
    "(string \<Rightarrow> (PyExc, PyStorageTier) result) \<Rightarrow> (PyKvBlockKey \<Rightarrow> int) \<Rightarrow> LmOp \<Rightarrow> 'addr LmAdapter \<Rightarrow> LmAnswer \<times> 'addr LmAdapter" where
  "lm_step extract hash (LmPut key tier g p v n) a = map_prod LmMeta id (lm_put_chunk extract key tier g p v n a)"
| "lm_step extract hash (LmGet key) a = (LmBytes (lm_get_chunk key a), a)"
| "lm_step extract hash (LmRemove key) a = map_prod LmDone id (lm_remove_chunk key a)"
| "lm_step extract hash (LmContains key) a = (LmFlag (lm_contains key a), a)"
| "lm_step extract hash (LmSubmit key p) a = map_prod LmDone id (lm_submit extract hash key p a)"
| "lm_step extract hash (LmDeregister rkey) a = map_prod LmDone id (lm_deregister rkey a)"
| "lm_step extract hash LmClose a = map_prod LmDone id (lm_close a)"

text \<open>
  The contract: a dictionary from keys to payloads.  What differs between the clients is
  which puts reach the store, and whether closing empties it.
\<close>

type_synonym chunk_dict = "PyKvBlockKey \<rightharpoonup> u8 list"
datatype DictAnswer = Payload "u8 list option" | Present bool | Silent

fun dict_step :: "(LmOp \<Rightarrow> bool) \<Rightarrow> bool \<Rightarrow> LmOp \<Rightarrow> chunk_dict \<Rightarrow> DictAnswer \<times> chunk_dict" where
  "dict_step stores clears (LmPut key tier g p v n) d = (Silent, if stores (LmPut key tier g p v n) then d(key \<mapsto> p) else d)"
| "dict_step stores clears (LmGet key) d = (Payload (d key), d)"
| "dict_step stores clears (LmRemove key) d = (Silent, d(key := None))"
| "dict_step stores clears (LmContains key) d = (Present (d key \<noteq> None), d)"
| "dict_step stores clears (LmSubmit key p) d = (Silent, if stores (LmSubmit key p) then d(key \<mapsto> p) else d)"
| "dict_step stores clears (LmDeregister rkey) d = (Silent, d)"
| "dict_step stores clears LmClose d = (Silent, if clears then Map.empty else d)"

fun lm_view :: "LmAnswer \<Rightarrow> DictAnswer" where
  "lm_view (LmBytes r) = Payload (case r of Inl e \<Rightarrow> None | Inr p \<Rightarrow> Some p)"
| "lm_view (LmFlag b) = Present b"
| "lm_view _ = Silent"

definition lm_store :: "'addr LmAdapter \<Rightarrow> chunk_dict" where
  "lm_store a = (\<lambda>k. case lm_get_chunk k a of Inl e \<Rightarrow> None | Inr p \<Rightarrow> Some p)"

definition lm_native :: "'addr LmAdapter \<Rightarrow> bool" where
  "lm_native a \<longleftrightarrow> (case lma_client a of NativeLm c \<Rightarrow> True | StubLm cl \<Rightarrow> False)"

fun lm_args_ok :: "(string \<Rightarrow> (PyExc, PyStorageTier) result) \<Rightarrow> LmOp \<Rightarrow> bool" where
  "lm_args_ok extract (LmPut key tier g p v n) = is_ok (put_args extract tier g v n)"
| "lm_args_ok extract (LmSubmit key p) = is_ok (put_args extract ''Dram'' 0 0x7FFF00000000 (int (length p)))"
| "lm_args_ok extract op = True"

definition lm_stores :: "(string \<Rightarrow> (PyExc, PyStorageTier) result) \<Rightarrow> bool \<Rightarrow> LmOp \<Rightarrow> bool" where
  "lm_stores extract native op \<longleftrightarrow> (if native then lm_args_ok extract op else True)"

lemma lm_put_native:
  assumes "lma_client a = NativeLm c"
  shows "\<exists>c1. lma_client (snd (lm_put_chunk extract key tier g p v n a)) = NativeLm c1 \<and>
    (\<forall>k. py_get_chunk k c1 = (if is_ok (put_args extract tier g v n) \<and> k = key then Ok p else py_get_chunk k c))"
proof (cases "put_args extract tier g v n")
  case (Inr args)
  then obtain t g' v' n' where args: "put_args extract tier g v n = Ok (t, g', v', n')"
    by (metis prod.exhaust)
  have "lma_client (snd (lm_put_chunk extract key tier g p v n a)) = NativeLm (snd (py_put_chunk key t g' p v' n' c))"
    by (simp add: lm_put_chunk_def assms args Let_def split: prod.splits sum.splits)
  with args show ?thesis
    by (auto simp: py_chunk_roundtrip PyKvBlockKey_eq_def PyKvBlockKey.expand)
qed (simp add: lm_put_chunk_def assms)

lemma py_remove_get:
  "py_get_chunk k (snd (py_remove_chunk key c)) =
    (if k = key then Err (PyKeyError (show_lmcache_error (ChunkNotFound (native_key key)))) else py_get_chunk k c)"
  by (auto simp: py_get_chunk_def py_remove_chunk_def chunk_store py_error_def PyKvBlockKey_eq_def PyKvBlockKey.expand)

lemma native_store:
  assumes "lma_client a = NativeLm c"
  shows "lm_native a" "lm_store a = (\<lambda>k. case py_get_chunk k c of Inl e \<Rightarrow> None | Inr p \<Rightarrow> Some p)"
  using assms by (auto simp: lm_native_def lm_store_def lm_get_chunk_def split: sum.splits)

lemma stub_store:
  assumes "lma_client a = StubLm cl"
  shows "\<not> lm_native a" "lm_store a = chc_store cl"
  using assms by (auto simp: lm_native_def lm_store_def lm_get_chunk_def stub_get_chunk_def fun_eq_iff split: option.splits)

lemma native_put_store:
  assumes "lma_client a = NativeLm c"
  shows "lm_native (snd (lm_put_chunk extract key tier g p v n a))"
    "lm_store (snd (lm_put_chunk extract key tier g p v n a)) =
      (if is_ok (put_args extract tier g v n) then (lm_store a)(key \<mapsto> p) else lm_store a)"
proof -
  obtain c1 where c1: "lma_client (snd (lm_put_chunk extract key tier g p v n a)) = NativeLm c1"
    "\<forall>k. py_get_chunk k c1 = (if is_ok (put_args extract tier g v n) \<and> k = key then Ok p else py_get_chunk k c)"
    using lm_put_native [OF assms] by blast
  show "lm_native (snd (lm_put_chunk extract key tier g p v n a))"
    by (rule native_store [OF c1(1)])
  show "lm_store (snd (lm_put_chunk extract key tier g p v n a)) =
      (if is_ok (put_args extract tier g v n) then (lm_store a)(key \<mapsto> p) else lm_store a)"
    by (auto simp: native_store(2) [OF c1(1)] native_store(2) [OF assms] c1(2))
qed

lemma native_remove_store:
  assumes "lma_client a = NativeLm c"
  shows "lm_native (snd (lm_remove_chunk key a))" "lm_store (snd (lm_remove_chunk key a)) = (lm_store a)(key := None)"
proof -
  have c1: "lma_client (snd (lm_remove_chunk key a)) = NativeLm (snd (py_remove_chunk key c))"
    by (simp add: lm_remove_chunk_def assms Let_def split: prod.splits sum.splits)
  show "lm_native (snd (lm_remove_chunk key a))" "lm_store (snd (lm_remove_chunk key a)) = (lm_store a)(key := None)"
    using native_store [OF c1] by (auto simp: native_store(2) [OF assms] py_remove_get)
qed

lemma lm_step_dict:
  "lm_native (snd (lm_step extract hash op a)) = lm_native a \<and>
   lm_view (fst (lm_step extract hash op a)) = fst (dict_step (lm_stores extract (lm_native a)) (\<not> lm_native a) op (lm_store a)) \<and>
   lm_store (snd (lm_step extract hash op a)) = snd (dict_step (lm_stores extract (lm_native a)) (\<not> lm_native a) op (lm_store a))"
proof (cases "lma_client a")
  case (NativeLm c)
  note native = native_store [OF NativeLm]
  show ?thesis
  proof (cases op)
    case (LmPut key tier g p v n)
    then show ?thesis
      using native(1) native_put_store [OF NativeLm, of "extract" key tier g p v n] by (simp add: lm_stores_def)
  next
    case (LmRemove key)
    then show ?thesis
      using native(1) native_remove_store [OF NativeLm] by simp
  next
    case (LmSubmit key p)
    then show ?thesis
      using native(1) native_put_store [OF NativeLm, of "extract" key "''Dram''" 0 p "0x7FFF00000000" "int (length p)"]
      by (simp add: lm_submit_def NativeLm lm_stores_def case_prod_beta Let_def)
  qed (use native in \<open>auto simp: lm_store_def lm_contains_def NativeLm lm_get_chunk_def lm_deregister_def lm_close_def
        lm_native_def py_lmcache_deregister_def py_lmcache_close_def is_ok_def split: sum.splits\<close>)
next
  case (StubLm cl)
  note stub = stub_store [OF StubLm]
  show ?thesis
  proof (cases op)
    case (LmGet key)
    then show ?thesis
      by (simp add: lm_store_def)
  qed (use stub in \<open>auto simp: lm_store_def lm_native_def StubLm lm_put_chunk_def stub_put_chunk_def lm_remove_chunk_def
        stub_remove_chunk_def lm_contains_def stub_contains_def lm_submit_def stub_submit_def lm_deregister_def
        stub_deregister_chunk_def lm_close_def stub_close_chunks_def lm_get_chunk_def stub_get_chunk_def lm_stores_def
        Let_def fun_eq_iff split: option.splits\<close>)
qed

text \<open>
  C21: the LMCache adapter is a dictionary.  Over any sequence of calls, and with either
  client, every read returns the payload of the last put that reached the store unless the
  key was removed since, and a membership test says whether a read would succeed.  With
  the extension a put or submission reaches the store exactly if its arguments convert,
  even when registering the memory fails, and closing keeps all chunks; the in-memory
  client stores every put and closing empties it.
\<close>

theorem lm_adapter_refines_dict:
  "map lm_view (fst (map_state (lm_step extract hash) ops a)) =
   fst (map_state (dict_step (lm_stores extract (lm_native a)) (\<not> lm_native a)) ops (lm_store a))"
proof (induction ops arbitrary: a)
  case (Cons op ops)
  with lm_step_dict [of "extract" hash op a] show ?case
    by simp
qed simp

end
