(* ===== verification/Attention.thy ===== *)
theory Attention
  imports Prelude
begin

text \<open>
  The paged attention kernels, from \<open>kernels/basic_format/paged_attention_basic.cu\<close>,
  \<open>kernels/enhanced_format/paged_attention_enhanced.cu\<close>,
  \<open>kernels/btkv_format/paged_attention_btkv.cu\<close> and their Triton counterparts in
  \<open>kernels/triton\<close>.  A launch runs one thread for each token, query head and sequence, in
  any order.  Arrays are functions from offsets, and the offsets are natural numbers: the
  products the sources form are taken to fit their \<open>int\<close>.  Floats are elements of an
  ordered field, exact and without rounding; \<open>expf\<close> and the conversions from and to half
  precision are arguments, and \<open>-INFINITY\<close>, the start of the running maximum, is \<open>None\<close>.
\<close>

section \<open>The running softmax\<close>

definition BLOCK_SIZE :: nat where "BLOCK_SIZE = 16"
definition HEAD_DIM :: nat where "HEAD_DIM = 128"

text \<open>Running maximum, sum of exponentials and accumulated values.\<close>

type_synonym 'a softmax = "'a option \<times> 'a \<times> 'a list"

definition online_update :: "('a :: linordered_field \<Rightarrow> 'a) \<Rightarrow> 'a \<Rightarrow> 'a list \<Rightarrow> 'a softmax \<Rightarrow> 'a softmax" where
  "online_update expf score v = (\<lambda>(max_score, sum_exp, acc).
     let new_max = (case max_score of None \<Rightarrow> score | Some m \<Rightarrow> max m score);
         exp_old = (case max_score of None \<Rightarrow> 0 | Some m \<Rightarrow> expf (m - new_max));
         exp_new = expf (score - new_max)
     in (Some new_max, sum_exp * exp_old + exp_new, map2 (\<lambda>a x. a + exp_new * x) acc v))"

text \<open>One token: the product of the query with the key, scaled, then the update with the value.\<close>

definition attend_token ::
    "('a :: linordered_field \<Rightarrow> 'a) \<Rightarrow> 'a list \<Rightarrow> 'a \<Rightarrow> (nat \<Rightarrow> 'a) \<Rightarrow> (nat \<Rightarrow> 'a) \<Rightarrow> 'a softmax \<Rightarrow> 'a softmax" where
  "attend_token expf query scl k_val v_val =
    online_update expf (fold (\<lambda>d score. score + query ! d * k_val d) [0..<length query] 0 * scl)
      (map v_val [0..<length query])"

text \<open>The blocks of a sequence and the tokens of a block.\<close>

definition attend_blocks :: "(nat \<Rightarrow> nat \<Rightarrow> 's \<Rightarrow> 's) \<Rightarrow> (nat \<Rightarrow> nat) \<Rightarrow> nat \<Rightarrow> 's \<Rightarrow> 's" where
  "attend_blocks token block context_len =
    fold (\<lambda>block_idx st.
      let physical_block = block block_idx;
          start_token = block_idx * BLOCK_SIZE;
          tokens_in_block = min BLOCK_SIZE (context_len - start_token)
      in fold (token physical_block) [0..<tokens_in_block] st)
    [0..<(context_len + BLOCK_SIZE - 1) div BLOCK_SIZE]"

section \<open>The kernels\<close>

record ('a, 'h) attn =
  at_q :: "nat \<Rightarrow> 'h"
  at_block_tables :: "nat \<Rightarrow> nat"
  at_context_lens :: "nat \<Rightarrow> nat"
  at_max_blocks_per_seq :: nat
  at_num_heads :: nat
  at_num_kv_heads :: nat
  at_head_dim :: nat
  at_scale :: 'a

text \<open>
  A thread of a CUDA kernel.  The formats differ only in the dequantized key and value of
  a block, a head, a token and a dimension.
\<close>

definition paged_attention_kernel ::
    "('a :: linordered_field \<Rightarrow> 'a) \<Rightarrow> ('h \<Rightarrow> 'a) \<Rightarrow> ('a \<Rightarrow> 'h) \<Rightarrow>
     (nat \<Rightarrow> nat \<Rightarrow> nat \<Rightarrow> nat \<Rightarrow> 'a) \<Rightarrow> (nat \<Rightarrow> nat \<Rightarrow> nat \<Rightarrow> nat \<Rightarrow> 'a) \<Rightarrow>
     ('a, 'h) attn \<Rightarrow> nat \<times> nat \<times> nat \<Rightarrow> (nat \<Rightarrow> 'h) \<Rightarrow> (nat \<Rightarrow> 'h)" where
  "paged_attention_kernel expf half2float float2half k_val v_val a = (\<lambda>(token_idx, head_idx, seq_idx) out.
    if at_context_lens a seq_idx \<le> token_idx then out
    else
      let kv_head = head_idx div (at_num_heads a div at_num_kv_heads a);
          ptr = (token_idx * at_num_heads a + head_idx) * at_head_dim a;
          query = map (\<lambda>i. half2float (at_q a (ptr + i))) [0..<HEAD_DIM];
          (max_score, sum_exp, acc) =
            attend_blocks (\<lambda>b t. attend_token expf query (at_scale a) (k_val b kv_head t) (v_val b kv_head t))
              (\<lambda>block_idx. at_block_tables a (seq_idx * at_max_blocks_per_seq a + block_idx))
              (at_context_lens a seq_idx) (None, 0, replicate HEAD_DIM 0);
          inv_sum = 1 / sum_exp
      in fold (\<lambda>d out. out(ptr + d := float2half (acc ! d * inv_sum))) [0..<HEAD_DIM] out)"

record 'a basic_cache =
  bc_k_cache :: "nat \<Rightarrow> u8"
  bc_v_cache :: "nat \<Rightarrow> u8"
  bc_k_scales :: "nat \<Rightarrow> 'a"
  bc_k_zero_points :: "nat \<Rightarrow> 'a"
  bc_v_scales :: "nat \<Rightarrow> 'a"
  bc_v_zero_points :: "nat \<Rightarrow> 'a"

definition float_u8 :: "u8 \<Rightarrow> 'a :: linordered_field" where
  "float_u8 q = of_nat (unat q)"

text \<open>Affine dequantization; keys and values are both token-major.\<close>

definition basic_k_val :: "'a :: linordered_field basic_cache \<Rightarrow> nat \<Rightarrow> nat \<Rightarrow> nat \<Rightarrow> nat \<Rightarrow> nat \<Rightarrow> nat \<Rightarrow> 'a" where
  "basic_k_val c num_kv_heads hdim b kv_head t d =
    bc_k_scales c (b * num_kv_heads + kv_head) *
      (float_u8 (bc_k_cache c ((b * num_kv_heads + kv_head) * BLOCK_SIZE * hdim + t * hdim + d)) -
       bc_k_zero_points c (b * num_kv_heads + kv_head))"

definition basic_v_val :: "'a :: linordered_field basic_cache \<Rightarrow> nat \<Rightarrow> nat \<Rightarrow> nat \<Rightarrow> nat \<Rightarrow> nat \<Rightarrow> nat \<Rightarrow> 'a" where
  "basic_v_val c num_kv_heads hdim b kv_head t d =
    bc_v_scales c (b * num_kv_heads + kv_head) *
      (float_u8 (bc_v_cache c ((b * num_kv_heads + kv_head) * BLOCK_SIZE * hdim + t * hdim + d)) -
       bc_v_zero_points c (b * num_kv_heads + kv_head))"

definition paged_attention_basic_kernel ::
    "('a :: linordered_field \<Rightarrow> 'a) \<Rightarrow> ('h \<Rightarrow> 'a) \<Rightarrow> ('a \<Rightarrow> 'h) \<Rightarrow> 'a basic_cache \<Rightarrow>
     ('a, 'h) attn \<Rightarrow> nat \<times> nat \<times> nat \<Rightarrow> (nat \<Rightarrow> 'h) \<Rightarrow> (nat \<Rightarrow> 'h)" where
  "paged_attention_basic_kernel expf half2float float2half c a =
    paged_attention_kernel expf half2float float2half
      (basic_k_val c (at_num_kv_heads a) HEAD_DIM) (basic_v_val c (at_num_kv_heads a) HEAD_DIM) a"

record e8m0_cache =
  ec_k_cache :: "nat \<Rightarrow> u8"
  ec_v_cache :: "nat \<Rightarrow> u8"
  ec_k_scales_e8m0 :: "nat \<Rightarrow> u8"
  ec_v_scales_e8m0 :: "nat \<Rightarrow> u8"

text \<open>Power-of-two scales; the values of a block are stored dimension by dimension.\<close>

definition e8m0_k_val :: "e8m0_cache \<Rightarrow> nat \<Rightarrow> nat \<Rightarrow> nat \<Rightarrow> nat \<Rightarrow> nat \<Rightarrow> nat \<Rightarrow> 'a :: linordered_field" where
  "e8m0_k_val c num_kv_heads hdim b kv_head t d =
    2 ^ unat (ec_k_scales_e8m0 c (b * num_kv_heads + kv_head)) *
      float_u8 (ec_k_cache c ((b * num_kv_heads + kv_head) * BLOCK_SIZE * hdim + t * hdim + d))"

definition e8m0_v_val :: "e8m0_cache \<Rightarrow> nat \<Rightarrow> nat \<Rightarrow> nat \<Rightarrow> nat \<Rightarrow> nat \<Rightarrow> nat \<Rightarrow> 'a :: linordered_field" where
  "e8m0_v_val c num_kv_heads hdim b kv_head t d =
    2 ^ unat (ec_v_scales_e8m0 c (b * num_kv_heads + kv_head)) *
      float_u8 (ec_v_cache c ((b * num_kv_heads + kv_head) * hdim * BLOCK_SIZE + t + d * BLOCK_SIZE))"

definition paged_attention_enhanced_kernel ::
    "('a :: linordered_field \<Rightarrow> 'a) \<Rightarrow> ('h \<Rightarrow> 'a) \<Rightarrow> ('a \<Rightarrow> 'h) \<Rightarrow> e8m0_cache \<Rightarrow>
     ('a, 'h) attn \<Rightarrow> nat \<times> nat \<times> nat \<Rightarrow> (nat \<Rightarrow> 'h) \<Rightarrow> (nat \<Rightarrow> 'h)" where
  "paged_attention_enhanced_kernel expf half2float float2half c a =
    paged_attention_kernel expf half2float float2half
      (e8m0_k_val c (at_num_kv_heads a) HEAD_DIM) (e8m0_v_val c (at_num_kv_heads a) HEAD_DIM) a"

definition paged_attention_btkv_kernel ::
    "('a :: linordered_field \<Rightarrow> 'a) \<Rightarrow> ('h \<Rightarrow> 'a) \<Rightarrow> ('a \<Rightarrow> 'h) \<Rightarrow> e8m0_cache \<Rightarrow>
     ('a, 'h) attn \<Rightarrow> nat \<times> nat \<times> nat \<Rightarrow> (nat \<Rightarrow> 'h) \<Rightarrow> (nat \<Rightarrow> 'h)" where
  "paged_attention_btkv_kernel expf half2float float2half c a =
    paged_attention_kernel expf half2float float2half
      (e8m0_k_val c (at_num_kv_heads a) HEAD_DIM) (e8m0_v_val c (at_num_kv_heads a) HEAD_DIM) a"

text \<open>A launch: the threads of the grid, in the order the device takes.\<close>

definition attn_grid :: "nat \<Rightarrow> nat \<Rightarrow> nat \<Rightarrow> (nat \<times> nat \<times> nat) set" where
  "attn_grid num_tokens num_heads num_seqs = {..<num_tokens} \<times> {..<num_heads} \<times> {..<num_seqs}"

definition launch_paged_attention ::
    "(nat \<times> nat \<times> nat \<Rightarrow> (nat \<Rightarrow> 'h) \<Rightarrow> (nat \<Rightarrow> 'h)) \<Rightarrow> (nat \<times> nat \<times> nat) list \<Rightarrow> (nat \<Rightarrow> 'h) \<Rightarrow> (nat \<Rightarrow> 'h)" where
  "launch_paged_attention run order out = fold run order out"

section \<open>The Triton kernels\<close>

text \<open>
  The same loops with the head dimension of the call in place of the constant, the product
  summed by the reduction of the language, and one division in place of the product with
  the inverse.
\<close>

definition triton_attend_token ::
    "('a :: linordered_field \<Rightarrow> 'a) \<Rightarrow> 'a list \<Rightarrow> 'a \<Rightarrow> (nat \<Rightarrow> 'a) \<Rightarrow> (nat \<Rightarrow> 'a) \<Rightarrow> 'a softmax \<Rightarrow> 'a softmax" where
  "triton_attend_token expf q scl k_vals v_vals =
    online_update expf (sum_list (map2 (*) q (map k_vals [0..<length q])) * scl) (map v_vals [0..<length q])"

definition triton_attention_kernel ::
    "('a :: linordered_field \<Rightarrow> 'a) \<Rightarrow> ('h \<Rightarrow> 'a) \<Rightarrow> ('a \<Rightarrow> 'h) \<Rightarrow>
     (nat \<Rightarrow> nat \<Rightarrow> nat \<Rightarrow> nat \<Rightarrow> 'a) \<Rightarrow> (nat \<Rightarrow> nat \<Rightarrow> nat \<Rightarrow> nat \<Rightarrow> 'a) \<Rightarrow>
     ('a, 'h) attn \<Rightarrow> nat \<times> nat \<times> nat \<Rightarrow> (nat \<Rightarrow> 'h) \<Rightarrow> (nat \<Rightarrow> 'h)" where
  "triton_attention_kernel expf to_float32 to_float16 k_val v_val a = (\<lambda>(token_idx, head_idx, seq_idx) out.
    if at_context_lens a seq_idx \<le> token_idx then out
    else
      let kv_head = head_idx div (at_num_heads a div at_num_kv_heads a);
          off = (token_idx * at_num_heads a + head_idx) * at_head_dim a;
          q = map (\<lambda>i. to_float32 (at_q a (off + i))) [0..<at_head_dim a];
          (max_score, sum_exp, acc) =
            attend_blocks (\<lambda>b t. triton_attend_token expf q (at_scale a) (k_val b kv_head t) (v_val b kv_head t))
              (\<lambda>block_idx. at_block_tables a (seq_idx * at_max_blocks_per_seq a + block_idx))
              (at_context_lens a seq_idx) (None, 0, replicate (at_head_dim a) 0)
      in fold (\<lambda>d out. out(off + d := to_float16 (acc ! d / sum_exp))) [0..<at_head_dim a] out)"

definition triton_attention_basic_kernel ::
    "('a :: linordered_field \<Rightarrow> 'a) \<Rightarrow> ('h \<Rightarrow> 'a) \<Rightarrow> ('a \<Rightarrow> 'h) \<Rightarrow> 'a basic_cache \<Rightarrow>
     ('a, 'h) attn \<Rightarrow> nat \<times> nat \<times> nat \<Rightarrow> (nat \<Rightarrow> 'h) \<Rightarrow> (nat \<Rightarrow> 'h)" where
  "triton_attention_basic_kernel expf to_float32 to_float16 c a =
    triton_attention_kernel expf to_float32 to_float16
      (basic_k_val c (at_num_kv_heads a) (at_head_dim a)) (basic_v_val c (at_num_kv_heads a) (at_head_dim a)) a"

definition triton_attention_enhanced_kernel ::
    "('a :: linordered_field \<Rightarrow> 'a) \<Rightarrow> ('h \<Rightarrow> 'a) \<Rightarrow> ('a \<Rightarrow> 'h) \<Rightarrow> e8m0_cache \<Rightarrow>
     ('a, 'h) attn \<Rightarrow> nat \<times> nat \<times> nat \<Rightarrow> (nat \<Rightarrow> 'h) \<Rightarrow> (nat \<Rightarrow> 'h)" where
  "triton_attention_enhanced_kernel expf to_float32 to_float16 c a =
    triton_attention_kernel expf to_float32 to_float16
      (e8m0_k_val c (at_num_kv_heads a) (at_head_dim a)) (e8m0_v_val c (at_num_kv_heads a) (at_head_dim a)) a"

definition triton_attention_btkv_kernel ::
    "('a :: linordered_field \<Rightarrow> 'a) \<Rightarrow> ('h \<Rightarrow> 'a) \<Rightarrow> ('a \<Rightarrow> 'h) \<Rightarrow> e8m0_cache \<Rightarrow>
     ('a, 'h) attn \<Rightarrow> nat \<times> nat \<times> nat \<Rightarrow> (nat \<Rightarrow> 'h) \<Rightarrow> (nat \<Rightarrow> 'h)" where
  "triton_attention_btkv_kernel expf to_float32 to_float16 c a =
    triton_attention_kernel expf to_float32 to_float16
      (e8m0_k_val c (at_num_kv_heads a) (at_head_dim a)) (e8m0_v_val c (at_num_kv_heads a) (at_head_dim a)) a"

section \<open>Lemmas\<close>

text \<open>The two nested loops visit the tokens of the sequence in order.\<close>

lemma block_tokens:
  "concat (map (\<lambda>b. map (Pair b) [0..<min BLOCK_SIZE (n - b * BLOCK_SIZE)]) [0..<m]) =
    map (\<lambda>i. (i div BLOCK_SIZE, i mod BLOCK_SIZE)) [0..<min n (m * BLOCK_SIZE)]"
proof (induction m)
  case (Suc m)
  let ?k = "min BLOCK_SIZE (n - m * BLOCK_SIZE)"
  have "[0..<min n (Suc m * BLOCK_SIZE)] = [0..<min n (m * BLOCK_SIZE)] @ map (\<lambda>t. t + m * BLOCK_SIZE) [0..<?k]"
  proof (cases "n \<le> m * BLOCK_SIZE")
    case False
    then have "min n (Suc m * BLOCK_SIZE) = m * BLOCK_SIZE + ?k" "min n (m * BLOCK_SIZE) = m * BLOCK_SIZE"
      by simp_all
    then show ?thesis
      by (simp add: upt_add_eq_append [of 0 "m * BLOCK_SIZE" ?k] map_add_upt add.commute)
  qed simp
  moreover have "map ((\<lambda>i. (i div BLOCK_SIZE, i mod BLOCK_SIZE)) \<circ> (\<lambda>t. t + m * BLOCK_SIZE)) [0..<?k] = map (Pair m) [0..<?k]"
    by (auto simp: BLOCK_SIZE_def)
  ultimately show ?case
    using Suc by simp
qed simp

lemma fold_nested:
  "fold (\<lambda>b. fold (f b) (g b)) bs s = fold (\<lambda>(b, t). f b t) (concat (map (\<lambda>b. map (Pair b) (g b)) bs)) s"
  by (induction bs arbitrary: s) (simp_all add: fold_map comp_def)

lemma attend_blocks_tokens:
  "attend_blocks token block n s = fold (\<lambda>i. token (block (i div BLOCK_SIZE)) (i mod BLOCK_SIZE)) [0..<n] s"
proof -
  have "n \<le> (n + BLOCK_SIZE - 1) div BLOCK_SIZE * BLOCK_SIZE"
    by (simp add: BLOCK_SIZE_def)
  then have "min n ((n + BLOCK_SIZE - 1) div BLOCK_SIZE * BLOCK_SIZE) = n"
    by simp
  then show ?thesis
    by (simp add: attend_blocks_def Let_def fold_nested [where f = "\<lambda>b. token (block b)"] block_tokens fold_map comp_def)
qed


text \<open>
  What the running update computes over the reals: the maximum, the sum relative to it,
  and values weighted relative to the maximum of the scores seen so far.
\<close>

definition run_tokens :: "nat \<Rightarrow> (nat \<Rightarrow> real) \<Rightarrow> (nat \<Rightarrow> nat \<Rightarrow> real) \<Rightarrow> nat \<Rightarrow> real softmax" where
  "run_tokens w s v n = fold (\<lambda>i. online_update exp (s i) (map (v i) [0..<w])) [0..<n] (None, 0, replicate w 0)"

lemma run_tokens_step:
  "run_tokens w s v (Suc n) = online_update exp (s n) (map (v n) [0..<w]) (run_tokens w s v n)"
  by (simp add: run_tokens_def)

lemma run_tokens_spec:
  "run_tokens w s v (Suc n) =
    (Some (Max (s ` {..n})), \<Sum>i\<le>n. exp (s i - Max (s ` {..n})),
     map (\<lambda>d. \<Sum>i\<le>n. exp (s i - Max (s ` {..i})) * v i d) [0..<w])"
proof (induction n)
  case 0
  show ?case
    by (simp add: run_tokens_step) (auto simp: run_tokens_def online_update_def list_eq_iff_nth_eq)
next
  case (Suc n)
  have m: "Max (s ` {..Suc n}) = max (Max (s ` {..n})) (s (Suc n))"
    by (simp add: atMost_Suc Max_insert max.commute)
  have "(\<Sum>i\<le>n. exp (s i - Max (s ` {..n}))) * exp (Max (s ` {..n}) - M) = (\<Sum>i\<le>n. exp (s i - M))" for M
    by (simp add: sum_distrib_right flip: exp_add)
  then show ?case
    unfolding run_tokens_step [of _ _ _ "Suc n"] Suc
    by (auto simp: online_update_def Let_def m list_eq_iff_nth_eq)
qed

text \<open>The softmax average of the first values, what attention means to compute.\<close>

definition softmax_value :: "(nat \<Rightarrow> real) \<Rightarrow> (nat \<Rightarrow> real) \<Rightarrow> nat \<Rightarrow> real" where
  "softmax_value s x n = (\<Sum>i<n. exp (s i) * x i) / (\<Sum>i<n. exp (s i))"

definition kernel_value :: "(nat \<Rightarrow> real) \<Rightarrow> (nat \<Rightarrow> real) \<Rightarrow> nat \<Rightarrow> real" where
  "kernel_value s x n = (\<Sum>i<n. exp (s i - Max (s ` {..i})) * x i) / (\<Sum>i<n. exp (s i - Max (s ` {..<n})))"

lemma softmax_shift: "softmax_value s x n = (\<Sum>i<n. exp (s i - M) * x i) / (\<Sum>i<n. exp (s i - M))"
proof -
  have "(\<Sum>i<n. exp (s i - M) * x i) = exp (- M) * (\<Sum>i<n. exp (s i) * x i)"
    "(\<Sum>i<n. exp (s i - M)) = exp (- M) * (\<Sum>i<n. exp (s i))"
    by (simp_all add: sum_distrib_left exp_diff exp_minus field_simps)
  then show ?thesis
    by (simp add: softmax_value_def)
qed

lemma exp_sum_pos: "0 < n \<Longrightarrow> 0 < (\<Sum>i<(n::nat). exp (s i - (M :: real)))"
  by (intro sum_pos) auto

text \<open>The two agree for all values exactly if no score exceeds the first.\<close>

lemma kernel_value_iff:
  assumes "0 < n"
  shows "(\<forall>x. kernel_value s x n = softmax_value s x n) \<longleftrightarrow> (\<forall>i<n. s i \<le> s 0)"
proof
  assume first: "\<forall>i<n. s i \<le> s 0"
  have "Max (s ` {..i}) = s 0" if "i < n" for i
    using first that by (intro Max_eqI) auto
  moreover have "Max (s ` {..<n}) = s 0"
    using first assms by (intro Max_eqI) auto
  ultimately show "\<forall>x. kernel_value s x n = softmax_value s x n"
    by (simp add: kernel_value_def softmax_shift [of s _ n "s 0"])
next
  assume "\<forall>x. kernel_value s x n = softmax_value s x n"
  then have eq: "kernel_value s (\<lambda>i. of_bool (i = 0)) n = softmax_value s (\<lambda>i. of_bool (i = 0)) n"
    by blast
  let ?M = "Max (s ` {..<n})"
  have one: "(\<Sum>i<n. f i * of_bool (i = 0)) = f 0" for f :: "nat \<Rightarrow> real"
    using assms by (simp add: of_bool_def if_distrib sum.delta cong: if_cong)
  have "1 = exp (s 0 - ?M)"
    using eq exp_sum_pos [OF assms, of s ?M]
    by (simp add: kernel_value_def softmax_shift [of s _ n ?M] one)
  then have "s 0 = ?M"
    by (metis exp_eq_one_iff eq_iff_diff_eq_0)
  then show "\<forall>i<n. s i \<le> s 0"
    by simp
qed


text \<open>Scores and values of the tokens of a thread's sequence, by their number.\<close>

definition attn_row :: "('a, 'h) attn \<Rightarrow> nat \<Rightarrow> nat \<Rightarrow> nat" where
  "attn_row a t h = (t * at_num_heads a + h) * at_head_dim a"

definition attn_block :: "('a, 'h) attn \<Rightarrow> nat \<Rightarrow> nat \<Rightarrow> nat" where
  "attn_block a sq i = at_block_tables a (sq * at_max_blocks_per_seq a + i div BLOCK_SIZE)"

definition attn_score ::
    "('h \<Rightarrow> real) \<Rightarrow> (nat \<Rightarrow> nat \<Rightarrow> nat \<Rightarrow> nat \<Rightarrow> real) \<Rightarrow> (real, 'h) attn \<Rightarrow> nat \<times> nat \<times> nat \<Rightarrow> nat \<Rightarrow> real" where
  "attn_score half2float k_val a = (\<lambda>(t, h, sq) i.
    (\<Sum>d<HEAD_DIM. half2float (at_q a (attn_row a t h + d)) *
       k_val (attn_block a sq i) (h div (at_num_heads a div at_num_kv_heads a)) (i mod BLOCK_SIZE) d) * at_scale a)"

definition attn_value :: "(nat \<Rightarrow> nat \<Rightarrow> nat \<Rightarrow> nat \<Rightarrow> real) \<Rightarrow> (real, 'h) attn \<Rightarrow> nat \<times> nat \<times> nat \<Rightarrow> nat \<Rightarrow> nat \<Rightarrow> real" where
  "attn_value v_val a = (\<lambda>(t, h, sq) i d.
    v_val (attn_block a sq i) (h div (at_num_heads a div at_num_kv_heads a)) (i mod BLOCK_SIZE) d)"

lemma fold_write: "fold (\<lambda>d out. out(p + d := f d)) [0..<n] out = (\<lambda>x. if p \<le> x \<and> x < p + n then f (x - p) else out x)"
  by (induction n) (auto simp: fun_eq_iff)

lemma fold_add_upt: "fold (\<lambda>d s. s + f d) [0..<n] (x :: 'a :: comm_monoid_add) = x + (\<Sum>d<n. f d)"
  by (induction n) (simp_all add: lessThan_Suc ac_simps)

text \<open>What one thread writes.\<close>

lemma kernel_row:
  assumes "t < at_context_lens a sq"
  shows "paged_attention_kernel exp half2float float2half k_val v_val a (t, h, sq) out =
    (\<lambda>x. if attn_row a t h \<le> x \<and> x < attn_row a t h + HEAD_DIM
      then float2half (kernel_value (attn_score half2float k_val a (t, h, sq))
        (\<lambda>i. attn_value v_val a (t, h, sq) i (x - attn_row a t h)) (at_context_lens a sq))
      else out x)"
proof -
  let ?kv = "h div (at_num_heads a div at_num_kv_heads a)"
  let ?q = "map (\<lambda>i. half2float (at_q a (attn_row a t h + i))) [0..<HEAD_DIM]"
  let ?s = "attn_score half2float k_val a (t, h, sq)" and ?v = "attn_value v_val a (t, h, sq)"
  obtain n where n: "at_context_lens a sq = Suc n"
    using assms by (cases "at_context_lens a sq") auto
  have "fold (\<lambda>d score. score + ?q ! d * f d) [0..<HEAD_DIM] 0 =
      (\<Sum>d<HEAD_DIM. half2float (at_q a (attn_row a t h + d)) * f d)" for f
    unfolding fold_add_upt by simp
  then have "attend_token exp ?q (at_scale a) (k_val (attn_block a sq i) ?kv (i mod BLOCK_SIZE))
      (v_val (attn_block a sq i) ?kv (i mod BLOCK_SIZE)) = online_update exp (?s i) (map (?v i) [0..<HEAD_DIM])" for i
    by (simp add: attend_token_def attn_score_def attn_value_def)
  then have run: "attend_blocks (\<lambda>b u. attend_token exp ?q (at_scale a) (k_val b ?kv u) (v_val b ?kv u))
      (\<lambda>b. at_block_tables a (sq * at_max_blocks_per_seq a + b)) (Suc n) (None, 0, replicate HEAD_DIM 0) =
      run_tokens HEAD_DIM ?s ?v (Suc n)"
    unfolding attend_blocks_tokens run_tokens_def attn_block_def by simp
  show ?thesis
    using assms
    by (auto simp: paged_attention_kernel_def Let_def n run [unfolded attn_row_def n] run_tokens_spec fold_write
        kernel_value_def lessThan_Suc_atMost attn_row_def fun_eq_iff)
qed


lemma kernel_idle: "at_context_lens a sq \<le> t \<Longrightarrow> paged_attention_kernel expf h2f f2h k v a (t, h, sq) out = out"
  by (simp add: paged_attention_kernel_def)

text \<open>Rows of different tokens or heads do not overlap when the head dimension is the constant.\<close>

lemma rows_disjoint:
  assumes "at_head_dim a = HEAD_DIM" "h < at_num_heads a" "h' < at_num_heads a"
    and "attn_row a t h \<le> x" "x < attn_row a t h + HEAD_DIM" "attn_row a t' h' \<le> x" "x < attn_row a t' h' + HEAD_DIM"
  shows "t = t' \<and> h = h'"
proof -
  have "x div HEAD_DIM = u * at_num_heads a + g"
    if "attn_row a u g \<le> x" "x < attn_row a u g + HEAD_DIM" for u g
    using that assms(1) by (intro div_nat_eqI) (auto simp: attn_row_def algebra_simps)
  then have "t * at_num_heads a + h = t' * at_num_heads a + h'"
    using assms(4-7) by metis
  then have "(t * at_num_heads a + h) div at_num_heads a = (t' * at_num_heads a + h') div at_num_heads a"
    "(t * at_num_heads a + h) mod at_num_heads a = (t' * at_num_heads a + h') mod at_num_heads a"
    by simp_all
  then show ?thesis
    using assms(2,3) by simp
qed

lemma launch_row:
  assumes "at_head_dim a = HEAD_DIM" "set order \<subseteq> attn_grid nt (at_num_heads a) 1" "(t, h, 0) \<in> set order"
    and "t < at_context_lens a 0" "d < HEAD_DIM"
  shows "launch_paged_attention (paged_attention_kernel exp h2f f2h k v a) order out (attn_row a t h + d) =
    f2h (kernel_value (attn_score h2f k a (t, h, 0)) (\<lambda>i. attn_value v a (t, h, 0) i d) (at_context_lens a 0))"
  using assms(2,3)
proof (induction order rule: rev_induct)
  case (snoc c order)
  obtain t' h' where c: "c = (t', h', 0)" "h' < at_num_heads a"
    using snoc.prems(1) by (cases c) (auto simp: attn_grid_def)
  have h: "h < at_num_heads a"
    using snoc.prems by (auto simp: attn_grid_def)
  show ?case
  proof (cases "c = (t, h, 0)")
    case True
    with assms(4,5) show ?thesis
      by (simp add: launch_paged_attention_def kernel_row)
  next
    case False
    then have "\<not> (attn_row a t' h' \<le> attn_row a t h + d \<and> attn_row a t h + d < attn_row a t' h' + HEAD_DIM)"
      using rows_disjoint [OF assms(1) h c(2), of t "attn_row a t h + d" t'] assms(5) c(1) by auto
    then have "paged_attention_kernel exp h2f f2h k v a c out' (attn_row a t h + d) = out' (attn_row a t h + d)" for out'
      by (cases "t' < at_context_lens a 0") (auto simp: c(1) kernel_row kernel_idle)
    with snoc False show ?thesis
      by (auto simp: launch_paged_attention_def)
  qed
qed simp

text \<open>Over an exact field the Triton kernels compute what the CUDA kernels compute.\<close>

lemma triton_token: "triton_attend_token expf q scl k v = attend_token expf q scl k v"
proof -
  have "map2 (*) q (map k [0..<length q]) = map (\<lambda>d. q ! d * k d) [0..<length q]"
    by (rule nth_equalityI) simp_all
  then have "sum_list (map2 (*) q (map k [0..<length q])) = (\<Sum>d<length q. q ! d * k d)"
    by (simp only: interv_sum_list_conv_sum_set_nat set_upt atLeast0LessThan)
  then show ?thesis
    by (simp add: triton_attend_token_def attend_token_def fold_add_upt)
qed

lemma triton_kernel:
  assumes "at_head_dim a = HEAD_DIM"
  shows "triton_attention_kernel expf h2f f2h k v a = paged_attention_kernel expf h2f f2h k v a"
  by (simp add: fun_eq_iff triton_attention_kernel_def paged_attention_kernel_def triton_token assms divide_inverse)

text \<open>The offset of a row does not depend on the sequence, so the threads of a second sequence overwrite the first.\<close>

lemma sequences_overwrite:
  fixes a :: "(real, 'h) attn"
  assumes "t < at_context_lens a sq'" "attn_row a t h \<le> x" "x < attn_row a t h + HEAD_DIM"
  shows "paged_attention_kernel exp h2f f2h k v a (t, h, sq') (paged_attention_kernel exp h2f f2h k v a (t, h, sq) out) x =
    paged_attention_kernel exp h2f f2h k v a (t, h, sq') out x"
  using assms by (simp add: kernel_row)

text \<open>With a smaller head dimension the rows of neighbouring heads overlap.\<close>

lemma small_heads_overlap:
  assumes "at_head_dim a < HEAD_DIM"
  shows "attn_row a t (Suc h) < attn_row a t h + HEAD_DIM"
  using assms by (simp add: attn_row_def algebra_simps)

section \<open>Properties\<close>

text \<open>
  C16: what an attention launch writes.  Over exact reals, for one sequence and the head
  dimension the kernels are compiled for, in whatever order the threads run, every row of
  a token inside the context and a head holds, in each dimension, the values of the tokens
  weighted by the exponential of their score relative to the greatest score so far and
  divided by the sum of the exponentials relative to the greatest of all scores.  This is
  the softmax average if no token has a greater score than the first.
\<close>

theorem attention_launch_output:
  assumes "at_head_dim a = HEAD_DIM" "set order = attn_grid nt (at_num_heads a) 1"
    and "t < nt" "t < at_context_lens a 0" "h < at_num_heads a" "d < HEAD_DIM"
  shows "launch_paged_attention (paged_attention_kernel exp h2f f2h k v a) order out (attn_row a t h + d) =
      f2h (kernel_value (attn_score h2f k a (t, h, 0)) (\<lambda>i. attn_value v a (t, h, 0) i d) (at_context_lens a 0)) \<and>
    ((\<forall>i < at_context_lens a 0. attn_score h2f k a (t, h, 0) i \<le> attn_score h2f k a (t, h, 0) 0) \<longrightarrow>
      launch_paged_attention (paged_attention_kernel exp h2f f2h k v a) order out (attn_row a t h + d) =
      f2h (softmax_value (attn_score h2f k a (t, h, 0)) (\<lambda>i. attn_value v a (t, h, 0) i d) (at_context_lens a 0)))"
proof -
  have "(t, h, 0) \<in> set order"
    using assms(2,3,5) by (simp add: attn_grid_def)
  note row = launch_row [OF assms(1) equalityD1 [OF assms(2)] this assms(4,6)]
  have "0 < at_context_lens a 0"
    using assms(4) by simp
  with row show ?thesis
    by (metis kernel_value_iff)
qed

text \<open>A query of one dimension, two tokens with scores 0 and 1, and the value 1 at the first.\<close>

definition sample_attn :: "(real, real) attn" where
  "sample_attn = \<lparr>at_q = (\<lambda>i. of_bool (i = 0)), at_block_tables = (\<lambda>_. 0), at_context_lens = (\<lambda>_. 2),
     at_max_blocks_per_seq = 1, at_num_heads = 1, at_num_kv_heads = 1, at_head_dim = HEAD_DIM, at_scale = 1\<rparr>"

definition sample_cache :: e8m0_cache where
  "sample_cache = \<lparr>ec_k_cache = (\<lambda>i. of_bool (i = HEAD_DIM)), ec_v_cache = (\<lambda>i. of_bool (i = 0)),
     ec_k_scales_e8m0 = (\<lambda>_. 0), ec_v_scales_e8m0 = (\<lambda>_. 0)\<rparr>"

lemma sample_scores:
  "attn_score id (e8m0_k_val sample_cache 1 HEAD_DIM) sample_attn (0, 0, 0) i = of_bool (i mod BLOCK_SIZE = 1)"
proof -
  have "(\<Sum>d<HEAD_DIM. of_bool (d = 0) * f d) = (\<Sum>d<HEAD_DIM. if d = 0 then f 0 else 0)" for f :: "nat \<Rightarrow> real"
    by (rule sum.cong) auto
  then have "(\<Sum>d<HEAD_DIM. of_bool (d = 0) * f d) = f 0" for f :: "nat \<Rightarrow> real"
    by (simp add: HEAD_DIM_def)
  then show ?thesis
    by (simp add: attn_score_def attn_row_def attn_block_def sample_attn_def sample_cache_def e8m0_k_val_def float_u8_def
        HEAD_DIM_def)
qed

lemma sample_values:
  "attn_value (e8m0_v_val sample_cache 1 HEAD_DIM) sample_attn (0, 0, 0) i 0 = of_bool (i mod BLOCK_SIZE = 0)"
  by (simp add: attn_value_def attn_block_def sample_attn_def sample_cache_def e8m0_v_val_def float_u8_def)

lemma two_tokens:
  "kernel_value s x 2 = (x 0 + exp (s 1 - max (s 0) (s 1)) * x 1) / (exp (s 0 - max (s 0) (s 1)) + exp (s 1 - max (s 0) (s 1)))"
  "softmax_value s x 2 = (exp (s 0) * x 0 + exp (s 1) * x 1) / (exp (s 0) + exp (s 1))"
proof -
  have "{..<2::nat} = {0, 1}" "{..1::nat} = {0, 1}"
    by auto
  then show "kernel_value s x 2 = (x 0 + exp (s 1 - max (s 0) (s 1)) * x 1) / (exp (s 0 - max (s 0) (s 1)) + exp (s 1 - max (s 0) (s 1)))"
    "softmax_value s x 2 = (exp (s 0) * x 0 + exp (s 1) * x 1) / (exp (s 0) + exp (s 1))"
    by (simp_all add: kernel_value_def softmax_value_def)
qed

lemma HEAD_DIM_pos: "0 < HEAD_DIM"
  by (simp add: HEAD_DIM_def)

lemma at_sample: "at_num_heads sample_attn = 1" "at_head_dim sample_attn = HEAD_DIM" "at_context_lens sample_attn sq = 2"
  by (simp_all add: sample_attn_def)

theorem attention_launch_output_witness:
  "launch_paged_attention
     (paged_attention_kernel exp id id (e8m0_k_val sample_cache 1 HEAD_DIM) (e8m0_v_val sample_cache 1 HEAD_DIM) sample_attn)
     [(1, 0, 0), (0, 0, 0)] (\<lambda>_. 0) 0 = 1 / (1 + exp (-1)) \<and>
   softmax_value (attn_score id (e8m0_k_val sample_cache 1 HEAD_DIM) sample_attn (0, 0, 0))
     (\<lambda>i. attn_value (e8m0_v_val sample_cache 1 HEAD_DIM) sample_attn (0, 0, 0) i 0) 2 = 1 / (1 + exp 1)"
proof -
  have "set [(1, 0, 0), (0, 0, 0)] = attn_grid 2 (at_num_heads sample_attn) 1"
    by (auto simp: attn_grid_def sample_attn_def)
  from attention_launch_output [OF _ this, of 0 0 0 id id "e8m0_k_val sample_cache 1 HEAD_DIM" "e8m0_v_val sample_cache 1 HEAD_DIM" "\<lambda>_. 0"]
  show ?thesis
    by (simp add: two_tokens sample_scores sample_values at_sample attn_row_def BLOCK_SIZE_def HEAD_DIM_pos
        del: One_nat_def)
qed

text \<open>
  C33: when the running softmax is right.  The loop that the six attention kernels share
  scales the sum of the exponentials down when a greater score arrives but not the
  values accumulated so far.  Over exact reals its quotient is the softmax average for
  all values if and only if no score is greater than the first.
\<close>

theorem online_softmax_exact_iff:
  assumes "0 < n"
  shows "(\<forall>v. let (m, sum_exp, acc) = fold (\<lambda>i. online_update exp (s i) [v i]) [0..<n] (None, 0, [0])
          in acc ! 0 * (1 / sum_exp) = softmax_value s v n) \<longleftrightarrow> (\<forall>i<n. s i \<le> s 0)"
proof -
  obtain k where k: "n = Suc k"
    using assms by (cases n) auto
  have "fold (\<lambda>i. online_update exp (s i) [v i]) [0..<n] (None, 0, [0]) = run_tokens 1 s (\<lambda>i d. v i) n" for v
    by (simp add: run_tokens_def)
  then have "(let (m, sum_exp, acc) = fold (\<lambda>i. online_update exp (s i) [v i]) [0..<n] (None, 0, [0])
      in acc ! 0 * (1 / sum_exp)) = kernel_value s v n" for v
    by (simp add: k run_tokens_spec kernel_value_def lessThan_Suc_atMost)
  then show ?thesis
    using kernel_value_iff [OF assms, of s] by (simp add: case_prod_unfold Let_def)
qed

theorem online_softmax_exact_iff_witness:
  "\<not> (\<forall>v. let (m, sum_exp, acc) = fold (\<lambda>i. online_update exp (real i) [v i]) [0..<2] (None, 0, [0])
          in acc ! 0 * (1 / sum_exp) = softmax_value real v 2)"
proof -
  have "\<not> (\<forall>i<2. real i \<le> real 0)"
    by (auto intro: exI [of _ 1])
  then show ?thesis
    using online_softmax_exact_iff [of 2 real] by simp
qed



end
