(* ===== verification/Kernels.thy ===== *)
theory Kernels
  imports Precision Quantization Attention
begin

text \<open>
  The device code around the attention kernels: the policy word of
  \<open>kernels/common/psp_kv_types.h\<close>, the scalar quantizers of
  \<open>kernels/common/quantization_utils.cuh\<close>, the dequantization kernels of
  \<open>kernels/basic_format\<close>, \<open>enhanced_format\<close> and \<open>btkv_format\<close>, and the tile descriptors of
  \<open>kernels/btkv_format/tma_descriptors.cu\<close>.  Where the host crates have a routine for the
  same format, the two are compared.  Sizes and indices are natural numbers: the products
  the sources form are taken to fit their \<open>int\<close>.
\<close>

section \<open>The policy word\<close>

definition psp_policy_pack :: "u8 \<Rightarrow> bool \<Rightarrow> u32 \<Rightarrow> u32" where
  "psp_policy_pack precision_level use_residual active_head_mask =
    ((ucast precision_level :: u32) AND 0x3) OR push_bit 2 (of_bool use_residual) OR
    push_bit 8 (active_head_mask AND 0xFFFFFF)"

definition psp_policy_get_precision :: "u32 \<Rightarrow> u8" where
  "psp_policy_get_precision policy = ucast (policy AND 0x3)"

definition psp_policy_get_residual :: "u32 \<Rightarrow> bool" where
  "psp_policy_get_residual policy \<longleftrightarrow> drop_bit 2 policy AND 1 \<noteq> 0"

definition psp_policy_get_head_mask :: "u32 \<Rightarrow> u32" where
  "psp_policy_get_head_mask policy = drop_bit 8 policy AND 0xFFFFFF"

section \<open>Scalar quantizers\<close>

text \<open>
  The device quantizers, on the bit pattern of the float.  The mantissa is a byte, which
  the shift promotes to 32 bits.
\<close>

definition cu_quantize_fp8_e4m3 :: "u32 \<Rightarrow> u8" where
  "cu_quantize_fp8_e4m3 bits =
    (if f32_is_nan bits then 0x7F
     else if f32_is_zero bits then 0
     else
       (let sign = (ucast (drop_bit 31 bits AND 1) :: u8) in
        if f32_abs_is_inf bits then push_bit 7 sign OR 0x78
        else
          (let f32_exp = uint (drop_bit 23 bits AND 0xFF) - 127;
               f32_mant = bits AND 0x7FFFFF;
               fp8_exp = f32_exp + 7;
               mant = (ucast (drop_bit 20 f32_mant) :: u8);
               round_bit = (ucast (drop_bit 19 f32_mant AND 1) :: u8);
               sticky = (f32_mant AND 0x7FFFF \<noteq> 0);
               up = (round_bit \<noteq> 0 \<and> (sticky \<or> mant AND 1 \<noteq> 0));
               carry = (up \<and> mant + 1 = 8);
               mant = (if carry then 0 else if up then mant + 1 else mant);
               fp8_exp = (if carry then fp8_exp + 1 else fp8_exp)
           in if fp8_exp \<ge> 15 then push_bit 7 sign OR 0x78
              else if fp8_exp \<le> 0
              then (if fp8_exp < -7 then push_bit 7 sign
                    else push_bit 7 sign OR ucast (drop_bit (nat (1 - fp8_exp)) (8 OR (ucast mant :: u32)) AND 7))
              else push_bit 7 sign OR push_bit 3 (of_int fp8_exp AND 0xF) OR mant)))"

definition cu_quantize_fp8_e5m2 :: "u32 \<Rightarrow> u8" where
  "cu_quantize_fp8_e5m2 bits =
    (if f32_is_nan bits then 0x7F
     else if f32_is_zero bits then 0
     else
       (let sign = (ucast (drop_bit 31 bits AND 1) :: u8) in
        if f32_abs_is_inf bits then push_bit 7 sign OR 0x7C
        else
          (let f32_exp = uint (drop_bit 23 bits AND 0xFF) - 127;
               f32_mant = bits AND 0x7FFFFF;
               fp8_exp = f32_exp + 15;
               mant = (ucast (drop_bit 21 f32_mant) :: u8);
               round_bit = (ucast (drop_bit 20 f32_mant AND 1) :: u8);
               sticky = (f32_mant AND 0xFFFFF \<noteq> 0);
               up = (round_bit \<noteq> 0 \<and> (sticky \<or> mant AND 1 \<noteq> 0));
               carry = (up \<and> mant + 1 = 4);
               mant = (if carry then 0 else if up then mant + 1 else mant);
               fp8_exp = (if carry then fp8_exp + 1 else fp8_exp)
           in if fp8_exp \<ge> 31 then push_bit 7 sign OR 0x7C
              else if fp8_exp \<le> 0
              then (if fp8_exp < -1 then push_bit 7 sign
                    else push_bit 7 sign OR ucast (drop_bit (nat (1 - fp8_exp)) (4 OR (ucast mant :: u32)) AND 3))
              else push_bit 7 sign OR push_bit 2 (of_int fp8_exp AND 0x1F) OR mant)))"

definition cu_quantize_fp4_e2m1 :: "u32 \<Rightarrow> u8" where
  "cu_quantize_fp4_e2m1 bits =
    (if f32_is_nan bits then 7
     else if f32_is_zero bits then 0
     else
       (let sign = (ucast (drop_bit 31 bits AND 1) :: u8) in
        if f32_abs_is_inf bits then push_bit 3 sign OR 6
        else
          (let f32_exp = uint (drop_bit 23 bits AND 0xFF) - 127;
               f32_mant = bits AND 0x7FFFFF;
               fp4_exp = f32_exp + 1;
               mant = (ucast (drop_bit 22 f32_mant) :: u8);
               round_bit = (ucast (drop_bit 21 f32_mant AND 1) :: u8);
               sticky = (f32_mant AND 0x1FFFFF \<noteq> 0);
               up = (round_bit \<noteq> 0 \<and> (sticky \<or> mant AND 1 \<noteq> 0));
               carry = (up \<and> mant + 1 = 2);
               mant = (if carry then 0 else if up then mant + 1 else mant);
               fp4_exp = (if carry then fp4_exp + 1 else fp4_exp)
           in if fp4_exp \<ge> 3 then push_bit 3 sign OR 6
              else if fp4_exp \<le> 0
              then (if fp4_exp < -1 then push_bit 3 sign
                    else push_bit 3 sign OR ucast (drop_bit (nat (1 - fp4_exp)) (2 OR (ucast mant :: u32)) AND 1))
              else push_bit 3 sign OR push_bit 1 (of_int fp4_exp AND 3) OR mant)))"

definition cu_dequantize_fp8_e4m3 :: "u8 \<Rightarrow> rat" where
  "cu_dequantize_fp8_e4m3 q =
    (let sign = drop_bit 7 q AND 1; e = drop_bit 3 q AND 0xF; mant = q AND 0x7;
         value = (if e = 0 then of_nat (unat mant) * pow2 (-6)
                  else (1 + of_nat (unat mant) / 8) * pow2 (int (unat e) - 7))
     in if sign \<noteq> 0 then - value else value)"

definition cu_dequantize_fp8_e5m2 :: "u8 \<Rightarrow> rat" where
  "cu_dequantize_fp8_e5m2 q =
    (let sign = drop_bit 7 q AND 1; e = drop_bit 2 q AND 0x1F; mant = q AND 0x3;
         value = (if e = 0 then of_nat (unat mant) * pow2 (-14)
                  else (1 + of_nat (unat mant) / 4) * pow2 (int (unat e) - 15))
     in if sign \<noteq> 0 then - value else value)"

definition cu_dequantize_fp4_e2m1 :: "u8 \<Rightarrow> f64" where
  "cu_dequantize_fp4_e2m1 q =
    (let sign = drop_bit 3 q AND 1; e = drop_bit 1 q AND 3; mant = q AND 1;
         value = (if e = 0 then Fin (of_nat (unat mant) * (1 / 2))
                  else if e = 3 then PosInf
                  else Fin ((1 + of_nat (unat mant) / 2) * pow2 (int (unat e) - 1)))
     in if sign \<noteq> 0 then (case value of Fin x \<Rightarrow> Fin (- x) | _ \<Rightarrow> NegInf) else value)"

text \<open>The operands of the shift are promoted to 32 bits and the result is cut to a byte.\<close>

definition cu_pack_fp4_pair :: "u8 \<Rightarrow> u8 \<Rightarrow> u8" where
  "cu_pack_fp4_pair a b = ucast (push_bit 4 (ucast a :: u32) OR (ucast b AND 0x0F))"

definition cu_unpack_fp4_pair :: "u8 \<Rightarrow> u8 \<times> u8" where
  "cu_unpack_fp4_pair packed = (ucast (drop_bit 4 (ucast packed :: u32)), ucast ((ucast packed :: u32) AND 0x0F))"

text \<open>\<open>powf\<close> is infinite from 128 on; \<open>log2r\<close> is \<open>roundf (log2f scale)\<close> on a positive finite float.\<close>

definition cu_e8m0_to_f32 :: "u8 \<Rightarrow> f64" where
  "cu_e8m0_to_f32 exponent = (if unat exponent < 128 then Fin (2 ^ unat exponent) else PosInf)"

definition cu_f32_to_e8m0 :: "(rat \<Rightarrow> int) \<Rightarrow> f64 \<Rightarrow> u8" where
  "cu_f32_to_e8m0 log2r scale =
    (if scale = NaN then 0
     else if scale = PosInf then 255
     else case scale of
            Fin x \<Rightarrow> if x \<le> 0 then 0
                     else let e = log2r x in if e < 0 then 0 else if 255 < e then 255 else of_int e
          | _ \<Rightarrow> 0)"

section \<open>Dequantization kernels\<close>

text \<open>
  A launch runs blocks of 256 threads, in any order; the last block has idle threads.  The
  output is a function from offsets, and \<open>float2half\<close> is the rounding of the device.
\<close>

definition grid_1d :: "nat \<Rightarrow> (nat \<times> nat) set" where
  "grid_1d total_elements = {..<(total_elements + 256 - 1) div 256} \<times> {..<256}"

definition launch_1d :: "(nat \<Rightarrow> 'm \<Rightarrow> 'm) \<Rightarrow> (nat \<times> nat) list \<Rightarrow> 'm \<Rightarrow> 'm" where
  "launch_1d thread order = fold (\<lambda>(block_idx, thread_idx). thread (block_idx * 256 + thread_idx)) order"

definition dequant_basic_kernel ::
    "('a :: linordered_field \<Rightarrow> 'h) \<Rightarrow> (nat \<Rightarrow> u8) \<Rightarrow> (nat \<Rightarrow> 'a) \<Rightarrow> (nat \<Rightarrow> 'a) \<Rightarrow> nat \<Rightarrow> nat \<Rightarrow> nat \<Rightarrow> nat \<Rightarrow> (nat \<Rightarrow> 'h) \<Rightarrow> (nat \<Rightarrow> 'h)" where
  "dequant_basic_kernel float2half quantized_data scales zero_points B_t D_head N_kv idx out =
    (if B_t * D_head * N_kv \<le> idx then out
     else let head = idx div (B_t * D_head);
              x = scales head * (float_u8 (quantized_data idx) - zero_points head)
          in out(idx := float2half x))"

definition dequant_enhanced_kernel ::
    "('a :: linordered_field \<Rightarrow> 'h) \<Rightarrow> (nat \<Rightarrow> u8) \<Rightarrow> (nat \<Rightarrow> u8) \<Rightarrow> nat \<Rightarrow> nat \<Rightarrow> nat \<Rightarrow> bool \<Rightarrow> nat \<Rightarrow> (nat \<Rightarrow> 'h) \<Rightarrow> (nat \<Rightarrow> 'h)" where
  "dequant_enhanced_kernel float2half quantized_data scales_e8m0 num_tokens head_dim num_heads is_transposed idx out =
    (if num_tokens * head_dim * num_heads \<le> idx then out
     else let head = (if is_transposed then idx div (head_dim * num_tokens) else idx div (num_tokens * head_dim));
              x = 2 ^ unat (scales_e8m0 head) * float_u8 (quantized_data idx)
          in out(idx := float2half x))"

definition btkv_output_idx :: "nat \<Rightarrow> nat \<Rightarrow> bool \<Rightarrow> nat \<Rightarrow> nat" where
  "btkv_output_idx tile_x tile_y is_transposed idx =
    (if is_transposed then (let token = idx mod tile_y; dm = idx div tile_y in dm * tile_x + token) else idx)"

definition dequant_btkv_kernel ::
    "('a :: linordered_field \<Rightarrow> 'h) \<Rightarrow> (nat \<Rightarrow> u8) \<Rightarrow> (nat \<Rightarrow> u8) \<Rightarrow> nat \<Rightarrow> nat \<Rightarrow> nat \<Rightarrow> bool \<Rightarrow> nat \<Rightarrow> (nat \<Rightarrow> 'h) \<Rightarrow> (nat \<Rightarrow> 'h)" where
  "dequant_btkv_kernel float2half quantized_data scales_e8m0 tile_x tile_y group_size is_transposed idx out =
    (if tile_x * tile_y \<le> idx then out
     else let group = idx div group_size;
              x = 2 ^ unat (scales_e8m0 group) * float_u8 (quantized_data idx)
          in out(btkv_output_idx tile_x tile_y is_transposed idx := float2half x))"

section \<open>Tile descriptors\<close>

text \<open>The driver call that encodes a descriptor is a parameter; \<open>None\<close> is its failure.\<close>

datatype cudaError = cudaErrorInvalidValue | cudaErrorNotSupported | cudaErrorUnknown
datatype CUtensorMapDataType = TensorUint8 | TensorFloat16 | TensorFloat32

record tile_desc =
  td_data_type :: CUtensorMapDataType
  td_gmem_base_ptr :: u64
  td_gmem_dims :: "nat list"
  td_gmem_strides :: "nat list"
  td_smem_dims :: "nat list"
  td_smem_strides :: "nat list"
  td_swizzle_mode :: nat

definition BTKV_TILE_TOKENS :: nat where "BTKV_TILE_TOKENS = 16"
definition BTKV_TILE_DIMS :: nat where "BTKV_TILE_DIMS = 64"

definition init_btkv_tile_tensor_map ::
    "(tile_desc \<Rightarrow> 'm option) \<Rightarrow> u64 \<Rightarrow> bool \<Rightarrow> nat \<Rightarrow> nat \<Rightarrow> nat \<Rightarrow> nat \<Rightarrow> nat \<Rightarrow> (cudaError, 'm) result" where
  "init_btkv_tile_tensor_map encode gmem_base_ptr is_key tile_tokens tile_dims stride_bytes element_size swizzle_mode =
    (let dims = (if is_key then [tile_dims, tile_tokens] else [tile_tokens, tile_dims]) @ [1, 1, 1];
         desc = (\<lambda>ty. \<lparr>td_data_type = ty, td_gmem_base_ptr = gmem_base_ptr, td_gmem_dims = dims,
           td_gmem_strides = [stride_bytes, 0, 0, 0], td_smem_dims = dims, td_smem_strides = [1, 1, 1, 1, 1],
           td_swizzle_mode = swizzle_mode\<rparr>);
         encoded = (\<lambda>ty. case encode (desc ty) of None \<Rightarrow> Err cudaErrorUnknown | Some m \<Rightarrow> Ok m)
     in if element_size = 1 then encoded TensorUint8
        else if element_size = 2 then encoded TensorFloat16
        else if element_size = 4 then encoded TensorFloat32
        else Err cudaErrorInvalidValue)"

text \<open>The loop over the heads; an error leaves the maps of the earlier heads written.\<close>

fun init_head_maps ::
    "(bool \<Rightarrow> nat \<Rightarrow> (cudaError, 'm) result) \<Rightarrow> nat list \<Rightarrow> (nat \<Rightarrow> 'm) \<times> (nat \<Rightarrow> 'm) \<Rightarrow>
     (cudaError, unit) result \<times> (nat \<Rightarrow> 'm) \<times> (nat \<Rightarrow> 'm)" where
  "init_head_maps tile [] maps = (Ok (), maps)"
| "init_head_maps tile (h # hs) (k_maps, v_maps) =
    (case tile True h of
       Inl e \<Rightarrow> (Err e, k_maps, v_maps)
     | Inr km \<Rightarrow>
         (case tile False h of
            Inl e \<Rightarrow> (Err e, k_maps(h := km), v_maps)
          | Inr vm \<Rightarrow> init_head_maps tile hs (k_maps(h := km), v_maps(h := vm))))"

definition init_btkv_block_tensor_maps ::
    "(tile_desc \<Rightarrow> 'm option) \<Rightarrow> u64 \<Rightarrow> u64 \<Rightarrow> nat \<Rightarrow> nat \<Rightarrow> nat \<Rightarrow> nat \<Rightarrow> nat \<Rightarrow> (nat \<Rightarrow> 'm) \<times> (nat \<Rightarrow> 'm) \<Rightarrow>
     (cudaError, unit) result \<times> (nat \<Rightarrow> 'm) \<times> (nat \<Rightarrow> 'm)" where
  "init_btkv_block_tensor_maps encode k_base_ptr v_base_ptr num_heads head_dim block_tokens element_size swizzle_mode maps =
    (if head_dim mod BTKV_TILE_DIMS \<noteq> 0 then (Err cudaErrorInvalidValue, maps)
     else if block_tokens mod BTKV_TILE_TOKENS \<noteq> 0 then (Err cudaErrorInvalidValue, maps)
     else if head_dim div BTKV_TILE_DIMS * (block_tokens div BTKV_TILE_TOKENS) \<noteq> 1 then (Err cudaErrorNotSupported, maps)
     else init_head_maps (\<lambda>is_key h.
       let head_offset = of_nat (h * block_tokens * head_dim * element_size)
       in init_btkv_tile_tensor_map encode ((if is_key then k_base_ptr else v_base_ptr) + head_offset) is_key
            BTKV_TILE_TOKENS BTKV_TILE_DIMS ((if is_key then head_dim else block_tokens) * element_size) element_size swizzle_mode)
       [0..<num_heads] maps)"

section \<open>Lemmas\<close>

text \<open>A mantissa of at most three bits is the same number in a byte and in a word.\<close>

lemma small_word:
  assumes "unat (m :: u32) < 8"
  shows "m \<in> {0, 1, 2, 3, 4, 5, 6, 7}"
proof -
  obtain k where k: "m = of_nat k" "k < 8"
    using assms that [of "unat m"] by simp
  then have "k \<in> {0, 1, 2, 3, 4, 5, 6, 7}"
    by (simp, linarith)
  with k(1) show ?thesis
    by auto
qed

lemma byte_mant:
  assumes "unat (m :: u32) < 8"
  shows "(ucast m :: u8) AND 1 \<noteq> 0 \<longleftrightarrow> m AND 1 = 1" "(ucast m :: u8) + 1 = 8 \<longleftrightarrow> m + 1 = 8"
    "(ucast m :: u8) + 1 = 4 \<longleftrightarrow> m + 1 = 4" "ucast (m + 1) = (ucast m :: u8) + 1" "ucast (ucast m :: u8) = m" "ucast ((ucast m :: u8) + 1) = m + 1"
  using small_word [OF assms] by auto

lemma byte_bit: "(ucast (x AND 1 :: u32) :: u8) \<noteq> 0 \<longleftrightarrow> x AND 1 = 1"
  by (cases "odd x") (simp_all add: and_one_eq mod_2_eq_odd)

lemma mant_small: "unat (drop_bit 20 (b AND 0x7FFFFF :: u32)) < 8" "unat (drop_bit 21 (b AND 0x7FFFFF :: u32)) < 8"
proof -
  have "unat (b AND 0x7FFFFF) < 2 ^ 23"
    using word_and_le1 [of b "0x7FFFFF"] by (simp add: word_le_nat_alt)
  then show "unat (drop_bit 20 (b AND 0x7FFFFF)) < 8" "unat (drop_bit 21 (b AND 0x7FFFFF)) < 8"
    by (auto simp only: unsigned_drop_bit_eq) (auto simp: drop_bit_eq_div div_less_iff_less_mult intro: le_less_trans [OF take_bit_nat_less_eq_self])
qed

lemma exp_field:
  "0 < e \<Longrightarrow> e < 15 \<Longrightarrow> (of_int e AND 0xF :: u8) = of_int e"
  "0 < e \<Longrightarrow> e < 31 \<Longrightarrow> (of_int e AND 0x1F :: u8) = of_int e"
proof -
  have "list_all (\<lambda>e. (of_int e AND 0xF :: u8) = of_int e) [1..14]" "list_all (\<lambda>e. (of_int e AND 0x1F :: u8) = of_int e) [1..30]"
    by code_simp+
  then show "0 < e \<Longrightarrow> e < 15 \<Longrightarrow> (of_int e AND 0xF :: u8) = of_int e"
    "0 < e \<Longrightarrow> e < 31 \<Longrightarrow> (of_int e AND 0x1F :: u8) = of_int e"
    unfolding list_all_iff set_upto by auto
qed

lemmas byte_simps = if_distrib [where f = "ucast :: u8 \<Rightarrow> u32"] if_distrib [where f = "ucast :: u32 \<Rightarrow> u8"] unsigned_0 exp_field not_le

lemma cu_e4m3: "cu_quantize_fp8_e4m3 b = quantize_fp8_e4m3 b"
  unfolding cu_quantize_fp8_e4m3_def quantize_fp8_e4m3_def Let_def byte_bit byte_mant(1,2) [OF mant_small(1)]
  by (simp only: byte_mant(4-6) [OF mant_small(1)] byte_simps cong: if_cong)

lemma cu_e5m2: "cu_quantize_fp8_e5m2 b = quantize_fp8_e5m2 b"
  unfolding cu_quantize_fp8_e5m2_def quantize_fp8_e5m2_def Let_def byte_bit byte_mant(1,3) [OF mant_small(2)]
  by (simp only: byte_mant(4-6) [OF mant_small(2)] byte_simps cong: if_cong)

lemma policy_pack_agrees: "psp_policy_pack (ucast (PrecisionLevel_as_u32 p)) r m = policy_raw (PackedBlockPolicy_new p r m)"
  by (cases p; cases r) (simp_all add: psp_policy_pack_def policy_raw_def PackedBlockPolicy_new_def Let_def)


lemma cu_dequantize:
  "cu_dequantize_fp8_e4m3 q = dequantize_fp8_e4m3 q" "cu_dequantize_fp8_e5m2 q = dequantize_fp8_e5m2 q"
proof -
  have "drop_bit 7 q AND 1 \<noteq> 0 \<longleftrightarrow> drop_bit 7 q AND 1 = 1" for q :: u8
    by (cases "odd (drop_bit 7 q)") (simp_all add: and_one_eq mod_2_eq_odd)
  then show "cu_dequantize_fp8_e4m3 q = dequantize_fp8_e4m3 q" "cu_dequantize_fp8_e5m2 q = dequantize_fp8_e5m2 q"
    unfolding cu_dequantize_fp8_e4m3_def dequantize_fp8_e4m3_def cu_dequantize_fp8_e5m2_def dequantize_fp8_e5m2_def
    by (simp_all only: Let_def uint_nat of_int_of_nat_eq unat_eq_0 of_nat_eq_0_iff)
qed

text \<open>
  The FP4 quantizers of device and host differ: 0.3 becomes 0 on the device and 0.5 on the
  host, 0.75 becomes 0.5 and 1, and 1.25 becomes 1 and 1.5.
\<close>

lemma fp4_quantizers_differ:
  "cu_quantize_fp4_e2m1 0x3E99999A = 0 \<and> quantize_fp4_e2m1 0x3E99999A = 1"
  "cu_quantize_fp4_e2m1 0x3F400000 = 1 \<and> quantize_fp4_e2m1 0x3F400000 = 2"
  "cu_quantize_fp4_e2m1 0x3FA00000 = 2 \<and> quantize_fp4_e2m1 0x3FA00000 = 3"
  by code_simp+

text \<open>Every index below the total belongs to exactly one thread of the grid.\<close>

lemma grid_index: "idx < total_elements \<Longrightarrow> (idx div 256, idx mod 256) \<in> grid_1d total_elements"
  by (auto simp: grid_1d_def)


lemma grid_indices:
  assumes "set order = grid_1d n"
  shows "{..<n} \<subseteq> set (map (\<lambda>(b, u). b * 256 + u) order)"
proof
  fix i assume "i \<in> {..<n}"
  then have "(i div 256, i mod 256) \<in> set order"
    using assms grid_index by simp
  then show "i \<in> set (map (\<lambda>(b, u). b * 256 + u) order)"
    by (auto simp: image_iff intro!: bexI [of _ "(i div 256, i mod 256)"])
qed

lemma launch_indices: "launch_1d thread order = fold thread (map (\<lambda>(b, u). b * 256 + u) order)"
  by (simp add: launch_1d_def fold_map comp_def case_prod_unfold)

text \<open>
  A launch of threads that each write one cell, at an injective index, writes all of them
  in whatever order the threads run, and nothing else.
\<close>

lemma fold_writes:
  fixes n :: nat
  assumes "inj_on w {..<n}" "\<And>i out. thread i out = (if n \<le> i then out else out(w i := f i))"
  shows "fold thread is out x = (if \<exists>i<n. i \<in> set is \<and> w i = x then f (THE i. i < n \<and> w i = x) else out x)"
proof (induction "is" rule: rev_induct)
  case (snoc j js)
  show ?case
  proof (cases "j < n \<and> w j = x")
    case True
    then have "(THE i. i < n \<and> w i = x) = j"
      using assms(1) by (intro the_equality) (auto simp: inj_on_def)
    moreover have "\<exists>i<n. i \<in> set (js @ [j]) \<and> w i = x" "\<not> n \<le> j"
      using True by auto
    ultimately show ?thesis
      using True by (simp add: assms(2))
  next
    case False
    then have "thread j out' x = out' x" for out'
      by (auto simp: assms(2))
    moreover have "(\<exists>i<n. i \<in> set (js @ [j]) \<and> w i = x) \<longleftrightarrow> (\<exists>i<n. i \<in> set js \<and> w i = x)"
      using False by auto
    ultimately show ?thesis
      using snoc by simp
  qed
qed simp

lemma launch_writes:
  assumes "set order = grid_1d n" "inj_on w {..<n}"
    and "\<And>i out. thread i out = (if n \<le> i then out else out(w i := f i))"
  shows "i < n \<Longrightarrow> launch_1d thread order out (w i) = f i"
    "x \<notin> w ` {..<n} \<Longrightarrow> launch_1d thread order out x = out x"
proof -
  note fw = fold_writes [of w n thread f, OF assms(2,3)]
  show "x \<notin> w ` {..<n} \<Longrightarrow> launch_1d thread order out x = out x"
    unfolding launch_indices fw by auto
  assume i: "i < n"
  then have "(THE j. j < n \<and> w j = w i) = i"
    using assms(2) by (intro the_equality) (auto simp: inj_on_def)
  then show "launch_1d thread order out (w i) = f i"
    unfolding launch_indices fw using i grid_indices [OF assms(1)] by auto
qed

text \<open>With the documented shape of a value tile, 64 by 16, the kernel writes behind its output.\<close>

lemma btkv_transposed_idx: "btkv_output_idx tx ty True i = i div ty * tx + i mod ty"
  by (simp add: btkv_output_idx_def Let_def)

lemma btkv_overrun:
  assumes "0 < ty" "ty < tx"
  shows "tx * ty - 1 < tx * ty" "tx * ty \<le> btkv_output_idx tx ty True (tx * ty - 1)"
proof -
  obtain x y where xy: "tx = Suc x" "ty = Suc y"
    using assms by (cases tx; cases ty) auto
  have "tx * ty - 1 = y + x * Suc y"
    by (simp add: xy)
  then have d: "(tx * ty - 1) div ty = x" "(tx * ty - 1) mod ty = y"
    by (simp_all add: xy del: mult_Suc_right)
  have "y + 1 \<le> x"
    using assms xy by simp
  then have "x * (y + 2) \<le> x * tx"
    using xy by (intro mult_le_mono2) simp
  with \<open>y + 1 \<le> x\<close> have "tx * ty \<le> x * tx + y"
    by (simp add: xy algebra_simps)
  then show "tx * ty \<le> btkv_output_idx tx ty True (tx * ty - 1)"
    by (simp only: btkv_transposed_idx d)
qed (use assms in simp)

lemma btkv_collision:
  assumes "1 < tx" "tx < ty"
  shows "tx < tx * ty" "ty < tx * ty" "btkv_output_idx tx ty True tx = btkv_output_idx tx ty True ty"
  using assms by (simp_all add: btkv_transposed_idx)

lemma btkv_identity:
  assumes "i < tx * ty" "tx = ty \<or> tx = 1"
  shows "btkv_output_idx tx ty True i = i"
  using assms by (auto simp: btkv_transposed_idx)

text \<open>The dequantization kernels take the code of an FP8 number for the number itself: the code of 1 becomes 56.\<close>

lemma codes_not_decoded:
  "cu_quantize_fp8_e4m3 0x3F800000 = 0x38 \<and> cu_dequantize_fp8_e4m3 0x38 = 1"
  "dequant_enhanced_kernel id (\<lambda>_. 0x38) (\<lambda>_. 0) 1 1 1 False 0 (\<lambda>_. 0) 0 = (56 :: rat)"
  by (code_simp, simp add: dequant_enhanced_kernel_def float_u8_def)


text \<open>
  When the descriptors of a block are made: for one tile per head and an element size the
  device knows, if the driver accepts them; head \<open>h\<close> then has the tiles at its own offset.
\<close>

lemma head_maps_all:
  assumes "\<And>b h. h \<in> set hs \<Longrightarrow> tile b h = Ok (m b h)"
  shows "init_head_maps tile hs (k, v) = (Ok (), \<lambda>h. if h \<in> set hs then m True h else k h, \<lambda>h. if h \<in> set hs then m False h else v h)"
  using assms by (induction hs arbitrary: k v) (auto simp: fun_eq_iff)

lemma block_maps_refused:
  assumes "head_dim \<noteq> BTKV_TILE_DIMS \<or> block_tokens \<noteq> BTKV_TILE_TOKENS"
  shows "fst (init_btkv_block_tensor_maps encode kp vp nh head_dim block_tokens es sw maps) \<noteq> Ok ()"
  using assms
  by (auto simp: init_btkv_block_tensor_maps_def BTKV_TILE_DIMS_def BTKV_TILE_TOKENS_def)

lemma attention_shape_refused:
  "init_btkv_block_tensor_maps encode kp vp nh HEAD_DIM BLOCK_SIZE es sw maps = (Err cudaErrorNotSupported, maps)"
  by (simp add: init_btkv_block_tensor_maps_def BTKV_TILE_DIMS_def BTKV_TILE_TOKENS_def HEAD_DIM_def BLOCK_SIZE_def)

lemma cu_dequantize_fp4: "cu_dequantize_fp4_e2m1 q = dequantize_fp4_e2m1 q"
proof -
  have s: "drop_bit 3 q AND 1 \<noteq> 0 \<longleftrightarrow> drop_bit 3 q AND 1 = 1"
    by (cases "odd (drop_bit 3 q)") (simp_all add: and_one_eq mod_2_eq_odd)
  have e: "uint (drop_bit 1 q AND 3) = 0 \<longleftrightarrow> drop_bit 1 q AND 3 = 0" "uint (drop_bit 1 q AND 3) = 3 \<longleftrightarrow> drop_bit 1 q AND 3 = 3"
    by (simp_all add: word_uint_eq_iff)
  show ?thesis
    unfolding cu_dequantize_fp4_e2m1_def dequantize_fp4_e2m1_def Let_def s e by simp
qed

lemma cu_fp4_pairs: "cu_pack_fp4_pair a b = pack_fp4_pair a b" "cu_unpack_fp4_pair a = unpack_fp4_pair a"
proof -
  show "cu_pack_fp4_pair a b = pack_fp4_pair a b"
    unfolding cu_pack_fp4_pair_def pack_fp4_pair_def
    by (rule bit_eqI) (auto simp: bit_simps bit_numeral_rec)
  show "cu_unpack_fp4_pair a = unpack_fp4_pair a"
    unfolding cu_unpack_fp4_pair_def unpack_fp4_pair_def prod.inject
    by (intro conjI; rule bit_eqI) (auto simp: bit_simps dest: bit_imp_le_length)
qed

lemma cu_e8m0: "cu_e8m0_to_f32 q = e8m0_to_f32 q" "cu_f32_to_e8m0 log2r x = f32_to_e8m0 log2r x"
  by (auto simp: cu_e8m0_to_f32_def e8m0_to_f32_def pow2_def nat_uint_eq zless_nat_eq_int_zless [symmetric] simp flip: of_nat_less_iff [where 'a = int])
    (simp add: cu_f32_to_e8m0_def f32_to_e8m0_def split: f64.splits)

section \<open>Properties\<close>


text \<open>
  C34: where a transposing BT-KV launch writes.  For a tile with sides of at least one, the
  write indices of the elements are a rearrangement of the output exactly if the tile is
  square or has a single row, and then they are not transposed but left in place.  With
  more rows than columns, as the documented value tile has, the kernel writes behind the
  end of its output; with fewer, two elements share a cell.
\<close>

theorem btkv_transposed_writes:
  assumes "0 < tx" "0 < ty"
  shows "(bij_betw (btkv_output_idx tx ty True) {..<tx * ty} {..<tx * ty} \<longleftrightarrow> tx = ty \<or> tx = 1) \<and>
    (tx = ty \<or> tx = 1 \<longrightarrow> (\<forall>i < tx * ty. btkv_output_idx tx ty True i = i)) \<and>
    (ty < tx \<longrightarrow> (\<exists>i < tx * ty. tx * ty \<le> btkv_output_idx tx ty True i \<and>
      dequant_btkv_kernel f2h data scales tx ty gs True i out (btkv_output_idx tx ty True i) =
        f2h (2 ^ unat (scales (i div gs)) * float_u8 (data i)))) \<and>
    (1 < tx \<and> tx < ty \<longrightarrow> \<not> inj_on (btkv_output_idx tx ty True) {..<tx * ty})"
proof -
  have over: "\<exists>i < tx * ty. tx * ty \<le> btkv_output_idx tx ty True i" if "ty < tx"
    using btkv_overrun [OF assms(2) that] by blast
  have "dequant_btkv_kernel f2h data scales tx ty gs True i out (btkv_output_idx tx ty True i) =
      f2h (2 ^ unat (scales (i div gs)) * float_u8 (data i))" if "i < tx * ty" for i
    using that by (simp add: dequant_btkv_kernel_def Let_def)
  with over have over': "\<exists>i < tx * ty. tx * ty \<le> btkv_output_idx tx ty True i \<and>
      dequant_btkv_kernel f2h data scales tx ty gs True i out (btkv_output_idx tx ty True i) =
        f2h (2 ^ unat (scales (i div gs)) * float_u8 (data i))" if "ty < tx"
    using that by blast
  have coll: "\<not> inj_on (btkv_output_idx tx ty True) {..<tx * ty}" if "1 < tx" "tx < ty"
    using btkv_collision [OF that] that unfolding inj_on_def by (metis lessThan_iff less_irrefl)
  have "bij_betw (btkv_output_idx tx ty True) {..<tx * ty} {..<tx * ty}" if "tx = ty \<or> tx = 1"
    using bij_betw_cong [of "{..<tx * ty}" "btkv_output_idx tx ty True" id] btkv_identity [OF _ that] by simp
  moreover have "tx = ty \<or> tx = 1" if "bij_betw (btkv_output_idx tx ty True) {..<tx * ty} {..<tx * ty}"
  proof (rule ccontr)
    assume "\<not> (tx = ty \<or> tx = 1)"
    then consider "ty < tx" | "1 < tx" "tx < ty"
      using assms by linarith
    then show False
    proof cases
      case 1
      from over [OF this] bij_betwE [OF that] show False
        by (metis lessThan_iff not_le)
    next
      case 2
      from coll [OF this] bij_betw_imp_inj_on [OF that] show False
        by contradiction
    qed
  qed
  ultimately show ?thesis
    using over' coll btkv_identity [of _ tx ty] by blast
qed

theorem btkv_transposed_writes_witness:
  "\<exists>i. 64 * 16 \<le> btkv_output_idx 64 16 True i \<and>
    dequant_btkv_kernel id (\<lambda>_. 3) (\<lambda>_. 1) 64 16 32 True i (\<lambda>_. 0) (btkv_output_idx 64 16 True i) = (6 :: rat)"
  using btkv_transposed_writes [of 64 16 id "\<lambda>_. 3" "\<lambda>_. 1" 32 "\<lambda>_. 0 :: rat"] by (auto simp: float_u8_def)

text \<open>
  What a dequantization launch writes.  In whatever order the threads of the grid run,
  the basic and the enhanced kernel write every element, scaled with the parameters of its
  head, and the BT-KV kernel without transposition every element, scaled with the
  exponent of its group; no kernel writes anything else.
\<close>

theorem dequant_launch_output:
  assumes "set order = grid_1d (B * D * N)" "set order' = grid_1d (X * Y)"
  shows "launch_1d (dequant_basic_kernel f2h data scales zps B D N) order out =
      (\<lambda>i. if i < B * D * N then f2h (scales (i div (B * D)) * (float_u8 (data i) - zps (i div (B * D)))) else out i) \<and>
    launch_1d (dequant_enhanced_kernel f2h data es B D N tr) order out =
      (\<lambda>i. if i < B * D * N then f2h (2 ^ unat (es (i div (B * D))) * float_u8 (data i)) else out i) \<and>
    launch_1d (dequant_btkv_kernel f2h data es X Y gs False) order' out =
      (\<lambda>i. if i < X * Y then f2h (2 ^ unat (es (i div gs)) * float_u8 (data i)) else out i)"
proof -
  have all: "launch_1d thread ord out = (\<lambda>i. if i < n then f i else out i)"
    if "set ord = grid_1d n" "\<And>i out. thread i out = (if n \<le> i then out else out(i := f i))"
    for thread ord n and f :: "nat \<Rightarrow> 'a" and out
    using launch_writes [of ord n "\<lambda>i. i" thread f, OF that(1) _ that(2)] by (auto simp: fun_eq_iff)
  show ?thesis
    by (intro conjI all assms)
      (simp_all add: dequant_basic_kernel_def dequant_enhanced_kernel_def dequant_btkv_kernel_def btkv_output_idx_def
        Let_def mult.commute)
qed

theorem dequant_launch_output_witness:
  "launch_1d (dequant_enhanced_kernel id (\<lambda>i. of_nat i) (\<lambda>h. of_nat h) 2 2 2 True) (map (Pair 0) [0..<256]) (\<lambda>_. 0) 5 = (10 :: rat)"
proof -
  have "set (map (Pair 0) [0..<256]) = grid_1d (2 * 2 * 2)" "set (map (Pair 0) [0..<256]) = grid_1d (2 * 4)"
    by (auto simp: grid_1d_def)
  from dequant_launch_output [OF this, of id "\<lambda>i. of_nat i" "\<lambda>_. 0 :: rat" "\<lambda>_. 0" "\<lambda>_. 0" "\<lambda>h. of_nat h" True 1]
  show ?thesis
    by (simp add: float_u8_def)
qed

end
