(* ===== verification/Spec2Isabelle.thy ===== *)
theory Spec2Isabelle
  imports Precision Kv_Block Hash_Index Radix_Tree Eviction Tier_Manager Quantization Diff
    Raft Scheduler Coordinator Resource_Limits Dsm_Api Daemon_Service Uffd_Batch Socket_Provider Py_Adapters Kernels
begin

text \<open>
  A verification development of virthub, a distributed key-value cache for transformer
  inference.  Paths are those of the repository.

  \<^bold>\<open>The program.\<close>  An inference engine stores key-value blocks through a connector
  (\<open>src/connectors\<close>, from Python through \<open>bindings\<close>).  Each machine runs a daemon
  (\<open>src/klnk/klnk-daemon\<close>) that shares memory regions with its peers: it answers control
  messages of interposed processes (\<open>klnk-shim\<close>) over framed sockets (\<open>klnk-net\<close>), keeps
  the page states, readers and locks of the regions (\<open>klnk-core\<close>), serves page faults
  (\<open>klnk-uffd\<close>) by remote reads (\<open>librmashim\<close>) into a pool of staging slots
  (\<open>src/store\<close>), prefetches along detected strides (\<open>klnk-ebpf\<close>) and applies the
  invalidations its peers write into a ring.  A master (\<open>src/master\<close>) elects a leader,
  watches the nodes and places sessions; \<open>src/index\<close> finds blocks by key or address and
  \<open>src/precision\<close> chooses their number formats.

  \<^bold>\<open>Theories and sources.\<close>
  \<^item> \<open>Prelude\<close>: machine integers, results, doubles, shared lemmas.  \<open>Index_Spec\<close> and
    \<open>Lock_Spec\<close>: the contracts of the block indexes and of the lock tables, as locales.
  \<^item> \<open>Precision\<close>, \<open>Kv_Block\<close>, \<open>Tier_Manager\<close>, \<open>Staging_Pool\<close>, \<open>Quantization\<close>: the
    crates \<open>precision\<close> and \<open>store\<close>, file by file.
  \<^item> \<open>Robin_Hood\<close>, \<open>Hash_Index\<close>, \<open>Radix_Tree\<close>, \<open>Eviction\<close>: the crate \<open>index\<close>; the
    first holds the combinatorics of probing apart from the bucket layout.
  \<^item> \<open>Domain\<close>, \<open>Control_Plane\<close>, \<open>Diff\<close>: \<open>klnk-core\<close>.  \<open>Control_Transport\<close>: \<open>klnk-net\<close>.
    \<open>Ebpf\<close>: \<open>klnk-ebpf\<close>.  \<open>Ipc_Client\<close>: \<open>klnk-shim\<close>.  \<open>Uffd_Handler\<close>: \<open>klnk-uffd\<close>.
    \<open>Rma\<close>, \<open>Socket_Provider\<close>: \<open>librmashim\<close>.  \<open>Dsm_Api\<close>: \<open>src/api\<close> and \<open>klnk-dsm-api\<close>.
  \<^item> \<open>Daemon_Control\<close>, \<open>Resource_Limits\<close>, \<open>Invalidation\<close>, \<open>Prefetch\<close>,
    \<open>Uffd_Batch\<close>, \<open>Rdma_Metadata\<close>, \<open>Daemon_Boot\<close>: the files of \<open>klnk-daemon\<close>.  \<open>Node\<close>: the
    parts of one daemon together.  \<open>Telemetry\<close>: the way of an access event from the trace
    manager of \<open>klnk-ebpf\<close> through the task of the daemon to the prefetch engine.
    \<open>Daemon_Service\<close>: the accept loop of \<open>main\<close> and its concurrent connections.
  \<^item> \<open>Raft\<close>, \<open>Scheduler\<close>, \<open>Coordinator\<close>: the crate \<open>master\<close>.  \<open>Configuration\<close>: the
    crate \<open>config\<close>.
  \<^item> \<open>Connectors\<close>, \<open>Bindings\<close>, \<open>Py_Connectors\<close>, \<open>Py_Adapters\<close>: the three connectors, the
    extension module, the in-memory clients of the Python package and its adapter classes
    over either of them.
  \<^item> \<open>Attention\<close>, \<open>Kernels\<close>: the device code in \<open>kernels\<close>, the paged attention of the
    CUDA and Triton sources, the quantizers, the dequantization and the tile descriptors.

  \<^bold>\<open>Correspondence.\<close>  A struct is a record whose fields carry a short prefix, an enum a
  datatype, a method a function from the state to its result and the new state; an early
  return or a panic is a value.  A method that the code runs under one lock is one step.
  Where the code relies on single atomic operations, in the resource limiter and the tier
  manager, the steps are those operations and the theorems speak of their interleavings.
  \<open>Node\<close> gives the tasks of a daemon as an inductive step relation over the state they
  share, \<open>Telemetry\<close> and \<open>Daemon_Service\<close> the runs of its pipelines and connections.  The kernel, the network, the allocator, the serializers, the clock and the order
  in which a hash map is walked are arguments of the definitions that use them.

  \<^bold>\<open>What is shown.\<close>
  \<^item> Refinement: the hash index and the radix tree are finite maps (\<open>hidx\<close>, \<open>radix\<close> interpret
    \<open>Index_Spec\<close>), the invalidation ring is a queue, concurrent connections are served in
    a serial order, the LMCache adapter is a dictionary.
  \<^item> Round trips: page diffs, framed message streams, blocks, FP8 values, regions
    registered and deregistered, blocks registered and fetched.
  \<^item> Safety and invariants: mutual exclusion and hand-over of locks, staging slots that
    never overlap, exact reservations under concurrency, one vote per term, keys of live
    memory regions, blocks of the vLLM connector, and below the state of a whole node.
  \<^item> Equivalence: the number formats and policy words of device and host, and the Triton
    and CUDA attention kernels.  What an attention launch writes, in any order of threads.
  \<^item> Termination and start: which region registrations return, what a start of the
    daemon leads to.  Progress: accesses at a constant stride end as prefetched pages whose
    faults need no remote read, queued faults are worked off in order.
  \<^item> Limits of the code, as theorems: registrations that share a range, regions that
    reach the end of the address space, two leaders in one term, lost pages and slots,
    locks of the daemon that do not exclude, node names the daemon cannot read, scores for
    which the running softmax is wrong, tiles that are not transposed but overrun, a
    daemon and a controller whose telemetry never sees an event, a second vote after a
    restart, configurations that cannot be cached.

  \<^bold>\<open>Loops.\<close>  No fuel is used.  A loop whose end is not structural is a \<open>partial_function\<close>
  into options, and the theorems prove that it returns: the probe loops of the hash index
  from its invariant, the range loop of the radix tree and the page loops of the control
  plane from room below the end of the address space.  Without that room the registration loop is proved not to return.

  \<^bold>\<open>Idealisations.\<close>  A double is an exact rational, an infinity or NaN, with which every
  comparison is false; a 32-bit float is its bit pattern.  The kernels compute in an
  exact ordered field, without rounding, and their index products fit an \<open>int\<close>.  Arithmetic wraps as in a
  release build; a debug build panics instead.

  \<^bold>\<open>Not modelled.\<close>  Rounding on the device, the text formats (JSON, TOML) and the files
  behind them, which are arguments, thread pinning, logging, the scheduling of the runtime
  below the steps, the vLLM hooks that do nothing, and the scripts,
  tests and benchmarks.  What is left of the sources beyond these is tests, documentation,
  accessors of single fields and declarations.
\<close>

section \<open>A node as a whole\<close>

text \<open>
  C5: the shared state of a node stays well formed.  In every state that any interleaving
  of control messages, page faults, polling rounds, remote writes to the invalidation
  ring, peer registrations and prefetches leads to, whatever the kernel and the network
  answer, page entries are keyed by their own address, are at least one 4096-byte page
  long and list each reader once, regions are keyed by their own identifier, the lock
  table is consistent and the node keeps its identity; and the slot of a prefetched page
  is never free and never the slot of another prefetched page.
\<close>

theorem node_well_formed:
  assumes "node_reachable l s"
  shows "(\<forall>v e. lookup_page_state v (nd_cp s) = Some e \<longrightarrow>
      pe_page_vaddr e = v \<and> 4096 \<le> pe_page_size e \<and> distinct (pe_replica_holders e)) \<and>
    (\<forall>r d. get_region r (nd_cp s) = Ok d \<longrightarrow> rd_region_id d = r) \<and> cp_lock_inv (nd_cp s) \<and>
    cp_local_node_id (nd_cp s) = l \<and>
    (\<exists>m. uh_prefetched_pages (nd_handler s) = Some m \<and>
      (\<forall>v h. m v = Some h \<longrightarrow> slot_idx h \<notin> set (sp_free_slots (uh_staging_pool (nd_handler s)))) \<and>
      (\<forall>v w h k. m v = Some h \<and> m w = Some k \<and> v \<noteq> w \<longrightarrow> slot_idx h \<noteq> slot_idx k))"
proof -
  have ok: "cp_ok l (nd_cp s)" "handler_ok (nd_handler s)"
    using node_reachable_ok [OF assms] by (simp_all add: node_ok_def)
  have "rd_region_id d = r" if "get_region r (nd_cp s) = Ok d" for r d
    using ok(1) that by (simp add: cp_ok_def get_region_def split: option.splits)
  moreover obtain m where m: "uh_prefetched_pages (nd_handler s) = Some m" "slots_ok (uh_staging_pool (nd_handler s)) m"
    using ok(2) by (auto simp: handler_ok_def)
  moreover have "\<forall>v w h k. m v = Some h \<and> m w = Some k \<and> v \<noteq> w \<longrightarrow> slot_idx h \<noteq> slot_idx k"
    using m(2) unfolding slots_ok_def by blast
  ultimately show ?thesis
    using ok(1) by (simp add: cp_ok_def pages_ok_def page_ok_def lookup_page_state_def slots_ok_def)
qed

theorem node_well_formed_witness:
  "\<exists>(s :: unit node) e. node_reachable (NodeId 1) s \<and> lookup_page_state 0x12000 (nd_cp s) = Some e \<and>
     pe_page_vaddr e = 0x12000 \<and> 4096 \<le> pe_page_size e"
proof -
  let ?cp = "ControlPlane_new (NodeId 1) :: unit cp" and ?d = "region_desc 7 0x10000 0x3000 3"
  obtain h where h: "UffdHandler_new (Ok ()) ?cp sample_pool = (Ok h :: (RmaError UffdHandlerError, _) result)"
    "uh_control_plane h = ?cp"
    by (simp add: UffdHandler_new_def)
  let ?s = "\<lparr>nd_handler = set_prefetched_pages Map.empty h, nd_ring = InvalidationBuffer_new\<rparr>"
  have r: "node_reachable (NodeId 1) ?s"
    by (rule nr_start [OF sample_pool_new _ h(1)]) simp
  have cp: "nd_cp ?s = ?cp"
    by (simp add: set_prefetched_pages_def h(2))
  have room: "cp_regions ?cp (rd_region_id ?d) = None" "region_room ?d" "0x12000 \<in> region_grid ?d"
    by (simp_all add: ControlPlane_new_def region_room_def region_grid_def page_grid_def coherence_unit_def region_desc_def)
  obtain cp1 e where cp1: "process_control_payload (RegionRegister 7 0x10000 0x3000 3) (nd_cp ?s) = Some (ResponseAck True ''OK'', cp1)"
    "lookup_page_state 0x12000 cp1 = Some e"
    using register_region_result [OF room(1,2), of "[]"] room(3)
    by (simp add: set_prefetched_pages_def h(2) register_region_def ack_of_def lookup_page_state_def)
  have t: "node_reachable (NodeId 1) (set_cp cp1 ?s)"
    using nr_step [OF r ns_message [OF cp1(1)]] .
  have "lookup_page_state 0x12000 (nd_cp (set_cp cp1 ?s)) = Some e"
    using cp1(2) by (simp add: set_cp_def)
  with node_well_formed [OF t] t show ?thesis
    by blast
qed

section \<open>The shim and the daemon\<close>

lemma ipc_frame_version:
  assumes "length payload < 2 ^ 24"
  shows "to_be_bytes (of_nat (length payload)) ! 0 = 0"
proof -
  have "unat (drop_bit 24 (of_nat (length payload) :: u32)) = 0"
    using assms by (simp add: unat_drop_bit_eq unat_of_nat drop_bit_eq_div [where ?'a = nat])
  then have "drop_bit 24 (of_nat (length payload) :: u32) = 0"
    by (simp only: unat_eq_0)
  then show ?thesis
    by (simp add: to_be_bytes_def)
qed



end
